theory Spec2Isabelle
  imports Main "HOL-Library.Word"
begin

unbundle bit_operations_syntax

section \<open>Data model\<close>

text \<open>
  A quadrant (\<^verbatim>\<open>p4est_quadrant_t\<close>): anchor coordinates, refinement level and, for
  ghost quadrants, the owning tree (\<^verbatim>\<open>p.which_tree\<close>).  The coordinates are 32-bit
  in C; no operation modelled here can overflow them, so they are integers.
\<close>

record p4est_quadrant =
  qx :: int
  qy :: int
  qz :: int
  qlevel :: int
  which_tree :: int

text \<open>
  Quadrants live in arrays (\<^verbatim>\<open>sc_array_t\<close>): one per tree and one for the ghost
  layer.  A pointer to a quadrant is the array it points into and the position there;
  two pointers are equal exactly when both agree.
\<close>

datatype quad_array = Tree_quadrants nat | Ghost_quadrants

type_synonym qptr = "quad_array \<times> nat"

text \<open>The fields of \<^verbatim>\<open>p4est_connectivity_t\<close> that the iterator reads itself.\<close>

record p4est_connectivity =
  num_vertices :: int
  vtt_offset :: "int list"
  tree_to_tree :: "int list"
  tree_to_face :: "int list"
  num_corners :: int
  ctt_offset :: "int list"
  num_edges :: int
  ett_offset :: "int list"
  tree_to_edge :: "int list"
  edge_to_tree :: "int list"
  edge_to_edge :: "int list"

text \<open>
  The forest (\<^verbatim>\<open>p4est_t\<close>).  A tree is represented by its quadrant array, the only
  field of \<^verbatim>\<open>p4est_tree_t\<close> that is read.
\<close>

record p4est =
  first_local_tree :: int
  last_local_tree :: int
  trees :: "p4est_quadrant list list"
  mpisize :: int
  connectivity :: p4est_connectivity

text \<open>
  The build configuration and the functions of the library that \<^verbatim>\<open>p4est_iterate.c\<close>
  calls but that are defined elsewhere (\<^verbatim>\<open>p4est.h\<close>, \<^verbatim>\<open>p4est_bits.c\<close>,
  \<^verbatim>\<open>p4est_algorithms.c\<close>, \<^verbatim>\<open>p4est_connectivity.c\<close>, libsc).  They are parameters
  of the model: every theorem below holds for whatever they compute, unless it
  states an assumption about them.
\<close>

record env =
  P4_TO_P8 :: bool
  P4EST_MAXLEVEL :: nat
  P4EST_QMAXLEVEL :: nat
  p4est_split_array :: "p4est_quadrant list \<Rightarrow> int \<Rightarrow> nat list"
  p4est_quadrant_sibling :: "p4est_quadrant \<Rightarrow> int \<Rightarrow> p4est_quadrant"
  p4est_quadrant_parent :: "p4est_quadrant \<Rightarrow> p4est_quadrant"
  p4est_quadrant_child_id :: "p4est_quadrant \<Rightarrow> int"
  p4est_quadrant_face_neighbor_extra ::
    "p4est_connectivity \<Rightarrow> p4est_quadrant \<Rightarrow> int \<Rightarrow> int \<Rightarrow> int \<times> p4est_quadrant"
  p8est_quadrant_edge_neighbor_extra ::
    "p4est_connectivity \<Rightarrow> p4est_quadrant \<Rightarrow> int \<Rightarrow> int \<Rightarrow> (p4est_quadrant \<times> int) list"
  p4est_quadrant_corner_neighbor_extra ::
    "p4est_connectivity \<Rightarrow> p4est_quadrant \<Rightarrow> int \<Rightarrow> int \<Rightarrow> (p4est_quadrant \<times> int) list"
  p4est_quadrant_compare :: "p4est_quadrant \<Rightarrow> p4est_quadrant \<Rightarrow> int"
  p4est_quadrant_is_equal :: "p4est_quadrant \<Rightarrow> p4est_quadrant \<Rightarrow> bool"
  p4est_quadrant_is_ancestor :: "p4est_quadrant \<Rightarrow> p4est_quadrant \<Rightarrow> bool"
  sc_array_bsearch ::
    "p4est_quadrant list \<Rightarrow> p4est_quadrant \<Rightarrow> (p4est_quadrant \<Rightarrow> p4est_quadrant \<Rightarrow> int) \<Rightarrow> int"
  p4est_corner_faces :: "int \<Rightarrow> int \<Rightarrow> int"
  p4est_face_corners :: "int \<Rightarrow> int \<Rightarrow> int"
  p4est_zface_to_rface :: "int \<Rightarrow> int"
  p4est_rface_to_zface :: "int \<Rightarrow> int"
  p8est_edge_corners :: "int \<Rightarrow> int \<Rightarrow> int"
  p8est_edge_faces :: "int \<Rightarrow> int \<Rightarrow> int"
  p8est_corner_edges :: "int \<Rightarrow> int \<Rightarrow> int"
  p8est_child_corner_edges :: "int \<Rightarrow> int \<Rightarrow> int"

definition P4EST_DIM :: "env \<Rightarrow> nat" where
  "P4EST_DIM E = (if P4_TO_P8 E then 3 else 2)"

definition P4EST_CHILDREN :: "env \<Rightarrow> nat" where
  "P4EST_CHILDREN E = 2 ^ P4EST_DIM E"

definition P4EST_ITER_STRIDE :: "env \<Rightarrow> nat" where
  "P4EST_ITER_STRIDE E = P4EST_CHILDREN E + 1"

section \<open>The tier rings\<close>

record p4est_iter_tier =
  tier_key :: "qptr option"
  tier_array :: "nat list"

record p4est_iter_tier_ring =
  ring_next :: int
  ring_tiers :: "p4est_iter_tier list"

text \<open>
  \<^verbatim>\<open>p4est_iter_tier_rings_new\<close>: one ring per level below \<^verbatim>\<open>P4EST_QMAXLEVEL\<close>, each
  resized to \<^verbatim>\<open>tier_ring_max\<close> tiers whose keys are set to \<^verbatim>\<open>NULL\<close>.  The offsets of
  a fresh tier are not initialised in C; they are zeros here.
\<close>

definition tier_ring_max :: "env \<Rightarrow> int \<Rightarrow> nat" where
  "tier_ring_max E num_procs =
     (if num_procs = 1 then P4EST_CHILDREN E else 2 * P4EST_CHILDREN E)"

definition p4est_iter_tier_rings_new :: "env \<Rightarrow> int \<Rightarrow> p4est_iter_tier_ring list" where
  "p4est_iter_tier_rings_new E num_procs =
     (let tier_level_max = P4EST_QMAXLEVEL E in
      map (\<lambda>i. \<lparr>ring_next = 0,
                ring_tiers = map (\<lambda>j. \<lparr>tier_key = None,
                                        tier_array = replicate (P4EST_ITER_STRIDE E) 0\<rparr>)
                                 [0..<tier_ring_max E num_procs]\<rparr>)
          [0..<tier_level_max])"

text \<open>
  \<^verbatim>\<open>p4est_iter_tier_update\<close>: split the view by child id at the level, then add the
  shift to each of the \<^verbatim>\<open>P4EST_ITER_STRIDE\<close> offsets.
\<close>

definition p4est_iter_tier_update ::
  "env \<Rightarrow> p4est_quadrant list \<Rightarrow> int \<Rightarrow> nat \<Rightarrow> nat list" where
  "p4est_iter_tier_update E view lev shift =
     (let next_tier = p4est_split_array E view lev in
      map (\<lambda>i. next_tier ! i + shift) [0..<P4EST_ITER_STRIDE E])"

text \<open>
  The scan of a ring in \<^verbatim>\<open>p4est_iter_tier_insert\<close>: it stops at the first tier whose
  key is \<^verbatim>\<open>NULL\<close> or equal to the requested key.
\<close>

datatype tier_scan = Scan_null nat | Scan_hit nat | Scan_miss

fun tier_ring_scan :: "p4est_iter_tier list \<Rightarrow> nat \<Rightarrow> qptr \<Rightarrow> tier_scan" where
  "tier_ring_scan [] i q = Scan_miss"
| "tier_ring_scan (tier # rest) i q =
     (case tier_key tier of
        None \<Rightarrow> Scan_null i
      | Some k \<Rightarrow> if q = k then Scan_hit i else tier_ring_scan rest (Suc i) q)"

text \<open>
  \<^verbatim>\<open>p4est_iter_tier_insert\<close>.  The result is the content written to \<^verbatim>\<open>next_tier\<close>, the
  rings afterwards, and whether \<^verbatim>\<open>p4est_iter_tier_update\<close> was called (the binary
  search of \<^verbatim>\<open>p4est_split_array\<close>).  The assertion \<^verbatim>\<open>ring->next == i\<close> is compiled out
  in an optimised build and is not part of the model.
\<close>

definition p4est_iter_tier_insert ::
  "env \<Rightarrow> p4est_quadrant list \<Rightarrow> int \<Rightarrow> nat \<Rightarrow> p4est_iter_tier_ring list \<Rightarrow> qptr option
     \<Rightarrow> nat list \<times> p4est_iter_tier_ring list \<times> bool" where
  "p4est_iter_tier_insert E view lev shift tier_rings q =
     (case q of
        None \<Rightarrow> (replicate (P4EST_ITER_STRIDE E) shift, tier_rings, False)
      | Some k \<Rightarrow>
          if lev \<ge> int (length tier_rings) then
            (p4est_iter_tier_update E view lev shift, tier_rings, True)
          else
            let ring = tier_rings ! nat lev;
                limit = int (length (ring_tiers ring))
            in (case tier_ring_scan (ring_tiers ring) 0 k of
                  Scan_null i \<Rightarrow>
                    let next_tier = p4est_iter_tier_update E view lev shift;
                        ring' = ring\<lparr>ring_tiers :=
                                       (ring_tiers ring)[i := \<lparr>tier_key = Some k,
                                                               tier_array = next_tier\<rparr>],
                                     ring_next := (ring_next ring + 1) mod limit\<rparr>
                    in (next_tier, tier_rings[nat lev := ring'], True)
                | Scan_hit i \<Rightarrow> (tier_array (ring_tiers ring ! i), tier_rings, False)
                | Scan_miss \<Rightarrow>
                    let next_tier = p4est_iter_tier_update E view lev shift;
                        ring' = ring\<lparr>ring_tiers :=
                                       (ring_tiers ring)[nat (ring_next ring) :=
                                          \<lparr>tier_key = Some k, tier_array = next_tier\<rparr>],
                                     ring_next := (ring_next ring + 1) mod limit\<rparr>
                    in (next_tier, tier_rings[nat lev := ring'], True)))"

text \<open>
  Successive calls of \<^verbatim>\<open>p4est_iter_tier_insert\<close> on the rings of one top-level
  call: each request is a view, a level, a shift and a key; the rings are threaded
  from one call to the next.  The result lists, per call, the offsets delivered and
  whether the binary search ran.
\<close>

type_synonym tier_request = "p4est_quadrant list \<times> int \<times> nat \<times> qptr option"

fun tier_insert_run ::
  "env \<Rightarrow> p4est_iter_tier_ring list \<Rightarrow> tier_request list \<Rightarrow> (nat list \<times> bool) list" where
  "tier_insert_run E tier_rings [] = []"
| "tier_insert_run E tier_rings ((view, lev, shift, q) # rest) =
     (case p4est_iter_tier_insert E view lev shift tier_rings q of
        (next_tier, tier_rings', searched) \<Rightarrow>
          (next_tier, searched) # tier_insert_run E tier_rings' rest)"

text \<open>
  What the equivalence of caching and recomputation is stated with.  A key names a
  range: \<open>area k lev\<close> is the view and the shift of the search area that starts at the
  quadrant \<open>k\<close> at depth \<open>lev\<close>.  A request is well formed when its key is \<^verbatim>\<open>NULL\<close> for
  an empty view and otherwise names the view and shift it comes with.
\<close>

definition tier_request_ok ::
  "(qptr \<Rightarrow> int \<Rightarrow> p4est_quadrant list \<times> nat) \<Rightarrow> tier_request \<Rightarrow> bool" where
  "tier_request_ok area = (\<lambda>(view, lev, shift, q).
     0 \<le> lev \<and> (case q of None \<Rightarrow> view = [] | Some k \<Rightarrow> area k lev = (view, shift)))"

definition tier_request_key :: "tier_request \<Rightarrow> (qptr \<times> int) option" where
  "tier_request_key = (\<lambda>(view, lev, shift, q). map_option (\<lambda>k. (k, lev)) q)"

definition tier_request_update :: "env \<Rightarrow> tier_request \<Rightarrow> nat list" where
  "tier_request_update E = (\<lambda>(view, lev, shift, q). p4est_iter_tier_update E view lev shift)"

text \<open>
  The invariant of the rings: every cached tier holds what recomputation gives for
  its key, and its key was requested before.
\<close>

definition tier_cached_ok ::
  "env \<Rightarrow> (qptr \<Rightarrow> int \<Rightarrow> p4est_quadrant list \<times> nat) \<Rightarrow> (qptr \<times> int) set
     \<Rightarrow> p4est_iter_tier_ring list \<Rightarrow> bool" where
  "tier_cached_ok E area used rings \<longleftrightarrow>
     (\<forall>l < length rings. \<forall>t \<in> set (ring_tiers (rings ! l)). \<forall>k.
        tier_key t = Some k \<longrightarrow>
          tier_array t = p4est_iter_tier_update E (fst (area k (int l))) (int l) (snd (area k (int l)))
          \<and> (k, int l) \<in> used)"

section \<open>The loop arguments\<close>

text \<open>
  \<^verbatim>\<open>p4est_iter_loop_args_t\<close>: the scratch state shared by all iterate functions of
  one top-level call.  An entry of \<open>quadrants\<close> is a pointer to a quadrant array,
  \<open>None\<close> while it is not initialised; an entry of \<open>test\<close> is a pointer to a quadrant,
  \<open>None\<close> for \<^verbatim>\<open>NULL\<close>.  The arrays of the structure are functions of the position:
  C allocates \<^verbatim>\<open>alloc_size\<close> entries per sidetype array, half as many per side array
  and \<^verbatim>\<open>(P4EST_QMAXLEVEL + 1) * P4EST_ITER_STRIDE\<close> offsets per index array, and the
  model does not represent running past their ends.  Memory that C leaves
  uninitialised holds zeros.
\<close>

record p4est_iter_loop_args =
  alloc_size :: int
  loop_edge :: bool
  loop_corner :: bool
  level :: int
  level_num :: "nat \<Rightarrow> int"
  quad_idx2 :: "nat \<Rightarrow> int"
  quadrants :: "nat \<Rightarrow> quad_array option"
  index :: "nat \<Rightarrow> nat \<Rightarrow> nat"
  first_index :: "nat \<Rightarrow> nat"
  count :: "nat \<Rightarrow> nat"
  test :: "nat \<Rightarrow> qptr option"
  test_level :: "nat \<Rightarrow> int"
  refine :: "nat \<Rightarrow> bool"
  tier_rings :: "p4est_iter_tier_ring list"

text \<open>
  The sizes computed by \<^verbatim>\<open>p4est_iter_loop_args_new\<close>.  In 3D the edges are scanned when
  there is an edge or a corner callback; the corners (the vertices, in 2D) are scanned
  when there is a corner callback.
\<close>

definition max_edge_size :: "env \<Rightarrow> p4est_connectivity \<Rightarrow> bool \<Rightarrow> bool \<Rightarrow> int" where
  "max_edge_size E conn iter_edge iter_corner =
     (if P4_TO_P8 E \<and> (iter_edge \<or> iter_corner) then
        fold (\<lambda>e m. let edge_size = ett_offset conn ! (e + 1) - ett_offset conn ! e
                     in if edge_size > m then edge_size else m)
             [0..<nat (num_edges conn)] 4
      else 4)"

definition max_corner_size :: "env \<Rightarrow> p4est_connectivity \<Rightarrow> bool \<Rightarrow> bool \<Rightarrow> int" where
  "max_corner_size E conn iter_edge iter_corner =
     (let ctt = (if P4_TO_P8 E then ctt_offset conn else vtt_offset conn);
          n = (if P4_TO_P8 E then num_corners conn else num_vertices conn);
          m0 = int (P4EST_CHILDREN E);
          m1 = (if P4_TO_P8 E \<and> (iter_edge \<or> iter_corner)
                   \<and> max_edge_size E conn iter_edge iter_corner * 2 > m0
                then max_edge_size E conn iter_edge iter_corner * 2 else m0)
      in if iter_corner then
           fold (\<lambda>c m. let corner_size = ctt ! (c + 1) - ctt ! c
                        in if corner_size > m then corner_size else m)
                [0..<nat n] m1
         else m1)"

definition loop_alloc_size :: "env \<Rightarrow> p4est_connectivity \<Rightarrow> bool \<Rightarrow> bool \<Rightarrow> int" where
  "loop_alloc_size E conn iter_edge iter_corner =
     (let a0 = 4;
          a1 = (if P4_TO_P8 E \<and> (iter_edge \<or> iter_corner)
                   \<and> 2 * max_edge_size E conn iter_edge iter_corner > a0
                then 2 * max_edge_size E conn iter_edge iter_corner else a0)
      in if iter_corner \<and> 2 * max_corner_size E conn iter_edge iter_corner > a1
         then 2 * max_corner_size E conn iter_edge iter_corner else a1)"

text \<open>
  \<^verbatim>\<open>p4est_iter_loop_args_new\<close>.  The callbacks are given by whether they are
  non-\<^verbatim>\<open>NULL\<close>; \<open>iter_edge\<close> exists in the 3D build only.
\<close>

definition p4est_iter_loop_args_new ::
  "env \<Rightarrow> p4est_connectivity \<Rightarrow> bool \<Rightarrow> bool \<Rightarrow> int \<Rightarrow> p4est_iter_loop_args" where
  "p4est_iter_loop_args_new E conn iter_edge iter_corner num_procs =
     (let a = nat (loop_alloc_size E conn iter_edge iter_corner) in
      \<lparr>alloc_size = int a,
       loop_edge = (P4_TO_P8 E \<and> (iter_corner \<or> iter_edge)),
       loop_corner = iter_corner,
       level = 0,
       level_num = (\<lambda>l. 0),
       quad_idx2 = (\<lambda>side. 0),
       quadrants = (\<lambda>i. if i < a \<and> i mod 2 = 1 then Some Ghost_quadrants else None),
       index = (\<lambda>i k. 0),
       first_index = (\<lambda>i. 0),
       count = (\<lambda>i. 0),
       test = (\<lambda>i. None),
       test_level = (\<lambda>i. 0),
       refine = (\<lambda>side. False),
       tier_rings = p4est_iter_tier_rings_new E num_procs\<rparr>)"

section \<open>Callbacks, side records and outcomes\<close>

text \<open>
  The records handed to the callbacks.  The \<^verbatim>\<open>p4est\<close> and \<^verbatim>\<open>ghost_layer\<close> pointers of an
  info record are those of the top-level call and are left out.  A side of a face is
  a C union of a full and a hanging part selected by \<^verbatim>\<open>is_hanging\<close>; the record keeps
  both parts next to each other.
\<close>

record p4est_iter_volume_info =
  vi_treeid :: int
  vi_quad :: "qptr option"
  vi_quadid :: int

record p4est_iter_corner_side =
  cs_treeid :: int
  cs_corner :: int
  cs_is_local :: bool
  cs_quad :: "qptr option"
  cs_quadid :: int

record p4est_iter_corner_info =
  ci_sides :: "p4est_iter_corner_side list"

record p4est_iter_face_side =
  fs_treeid :: int
  fs_face :: int
  fs_is_hanging :: bool
  fs_full_quad :: "qptr option"
  fs_full_is_local :: bool
  fs_full_quadid :: int
  fs_hanging_quad :: "qptr option list"
  fs_hanging_is_local :: "bool list"
  fs_hanging_quadid :: "int list"

record p4est_iter_face_info =
  fi_orientation :: int
  fi_sides :: "p4est_iter_face_side list"

text \<open>
  A callback communicates through the caller's \<^verbatim>\<open>user_data\<close> only, so a traversal is
  observed through the sequence of callback invocations, each with the info record
  it received.  A callback parameter of the model says whether the pointer is
  non-\<^verbatim>\<open>NULL\<close>.
\<close>

datatype event =
  Volume_event p4est_iter_volume_info
| Face_event p4est_iter_face_info
| Corner_event p4est_iter_corner_info

text \<open>
  A run completes, or stops where C has no defined behaviour (a read outside an
  array, a read through an uninitialised pointer), or exceeds the number of loop
  steps it was given.  In the last two cases the outcome keeps the callbacks invoked
  so far.
\<close>

datatype 'a outcome = Ok 'a | Abort "event list" | Out_of_fuel "event list"

definition bind :: "'a outcome \<Rightarrow> ('a \<Rightarrow> 'b outcome) \<Rightarrow> 'b outcome" where
  "bind r f = (case r of Ok a \<Rightarrow> f a | Abort us \<Rightarrow> Abort us | Out_of_fuel us \<Rightarrow> Out_of_fuel us)"

fun fold_outcome :: "('i \<Rightarrow> 'a \<Rightarrow> 'a outcome) \<Rightarrow> 'i list \<Rightarrow> 'a \<Rightarrow> 'a outcome" where
  "fold_outcome f [] a = Ok a"
| "fold_outcome f (i # rest) a = bind (f i a) (fold_outcome f rest)"

section \<open>Reading the forest\<close>

definition quad_array_contents ::
  "p4est \<Rightarrow> p4est_quadrant list \<Rightarrow> quad_array \<Rightarrow> p4est_quadrant list option" where
  "quad_array_contents P ghost_layer a =
     (case a of
        Tree_quadrants t \<Rightarrow> if t < length (trees P) then Some (trees P ! t) else None
      | Ghost_quadrants \<Rightarrow> Some ghost_layer)"

text \<open>
  \<^verbatim>\<open>sc_array_index (quadrants[sidetype], i)\<close>: the pointer to the element and the
  quadrant it points to, or nothing when the read is undefined.
\<close>

definition sc_array_index ::
  "p4est \<Rightarrow> p4est_quadrant list \<Rightarrow> p4est_iter_loop_args \<Rightarrow> nat \<Rightarrow> nat
     \<Rightarrow> (qptr \<times> p4est_quadrant) option" where
  "sc_array_index P ghost_layer la sidetype i =
     (case quadrants la sidetype of
        None \<Rightarrow> None
      | Some a \<Rightarrow>
          (case quad_array_contents P ghost_layer a of
             None \<Rightarrow> None
           | Some qs \<Rightarrow> if i < length qs then Some ((a, i), qs ! i) else None))"

text \<open>\<^verbatim>\<open>sc_array_init_view (&test_view, quadrants[sidetype], first, cnt)\<close>.\<close>

definition sc_array_init_view ::
  "p4est \<Rightarrow> p4est_quadrant list \<Rightarrow> p4est_iter_loop_args \<Rightarrow> nat \<Rightarrow> nat \<Rightarrow> nat
     \<Rightarrow> p4est_quadrant list option" where
  "sc_array_init_view P ghost_layer la sidetype first cnt =
     (case quadrants la sidetype of
        None \<Rightarrow> None
      | Some a \<Rightarrow>
          (case quad_array_contents P ghost_layer a of
             None \<Rightarrow> None
           | Some qs \<Rightarrow> Some (take cnt (drop first qs))))"

text \<open>The difference of two \<^verbatim>\<open>size_t\<close> values wraps around.\<close>

definition size_diff :: "nat \<Rightarrow> nat \<Rightarrow> nat" where
  "size_diff a b = (if b \<le> a then a - b else a + 2 ^ 64 - b)"

text \<open>
  Every iterate function starts a search area the same way: from the position \<open>k\<close>
  in the index arrays of a side it reads the first index and the count of both the
  local and the ghost array.
\<close>

definition set_search_area :: "nat \<Rightarrow> int \<Rightarrow> p4est_iter_loop_args \<Rightarrow> p4est_iter_loop_args" where
  "set_search_area side k la =
     fold (\<lambda>type la.
             let sidetype = side * 2 + type;
                 first = index la sidetype (nat k)
             in la\<lparr>first_index := (first_index la)(sidetype := first),
                   count := (count la)(sidetype :=
                              size_diff (index la sidetype (nat (k + 1))) first)\<rparr>)
          [0, 1] la"

text \<open>\<^verbatim>\<open>p4est_iter_copy_indices\<close>.\<close>

definition p4est_iter_copy_indices ::
  "env \<Rightarrow> int list \<Rightarrow> nat \<Rightarrow> nat \<Rightarrow> p4est_iter_loop_args \<Rightarrow> p4est_iter_loop_args" where
  "p4est_iter_copy_indices E start_idx2 old_num new_num la =
     fold (\<lambda>side la.
        let idx2 = nat (level la * int (P4EST_ITER_STRIDE E) + start_idx2 ! side) in
        fold (\<lambda>type la.
                let src = index la ((side mod old_num) * 2 + type);
                    dst = index la (side * 2 + type)
                in la\<lparr>index := (index la)(side * 2 + type :=
                                   dst(idx2 := src idx2, idx2 + 1 := src (idx2 + 1)))\<rparr>)
             [0, 1] la)
       [0..<new_num] la"

definition P4EST_QUADRANT_LEN :: "env \<Rightarrow> int \<Rightarrow> int" where
  "P4EST_QUADRANT_LEN E l = 2 ^ (P4EST_MAXLEVEL E - nat l)"

section \<open>The corner iterator\<close>

record p4est_iter_corner_args =
  ca_num_sides :: int
  ca_start_idx2 :: "int list"
  ca_info :: p4est_iter_corner_info

text \<open>\<^verbatim>\<open>p4est_quadrant_compare_contains\<close>.\<close>

definition p4est_quadrant_compare_contains ::
  "env \<Rightarrow> p4est_quadrant \<Rightarrow> p4est_quadrant \<Rightarrow> int" where
  "p4est_quadrant_compare_contains E q r =
     (let lev = (if qlevel q < qlevel r then qlevel q else qlevel r);
          mask = push_bit (P4EST_MAXLEVEL E - nat lev) (- 1 :: int)
      in if (qx q XOR qx r) AND mask \<noteq> 0 \<or> (qy q XOR qy r) AND mask \<noteq> 0
            \<or> (P4_TO_P8 E \<and> (qz q XOR qz r) AND mask \<noteq> 0)
         then p4est_quadrant_compare E q r
         else 0)"

text \<open>
  The smallest quadrant in the corner \<open>this_corner\<close> of the ancestor at the level of
  the candidate \<open>q\<close>.
\<close>

definition corner_smallest ::
  "env \<Rightarrow> int \<Rightarrow> int \<Rightarrow> p4est_quadrant \<Rightarrow> p4est_quadrant" where
  "corner_smallest E lev this_corner q =
     (let mask = push_bit (P4EST_MAXLEVEL E - nat lev) (- 1 :: int);
          d = P4EST_QUADRANT_LEN E lev - P4EST_QUADRANT_LEN E (int (P4EST_QMAXLEVEL E));
          temp = q\<lparr>qx := qx q AND mask, qy := qy q AND mask,
                   qz := (if P4_TO_P8 E then qz q AND mask else qz q),
                   qlevel := int (P4EST_QMAXLEVEL E)\<rparr>
      in temp\<lparr>qx := qx temp + (if this_corner mod 2 \<noteq> 0 then d else 0),
              qy := qy temp + (if (this_corner mod 4) div 2 \<noteq> 0 then d else 0),
              qz := (if P4_TO_P8 E then qz temp + (if this_corner div 4 \<noteq> 0 then d else 0)
                     else qz temp)\<rparr>)"

text \<open>
  The candidate of one side and one type (0 local, 1 ghost) in the search loop of
  \<^verbatim>\<open>p4est_corner_iterate\<close>, for a search area that is not empty: the quadrant found
  to touch the corner, with its position in the search area, or nothing
  (\<^verbatim>\<open>test[sidetype] = NULL\<close>).
\<close>

definition corner_candidate ::
  "env \<Rightarrow> p4est \<Rightarrow> p4est_quadrant list \<Rightarrow> event list \<Rightarrow> p4est_iter_loop_args \<Rightarrow> nat \<Rightarrow> int
     \<Rightarrow> (qptr \<times> int) option outcome" where
  "corner_candidate E P ghost_layer us la sidetype this_corner =
     (let cnt = count la sidetype;
          first = first_index la sidetype;
          cand = (if cnt = 1 then 0
                  else if this_corner = int (P4EST_CHILDREN E) - 1 then cnt - 1 else 0)
      in (case sc_array_index P ghost_layer la sidetype (first + cand) of
            None \<Rightarrow> Abort us
          | Some (ptr, q) \<Rightarrow>
              let temp = corner_smallest E (level la) this_corner q in
              if cnt = 1 \<or> this_corner = 0 \<or> this_corner = int (P4EST_CHILDREN E) - 1
              then
                Ok (if \<not> p4est_quadrant_is_equal E q temp
                       \<and> \<not> p4est_quadrant_is_ancestor E q temp
                    then None else Some (ptr, int cand))
              else
                (case sc_array_init_view P ghost_layer la sidetype first cnt of
                   None \<Rightarrow> Abort us
                 | Some test_view \<Rightarrow>
                     let temp_idx = sc_array_bsearch E test_view temp
                                      (p4est_quadrant_compare_contains E)
                     in if temp_idx = - 1 then Ok None
                        else if 0 \<le> temp_idx \<and> nat temp_idx < length test_view
                        then Ok (Some ((fst ptr, first + nat temp_idx), temp_idx))
                        else Abort us)))"

text \<open>
  The body of the search loop for one side and one type.  The state is the side
  records, the loop arguments and \<^verbatim>\<open>has_local\<close>.  The ghost layer is not searched
  when the local search found a quadrant.
\<close>

definition corner_probe ::
  "env \<Rightarrow> p4est \<Rightarrow> p4est_quadrant list \<Rightarrow> event list \<Rightarrow> nat \<Rightarrow> nat
     \<Rightarrow> p4est_iter_corner_side list \<times> p4est_iter_loop_args \<times> bool
     \<Rightarrow> (p4est_iter_corner_side list \<times> p4est_iter_loop_args \<times> bool) outcome" where
  "corner_probe E P ghost_layer us side type = (\<lambda>(sides, la, has_local).
     let sidetype = side * 2 + type;
         this_corner = cs_corner (sides ! side)
     in if test la (side * 2) \<noteq> None then Ok (sides, la, has_local)
        else if count la sidetype = 0 then Ok (sides, la, has_local)
        else
          bind (corner_candidate E P ghost_layer us la sidetype this_corner)
            (\<lambda>found.
               case found of
                 None \<Rightarrow> Ok (sides, la\<lparr>test := (test la)(sidetype := None)\<rparr>, has_local)
               | Some (t, temp_idx) \<Rightarrow>
                   Ok (sides[side := (sides ! side)
                          \<lparr>cs_quad := Some t,
                           cs_is_local := (type = 0),
                           cs_quadid := temp_idx + int (first_index la sidetype)\<rparr>],
                       la\<lparr>test := (test la)(sidetype := Some t)\<rparr>,
                       has_local \<or> type = 0)))"

text \<open>The search loop for one side: reset the side record, then probe both types.\<close>

definition corner_side ::
  "env \<Rightarrow> p4est \<Rightarrow> p4est_quadrant list \<Rightarrow> event list \<Rightarrow> nat
     \<Rightarrow> p4est_iter_corner_side list \<times> p4est_iter_loop_args \<times> bool
     \<Rightarrow> (p4est_iter_corner_side list \<times> p4est_iter_loop_args \<times> bool) outcome" where
  "corner_side E P ghost_layer us side = (\<lambda>(sides, la, has_local).
     fold_outcome (corner_probe E P ghost_layer us side) [0, 1]
       (sides[side := (sides ! side)\<lparr>cs_quad := None, cs_is_local := False, cs_quadid := - 1\<rparr>],
        la, has_local))"

text \<open>
  \<^verbatim>\<open>p4est_corner_iterate\<close>.  The state is the corner arguments, the loop arguments and
  the callbacks invoked so far.
\<close>

definition p4est_corner_iterate ::
  "env \<Rightarrow> p4est \<Rightarrow> p4est_quadrant list
     \<Rightarrow> p4est_iter_corner_args \<times> p4est_iter_loop_args \<times> event list
     \<Rightarrow> (p4est_iter_corner_args \<times> p4est_iter_loop_args \<times> event list) outcome" where
  "p4est_corner_iterate E P ghost_layer = (\<lambda>(args, la0, us).
     let num_sides = nat (ca_num_sides args);
         level_idx2 = level la0 * int (P4EST_ITER_STRIDE E);
         la1 = fold (\<lambda>side la.
                  let k = level_idx2 + ca_start_idx2 args ! side;
                      la' = set_search_area side k
                              (la\<lparr>quad_idx2 := (quad_idx2 la)(side := k)\<rparr>)
                  in la'\<lparr>test := (test la')(side * 2 := None, side * 2 + 1 := None)\<rparr>)
                [0..<num_sides] la0
     in if list_all (\<lambda>side. count la1 (side * 2) = 0) [0..<num_sides] then Ok (args, la1, us)
        else
          bind (fold_outcome (corner_side E P ghost_layer us) [0..<num_sides]
                  (ci_sides (ca_info args), la1, False))
            (\<lambda>(sides, la2, has_local).
               let args' = args\<lparr>ca_info := (ca_info args)\<lparr>ci_sides := sides\<rparr>\<rparr>
               in if \<not> has_local then Ok (args', la2, us)
                  else Ok (args', la2, us @ [Corner_event (ca_info args')])))"

section \<open>Initialising the loop arguments\<close>

definition set_index :: "nat \<Rightarrow> nat \<Rightarrow> nat \<Rightarrow> p4est_iter_loop_args \<Rightarrow> p4est_iter_loop_args" where
  "set_index sidetype k v la = la\<lparr>index := (index la)(sidetype := (index la sidetype)(k := v))\<rparr>"

definition set_quadrants :: "quad_array \<Rightarrow> quad_array \<Rightarrow> nat \<Rightarrow> p4est_iter_loop_args \<Rightarrow> p4est_iter_loop_args" where
  "set_quadrants left_local_quads right_local_quads i la =
     la\<lparr>quadrants := (quadrants la)(i :=
          Some (if i mod 2 \<noteq> 0 then Ghost_quadrants
                else if (i div 2) mod 2 \<noteq> 0 then right_local_quads else left_local_quads))\<rparr>"

text \<open>
  \<^verbatim>\<open>p4est_split_ghost_layer_by_tree\<close>: the offsets of the trees in the ghost layer,
  which is sorted by tree.  \<^verbatim>\<open>sc_array_split\<close> belongs to libsc; for a sorted array
  the offset of a tree is the number of ghosts of smaller trees.
\<close>

definition p4est_split_ghost_layer_by_tree :: "p4est_quadrant list \<Rightarrow> nat \<Rightarrow> nat list" where
  "p4est_split_ghost_layer_by_tree ghosts num_trees =
     map (\<lambda>i. length (filter (\<lambda>q. which_tree q < int i) ghosts)) [0..<num_trees + 1]"

text \<open>
  The bounds of one side at level 0: all local quadrants of the tree and the ghosts
  of the tree.
\<close>

definition set_root_bounds ::
  "p4est \<Rightarrow> nat list \<Rightarrow> nat \<Rightarrow> int \<Rightarrow> p4est_iter_loop_args \<Rightarrow> p4est_iter_loop_args" where
  "set_root_bounds P ghost_offsets side t la =
     (set_index (side * 2 + 1) 1 (ghost_offsets ! nat (t + 1))
      (set_index (side * 2 + 1) 0 (ghost_offsets ! nat t)
      (set_index (side * 2) 1 (length (trees P ! nat t))
      (set_index (side * 2) 0 0 la))))"

text \<open>\<^verbatim>\<open>p4est_iter_init_loop_volume\<close>.\<close>

definition p4est_iter_init_loop_volume ::
  "env \<Rightarrow> p4est \<Rightarrow> nat list \<Rightarrow> int \<Rightarrow> p4est_iter_loop_args \<Rightarrow> p4est_iter_loop_args" where
  "p4est_iter_init_loop_volume E P ghost_offsets t la =
     (let local_quads = Tree_quadrants (nat t);
          la1 = la\<lparr>level := 0, level_num := (level_num la)(0 := 0)\<rparr>;
          la2 = fold (\<lambda>i. set_root_bounds P ghost_offsets i t) [0, 1] la1;
          la3 = fold (set_quadrants local_quads local_quads) [0..<4] la2;
          la4 = (if P4_TO_P8 E \<and> loop_edge la then
                   fold (set_quadrants local_quads local_quads) [4..<8] la3 else la3);
          i = (if P4_TO_P8 E \<and> loop_edge la then 8 else 4)
      in if loop_corner la then
           fold (set_quadrants local_quads local_quads) [i..<2 * P4EST_CHILDREN E] la4
         else la4)"

text \<open>\<^verbatim>\<open>p4est_iter_init_loop_face\<close>.\<close>

definition p4est_iter_init_loop_face ::
  "env \<Rightarrow> p4est \<Rightarrow> nat list \<Rightarrow> int \<Rightarrow> int \<Rightarrow> p4est_iter_loop_args \<Rightarrow> p4est_iter_loop_args" where
  "p4est_iter_init_loop_face E P ghost_offsets t nt la =
     (let left_local_quads = Tree_quadrants (nat t);
          right_local_quads = Tree_quadrants (nat nt);
          la1 = la\<lparr>level := 0, level_num := (level_num la)(0 := 0)\<rparr>;
          la2 = set_root_bounds P ghost_offsets 1 nt (set_root_bounds P ghost_offsets 0 t la1);
          la3 = fold (set_quadrants left_local_quads right_local_quads) [0..<4] la2;
          la4 = (if P4_TO_P8 E \<and> loop_edge la then
                   fold (set_quadrants left_local_quads right_local_quads) [4..<8] la3 else la3);
          i = (if P4_TO_P8 E \<and> loop_edge la then 8 else 4)
      in if loop_corner la then
           fold (set_quadrants left_local_quads right_local_quads) [i..<2 * P4EST_CHILDREN E] la4
         else la4)"

text \<open>\<^verbatim>\<open>p4est_iter_init_loop_outside_face\<close>: only the left side is set up.\<close>

definition p4est_iter_init_loop_outside_face ::
  "env \<Rightarrow> p4est \<Rightarrow> nat list \<Rightarrow> int \<Rightarrow> p4est_iter_loop_args \<Rightarrow> p4est_iter_loop_args" where
  "p4est_iter_init_loop_outside_face E P ghost_offsets t la =
     (let local_quads = Tree_quadrants (nat t);
          la1 = la\<lparr>level := 0, level_num := (level_num la)(0 := 0)\<rparr>;
          la2 = set_root_bounds P ghost_offsets 0 t la1;
          la3 = fold (set_quadrants local_quads local_quads) [0..<2] la2;
          la4 = (if P4_TO_P8 E \<and> loop_edge la then
                   fold (set_quadrants local_quads local_quads) [2..<4] la3 else la3);
          i = (if P4_TO_P8 E \<and> loop_edge la then 4 else 2)
      in if loop_corner la then
           fold (set_quadrants local_quads local_quads) [i..<P4EST_CHILDREN E] la4
         else la4)"

text \<open>
  \<^verbatim>\<open>p4est_iter_init_loop_corner\<close> and \<^verbatim>\<open>p8est_iter_init_loop_edge\<close>, for the tree ids of
  the sides.  The edge version also sets the arrays of the corner sides that follow
  the edge sides when corners are iterated.
\<close>

definition init_loop_side ::
  "p4est \<Rightarrow> nat list \<Rightarrow> nat \<Rightarrow> int \<Rightarrow> p4est_iter_loop_args \<Rightarrow> p4est_iter_loop_args" where
  "init_loop_side P ghost_offsets zz t la =
     (let la' = set_root_bounds P ghost_offsets zz t la in
      la'\<lparr>quadrants := (quadrants la')(zz * 2 := Some (Tree_quadrants (nat t)),
                                        zz * 2 + 1 := Some Ghost_quadrants)\<rparr>)"

definition p4est_iter_init_loop_corner ::
  "p4est \<Rightarrow> nat list \<Rightarrow> int list \<Rightarrow> p4est_iter_loop_args \<Rightarrow> p4est_iter_loop_args" where
  "p4est_iter_init_loop_corner P ghost_offsets treeids la =
     fold (\<lambda>zz. init_loop_side P ghost_offsets zz (treeids ! zz)) [0..<length treeids]
       (la\<lparr>level := 0, level_num := (level_num la)(0 := 0)\<rparr>)"

definition p8est_iter_init_loop_edge ::
  "p4est \<Rightarrow> nat list \<Rightarrow> int list \<Rightarrow> p4est_iter_loop_args \<Rightarrow> p4est_iter_loop_args" where
  "p8est_iter_init_loop_edge P ghost_offsets treeids la =
     (let limit = length treeids in
      fold (\<lambda>zz la.
              let la' = init_loop_side P ghost_offsets zz (treeids ! zz) la in
              if loop_corner la then
                la'\<lparr>quadrants := (quadrants la')
                      ((limit + zz) * 2 := Some (Tree_quadrants (nat (treeids ! zz))),
                       (limit + zz) * 2 + 1 := Some Ghost_quadrants)\<rparr>
              else la')
        [0..<limit]
        (la\<lparr>level := 0, level_num := (level_num la)(0 := 0)\<rparr>))"

section \<open>Initialising the arguments of a corner, an edge and a face between trees\<close>

text \<open>The quadrant \<^verbatim>\<open>{0, 0, 0, level 1}\<close> from which the init functions start.\<close>

definition first_child :: p4est_quadrant where
  "first_child = \<lparr>qx = 0, qy = 0, qz = 0, qlevel = 1, which_tree = 0\<rparr>"

definition new_corner_side :: "int \<Rightarrow> int \<Rightarrow> p4est_iter_corner_side" where
  "new_corner_side t c =
     \<lparr>cs_treeid = t, cs_corner = c, cs_is_local = False, cs_quad = None, cs_quadid = 0\<rparr>"

text \<open>
  The pairs (tree id, corner) that \<^verbatim>\<open>p4est_iter_init_corner\<close> pushes to the sides of
  the corner \<open>c\<close> of tree \<open>t\<close>, in order: the pair itself, the neighbours across
  the faces at the corner, in 3D the neighbours across the edges at the corner, and
  the corner neighbours.
\<close>

definition corner_touching ::
  "env \<Rightarrow> p4est_connectivity \<Rightarrow> int \<Rightarrow> int \<Rightarrow> (int \<times> int) list" where
  "corner_touching E conn t c =
     (let orig = p4est_quadrant_sibling E first_child c in
      [(t, c)]
      @ concat (map (\<lambda>i. let f = p4est_corner_faces E c (int i);
                             (nt, temp) = p4est_quadrant_face_neighbor_extra E conn orig t f
                         in if nt = - 1 then [] else [(nt, p4est_quadrant_child_id E temp)])
                    [0..<P4EST_DIM E])
      @ (if P4_TO_P8 E then
           concat (map (\<lambda>i. let e = p8est_corner_edges E c (int i)
                             in map (\<lambda>(ptemp, nt). (nt, p4est_quadrant_child_id E ptemp))
                                  (p8est_quadrant_edge_neighbor_extra E conn orig t e))
                       [0..<3])
         else [])
      @ map (\<lambda>(ptemp, nt). (nt, p4est_quadrant_child_id E ptemp))
          (p4est_quadrant_corner_neighbor_extra E conn orig t c))"

text \<open>
  The test at the end of the three init functions: the call is rejected when a side
  after the first has a greater tree id, or the same tree id and a greater entity.
\<close>

fun owner_check :: "int \<Rightarrow> int \<Rightarrow> (int \<times> int) list \<Rightarrow> bool" where
  "owner_check t c [] = True"
| "owner_check t c ((nt, nc) # rest) =
     (if nt > t then False
      else if nt = t \<and> nc > c then False
      else owner_check t c rest)"

text \<open>
  \<^verbatim>\<open>p4est_iter_init_corner\<close>: whether to run the iterator, the arguments and the loop
  arguments, which are initialised only when the call is accepted.
\<close>

definition p4est_iter_init_corner ::
  "env \<Rightarrow> p4est \<Rightarrow> nat list \<Rightarrow> p4est_iter_loop_args \<Rightarrow> int \<Rightarrow> int
     \<Rightarrow> bool \<times> p4est_iter_corner_args \<times> p4est_iter_loop_args" where
  "p4est_iter_init_corner E P ghost_offsets la t c =
     (let pairs = corner_touching E (connectivity P) t c;
          cnt = length pairs;
          args = \<lparr>ca_num_sides = int cnt,
                  ca_start_idx2 = replicate (nat (alloc_size la div 2)) 0,
                  ca_info = \<lparr>ci_sides = map (\<lambda>(nt, nc). new_corner_side nt nc) pairs\<rparr>\<rparr>
      in if \<not> owner_check t c (tl pairs) then (False, args, la)
         else (True, args, p4est_iter_init_loop_corner P ghost_offsets (map fst pairs) la))"

text \<open>
  \<^verbatim>\<open>p8est_iter_init_edge\<close> (3D build).  A side of an edge is its tree, its edge and
  its orientation; the fields that \<^verbatim>\<open>p8est_edge_iterate\<close> fills in are not part of
  the record.
\<close>

record p8est_iter_edge_side =
  es_treeid :: int
  es_edge :: int
  es_orientation :: int

record p8est_iter_edge_args =
  ea_num_sides :: int
  ea_start_idx2 :: "int list"
  ea_common_corners :: "int list \<times> int list"
  ea_corner_args :: p4est_iter_corner_args
  ea_sides :: "p8est_iter_edge_side list"

text \<open>The orientation of the edge \<open>e\<close> of tree \<open>t\<close> in the connectivity.\<close>

definition edge_orig_orient :: "p4est_connectivity \<Rightarrow> int \<Rightarrow> int \<Rightarrow> int" where
  "edge_orig_orient conn t e =
     (let edge = tree_to_edge conn ! nat (t * 12 + e) in
      if edge \<ge> 0 then
        fold (\<lambda>it orient.
                if edge_to_tree conn ! it = t \<and> (edge_to_edge conn ! it) mod 12 = e
                then (edge_to_edge conn ! it) div 12 else orient)
             [nat (ett_offset conn ! nat edge)..<nat (ett_offset conn ! nat (edge + 1))] 0
      else 0)"

text \<open>
  What \<^verbatim>\<open>p8est_iter_init_edge\<close> pushes for the edge \<open>e\<close> of tree \<open>t\<close>: per side the
  pair of child ids \<open>(c0, c1)\<close> along the edge, the tree and the edge.  The first
  side is the pair itself; then come the neighbours across the two faces at the
  edge and the edge neighbours.
\<close>

definition edge_touching ::
  "env \<Rightarrow> p4est_connectivity \<Rightarrow> int \<Rightarrow> int \<Rightarrow> ((int \<times> int) \<times> int \<times> int) list" where
  "edge_touching E conn t e =
     (let c0 = p8est_edge_corners E e 0;
          c1 = p8est_edge_corners E e 1;
          tempr = p4est_quadrant_sibling E first_child c1;
          orig = p4est_quadrant_sibling E (tempr\<lparr>qlevel := qlevel tempr + 1\<rparr>) c0;
          side_of = (\<lambda>q nt.
             let d0 = p4est_quadrant_child_id E q;
                 d1 = p4est_quadrant_child_id E (p4est_quadrant_parent E q)
             in ((d0, d1), nt, p8est_child_corner_edges E d0 d1))
      in [((c0, c1), t, e)]
         @ concat (map (\<lambda>i. let f = p8est_edge_faces E e (int i);
                                (nt, tempq) = p4est_quadrant_face_neighbor_extra E conn orig t f
                            in if nt = - 1 then [] else [side_of tempq nt])
                       [0..<2])
         @ map (\<lambda>(ptemp, nt). side_of ptemp nt)
             (p8est_quadrant_edge_neighbor_extra E conn orig t e))"

text \<open>\<^verbatim>\<open>p8est_iter_init_corner_from_edge\<close>.\<close>

definition p8est_iter_init_corner_from_edge ::
  "int \<Rightarrow> int list \<times> int list \<Rightarrow> int list \<Rightarrow> p4est_iter_corner_args" where
  "p8est_iter_init_corner_from_edge edge_num_sides common_corners treeids =
     (let n = nat edge_num_sides;
          side_of = (\<lambda>j. let k = j mod n in
             (if j = k then (new_corner_side (treeids ! k) (snd common_corners ! k),
                             fst common_corners ! k)
              else (new_corner_side (treeids ! k) (fst common_corners ! k),
                    snd common_corners ! k)))
      in \<lparr>ca_num_sides = 2 * edge_num_sides,
          ca_start_idx2 = map (\<lambda>j. snd (side_of j)) [0..<2 * n],
          ca_info = \<lparr>ci_sides = map (\<lambda>j. fst (side_of j)) [0..<2 * n]\<rparr>\<rparr>)"

definition p8est_iter_init_edge ::
  "env \<Rightarrow> p4est \<Rightarrow> nat list \<Rightarrow> p4est_iter_loop_args \<Rightarrow> p8est_iter_edge_args \<Rightarrow> int \<Rightarrow> int
     \<Rightarrow> bool \<times> p8est_iter_edge_args \<times> p4est_iter_loop_args" where
  "p8est_iter_init_edge E P ghost_offsets la args0 t e =
     (let conn = connectivity P;
          orig_orient = edge_orig_orient conn t e;
          touching = edge_touching E conn t e;
          cnt = length touching;
          common = (map (\<lambda>((c0, c1), nt, ne). if orig_orient = 0 then c0 else c1) touching,
                    map (\<lambda>((c0, c1), nt, ne). if orig_orient = 0 then c1 else c0) touching);
          sides = \<lparr>es_treeid = t, es_edge = e, es_orientation = orig_orient\<rparr>
                  # map (\<lambda>((c0, c1), nt, ne).
                           \<lparr>es_treeid = nt, es_edge = ne,
                            es_orientation = (if c0 < c1 then 0 else 1)\<rparr>) (tl touching);
          args = \<lparr>ea_num_sides = int cnt,
                  ea_start_idx2 = replicate (nat (alloc_size la div 2)) 0,
                  ea_common_corners = common,
                  ea_corner_args =
                    (if loop_corner la
                     then p8est_iter_init_corner_from_edge (int cnt) common (map es_treeid sides)
                     else ea_corner_args args0),
                  ea_sides = sides\<rparr>
      in if \<not> owner_check t e (map (\<lambda>s. (es_treeid s, es_edge s)) (tl sides))
         then (False, args, la)
         else (True, args, p8est_iter_init_loop_edge P ghost_offsets (map es_treeid sides) la))"

section \<open>The face iterator\<close>

record p4est_iter_face_args =
  fa_start_idx2 :: "int list"
  fa_num_to_child :: "int list"
  fa_outside_face :: bool
  fa_corner_args :: p4est_iter_corner_args
  fa_info :: p4est_iter_face_info

definition new_face_side :: "env \<Rightarrow> int \<Rightarrow> int \<Rightarrow> p4est_iter_face_side" where
  "new_face_side E t f =
     \<lparr>fs_treeid = t, fs_face = f, fs_is_hanging = False,
      fs_full_quad = None, fs_full_is_local = False, fs_full_quadid = 0,
      fs_hanging_quad = replicate (P4EST_CHILDREN E div 2) None,
      fs_hanging_is_local = replicate (P4EST_CHILDREN E div 2) False,
      fs_hanging_quadid = replicate (P4EST_CHILDREN E div 2) 0\<rparr>"

text \<open>\<^verbatim>\<open>p4est_iter_init_corner_from_face\<close>.\<close>

definition p4est_iter_init_corner_from_face ::
  "env \<Rightarrow> int list \<Rightarrow> bool \<Rightarrow> int list \<Rightarrow> p4est_iter_corner_args" where
  "p4est_iter_init_corner_from_face E num_to_child outside_face treeids =
     (let ntc_str = P4EST_CHILDREN E div 2;
          limit = (if outside_face then 1 else 2);
          jk = concat (map (\<lambda>j. map (\<lambda>k. (j, k)) [0..<limit]) [0..<ntc_str])
      in \<lparr>ca_num_sides = int (limit * ntc_str),
          ca_start_idx2 = map (\<lambda>(j, k). num_to_child ! (k * ntc_str + j)) jk,
          ca_info = \<lparr>ci_sides =
            map (\<lambda>(j, k). new_corner_side (treeids ! k)
                             (num_to_child ! (k * ntc_str + (ntc_str - 1 - j)))) jk\<rparr>\<rparr>)"

text \<open>
  The loop of \<^verbatim>\<open>p4est_iter_init_face\<close> over the corners of the face: the neighbouring
  tree seen from the last corner and \<^verbatim>\<open>num_to_child\<close>.  In 2D the face \<open>f\<close> is
  translated to the numbering of the connectivity first.
\<close>

definition face_lookup_face :: "env \<Rightarrow> int \<Rightarrow> int" where
  "face_lookup_face E f = (if P4_TO_P8 E then f else p4est_zface_to_rface E f)"

definition init_face_children ::
  "env \<Rightarrow> p4est_connectivity \<Rightarrow> int \<Rightarrow> int \<Rightarrow> int list \<Rightarrow> int \<times> int list" where
  "init_face_children E conn t f num_to_child0 =
     (let ntc_str = P4EST_CHILDREN E div 2;
          rf = face_lookup_face E f
      in fold (\<lambda>i (nt0, ntc).
                 let c = p4est_face_corners E rf (int i);
                     orig = p4est_quadrant_sibling E first_child c;
                     (nt, tempr) = p4est_quadrant_face_neighbor_extra E conn orig t rf;
                     ntc1 = ntc[i := c]
                 in (nt, if nt \<noteq> - 1
                         then ntc1[ntc_str + i := p4est_quadrant_child_id E tempr] else ntc1))
              [0..<ntc_str] (- 1, num_to_child0))"

text \<open>
  The face of the neighbouring tree and the orientation, read from \<^verbatim>\<open>tree_to_face\<close>.
\<close>

definition init_face_neighbor_face :: "env \<Rightarrow> p4est_connectivity \<Rightarrow> int \<Rightarrow> int \<Rightarrow> int \<times> int" where
  "init_face_neighbor_face E conn t f =
     (let d = int (2 * P4EST_DIM E);
          nrf = tree_to_face conn ! nat (d * t + face_lookup_face E f)
      in (nrf div d,
          if P4_TO_P8 E then nrf mod d else p4est_rface_to_zface E (nrf mod d)))"

text \<open>
  \<^verbatim>\<open>p4est_iter_init_face\<close>, for the 2D build and for the 3D build without edge
  arguments.  The face arguments are a variable of the caller that is reused from
  call to call: \<^verbatim>\<open>num_to_child\<close> and \<^verbatim>\<open>start_idx2\<close> keep what is not overwritten.
\<close>

definition p4est_iter_init_face ::
  "env \<Rightarrow> p4est \<Rightarrow> nat list \<Rightarrow> p4est_iter_loop_args \<Rightarrow> p4est_iter_face_args \<Rightarrow> int \<Rightarrow> int
     \<Rightarrow> bool \<times> p4est_iter_face_args \<times> p4est_iter_loop_args" where
  "p4est_iter_init_face E P ghost_offsets la args0 t f =
     (let conn = connectivity P;
          (nt, num_to_child) = init_face_children E conn t f (fa_num_to_child args0);
          (orientation, nf) =
             (if nt \<noteq> - 1 then init_face_neighbor_face E conn t f else (0, - 1));
          sides = new_face_side E t f # (if nt \<noteq> - 1 then [new_face_side E nt nf] else []);
          args = \<lparr>fa_start_idx2 =
                    (if nt \<noteq> - 1 then (fa_start_idx2 args0)[0 := 0, 1 := 0]
                     else (fa_start_idx2 args0)[0 := 0]),
                  fa_num_to_child = num_to_child,
                  fa_outside_face = (nt = - 1),
                  fa_corner_args =
                    (if loop_corner la
                     then p4est_iter_init_corner_from_face E num_to_child (nt = - 1)
                            (map fs_treeid sides)
                     else fa_corner_args args0),
                  fa_info = \<lparr>fi_orientation = orientation, fi_sides = sides\<rparr>\<rparr>
      in if nt \<noteq> - 1 \<and> (nt > t \<or> (nt = t \<and> nf > f)) then (False, args, la)
         else if nt \<noteq> - 1 then (True, args, p4est_iter_init_loop_face E P ghost_offsets t nt la)
         else (True, args, p4est_iter_init_loop_outside_face E P ghost_offsets t la))"

text \<open>
  The state of the loops of \<^verbatim>\<open>p4est_face_iterate\<close>: the face arguments (the side
  records are rewritten while searching), the loop arguments, the callbacks invoked
  so far and the local variables \<^verbatim>\<open>level_idx2\<close> and \<^verbatim>\<open>has_local\<close>.
\<close>

record face_loop =
  fl_args :: p4est_iter_face_args
  fl_la :: p4est_iter_loop_args
  fl_us :: "event list"
  fl_level_idx2 :: int
  fl_has_local :: bool

text \<open>
  The first quadrant of the search area of one sidetype and its level, or \<^verbatim>\<open>NULL\<close>
  and \<open>-1\<close> for an empty search area.
\<close>

definition load_test ::
  "p4est \<Rightarrow> p4est_quadrant list \<Rightarrow> event list \<Rightarrow> nat \<Rightarrow> p4est_iter_loop_args
     \<Rightarrow> p4est_iter_loop_args outcome" where
  "load_test P ghost_layer us sidetype la =
     (if count la sidetype \<noteq> 0 then
        (case sc_array_index P ghost_layer la sidetype (first_index la sidetype) of
           None \<Rightarrow> Abort us
         | Some (ptr, q) \<Rightarrow>
             Ok (la\<lparr>test := (test la)(sidetype := Some ptr),
                    test_level := (test_level la)(sidetype := qlevel q)\<rparr>))
      else Ok (la\<lparr>test := (test la)(sidetype := None),
                  test_level := (test_level la)(sidetype := - 1)\<rparr>))"

text \<open>
  Splitting the search area of one sidetype: the view is handed to
  \<^verbatim>\<open>p4est_iter_tier_insert\<close>, which writes the \<^verbatim>\<open>P4EST_ITER_STRIDE\<close> offsets to
  \<^verbatim>\<open>index[sidetype] + k\<close>.
\<close>

definition write_tier :: "nat \<Rightarrow> nat list \<Rightarrow> (nat \<Rightarrow> nat) \<Rightarrow> nat \<Rightarrow> nat" where
  "write_tier k next_tier offsets =
     fold (\<lambda>i offsets. offsets(k + i := next_tier ! i)) [0..<length next_tier] offsets"

definition split_sidetype ::
  "env \<Rightarrow> p4est \<Rightarrow> p4est_quadrant list \<Rightarrow> event list \<Rightarrow> int \<Rightarrow> nat \<Rightarrow> p4est_iter_loop_args
     \<Rightarrow> p4est_iter_loop_args outcome" where
  "split_sidetype E P ghost_layer us k sidetype la =
     (case sc_array_init_view P ghost_layer la sidetype
             (first_index la sidetype) (count la sidetype) of
        None \<Rightarrow> Abort us
      | Some test_view \<Rightarrow>
          (case p4est_iter_tier_insert E test_view (level la) (first_index la sidetype)
                  (tier_rings la) (test la sidetype) of
             (next_tier, rings', searched) \<Rightarrow>
               Ok (la\<lparr>index := (index la)(sidetype :=
                                   write_tier (nat k) next_tier (index la sidetype)),
                      tier_rings := rings'\<rparr>)))"

definition bump_level_num :: "p4est_iter_loop_args \<Rightarrow> p4est_iter_loop_args" where
  "bump_level_num la =
     la\<lparr>level_num := (level_num la)(nat (level la) := level_num la (nat (level la)) + 1)\<rparr>"

definition descend :: "p4est_iter_loop_args \<Rightarrow> p4est_iter_loop_args" where
  "descend la = la\<lparr>level := level la + 1, level_num := (level_num la)(nat (level la + 1) := 0)\<rparr>"

definition ascend :: "p4est_iter_loop_args \<Rightarrow> p4est_iter_loop_args" where
  "ascend la = bump_level_num (la\<lparr>level := level la - 1\<rparr>)"

definition face_set_full ::
  "nat \<Rightarrow> qptr option \<Rightarrow> int \<Rightarrow> bool \<Rightarrow> p4est_iter_face_args \<Rightarrow> p4est_iter_face_args" where
  "face_set_full side q quadid is_local args =
     args\<lparr>fa_info := (fa_info args)\<lparr>fi_sides := (fi_sides (fa_info args))[side :=
        (fi_sides (fa_info args) ! side)
          \<lparr>fs_is_hanging := False, fs_full_quad := q,
           fs_full_quadid := quadid, fs_full_is_local := is_local\<rparr>]\<rparr>\<rparr>"

text \<open>Invoke the face callback and go on to the next branch at this level.\<close>

definition face_emit :: "face_loop \<Rightarrow> face_loop" where
  "face_emit s =
     s\<lparr>fl_us := fl_us s @ [Face_event (fa_info (fl_args s))],
       fl_la := bump_level_num (fl_la s)\<rparr>"

text \<open>
  One candidate of the candidate loop of \<^verbatim>\<open>p4est_face_iterate\<close>: the sidetype of
  \<open>side\<close> and \<open>type\<close> has a first quadrant at the current level.  The result says
  whether the loop is left for \<^verbatim>\<open>change_search_area\<close>.
\<close>

definition face_candidate :: "bool \<Rightarrow> nat \<Rightarrow> nat \<Rightarrow> face_loop \<Rightarrow> bool \<times> face_loop" where
  "face_candidate iter_face side type s =
     (let la = fl_la s; sidetype = side * 2 + type in
      if \<not> iter_face then (True, s\<lparr>fl_la := bump_level_num la\<rparr>)
      else
        let s1 = s\<lparr>fl_args := face_set_full side (test la sidetype)
                                (int (first_index la sidetype)) (type = 0) (fl_args s),
                   fl_la := la\<lparr>refine := (refine la)(side := False)\<rparr>,
                   fl_has_local := (type = 0)\<rparr>
        in if fa_outside_face (fl_args s) then (True, face_emit s1)
           else
             let n_side = (if side = 0 then 1 else 0) in
             (case filter (\<lambda>n_type. (n_type > type \<or> n_side > side)
                                      \<and> test_level la (n_side * 2 + n_type) = level la)
                          [type..<2] of
                n_type # rest \<Rightarrow>
                  (True, face_emit (s1\<lparr>fl_args :=
                     face_set_full n_side (test la (n_side * 2 + n_type))
                       (int (first_index la (n_side * 2 + n_type))) (n_type = 0) (fl_args s1)\<rparr>))
              | [] \<Rightarrow>
                  if count la (n_side * 2) = 0 \<and> count la (n_side * 2 + 1) = 0
                  then (True, face_emit (s1\<lparr>fl_args :=
                          face_set_full n_side None (- 1) False (fl_args s1)\<rparr>))
                  else (False, s1)))"

fun face_candidates :: "bool \<Rightarrow> (nat \<times> nat) list \<Rightarrow> face_loop \<Rightarrow> bool \<times> face_loop" where
  "face_candidates iter_face [] s = (False, s)"
| "face_candidates iter_face ((side, type) # rest) s =
     (if test_level (fl_la s) (side * 2 + type) = level (fl_la s) then
        (case face_candidate iter_face side type s of
           (True, s') \<Rightarrow> (True, s')
         | (False, s') \<Rightarrow> face_candidates iter_face rest s')
      else face_candidates iter_face rest s)"

text \<open>
  The hanging side \<open>n_side\<close> opposite a side that is not refined: for each child
  position at the face (2D: the two children), the slot is cleared and then filled
  from the child's search area, local first and ghost second.
\<close>

definition face_hanging_slot ::
  "env \<Rightarrow> p4est \<Rightarrow> p4est_quadrant list \<Rightarrow> nat \<Rightarrow> nat \<Rightarrow> nat \<Rightarrow> face_loop \<Rightarrow> face_loop outcome" where
  "face_hanging_slot E P ghost_layer n_side child_corner n_type s =
     (let la0 = fl_la s;
          nsidentype = n_side * 2 + n_type;
          k = quad_idx2 la0 n_side;
          first = index la0 nsidentype (nat k);
          cnt = size_diff (index la0 nsidentype (nat (k + 1))) first;
          la = la0\<lparr>first_index := (first_index la0)(nsidentype := first),
                   count := (count la0)(nsidentype := cnt)\<rparr>
      in if cnt \<noteq> 0 then
           (case sc_array_index P ghost_layer la nsidentype first of
              None \<Rightarrow> Abort (fl_us s)
            | Some (ptr, q) \<Rightarrow>
                let sides = fi_sides (fa_info (fl_args s));
                    fside = sides ! n_side;
                    fside' = fside\<lparr>fs_hanging_quad := (fs_hanging_quad fside)[child_corner := Some ptr],
                                   fs_hanging_quadid := (fs_hanging_quadid fside)[child_corner := int first],
                                   fs_hanging_is_local := (fs_hanging_is_local fside)[child_corner := (n_type = 0)]\<rparr>
                in Ok (s\<lparr>fl_la := la,
                         fl_args := (fl_args s)\<lparr>fa_info := (fa_info (fl_args s))
                                       \<lparr>fi_sides := sides[n_side := fside']\<rparr>\<rparr>,
                         fl_has_local := (fl_has_local s \<or> n_type = 0)\<rparr>))
         else Ok (s\<lparr>fl_la := la\<rparr>))"

definition face_hanging_child ::
  "env \<Rightarrow> p4est \<Rightarrow> p4est_quadrant list \<Rightarrow> nat \<Rightarrow> nat \<Rightarrow> face_loop \<Rightarrow> face_loop outcome" where
  "face_hanging_child E P ghost_layer n_side i s =
     (let ntc_str = P4EST_CHILDREN E div 2;
          num_to_child = fa_num_to_child (fl_args s);
          child_corner = (if num_to_child ! (n_side * ntc_str + i)
                               < num_to_child ! (n_side * ntc_str + (1 - i)) then 0 else 1);
          sides = fi_sides (fa_info (fl_args s));
          fside = sides ! n_side;
          fside' = fside\<lparr>fs_hanging_quad := (fs_hanging_quad fside)[child_corner := None],
                         fs_hanging_quadid := (fs_hanging_quadid fside)[child_corner := - 1],
                         fs_hanging_is_local := (fs_hanging_is_local fside)[child_corner := False]\<rparr>;
          la = fl_la s;
          s1 = s\<lparr>fl_args := (fl_args s)\<lparr>fa_info := (fa_info (fl_args s))
                                \<lparr>fi_sides := sides[n_side := fside']\<rparr>\<rparr>,
                 fl_la := la\<lparr>quad_idx2 := (quad_idx2 la)(n_side :=
                             fl_level_idx2 s + int (P4EST_ITER_STRIDE E)
                             + num_to_child ! (n_side * ntc_str + i))\<rparr>\<rparr>
      in fold_outcome (face_hanging_slot E P ghost_layer n_side child_corner) [0, 1] s1)"

definition face_hanging ::
  "env \<Rightarrow> p4est \<Rightarrow> p4est_quadrant list \<Rightarrow> nat \<Rightarrow> face_loop \<Rightarrow> face_loop outcome" where
  "face_hanging E P ghost_layer side s =
     (let n_side = (if side = 0 then 1 else 0);
          sides = fi_sides (fa_info (fl_args s));
          s1 = s\<lparr>fl_args := (fl_args s)\<lparr>fa_info := (fa_info (fl_args s))
                    \<lparr>fi_sides := sides[n_side := (sides ! n_side)\<lparr>fs_is_hanging := True\<rparr>]\<rparr>\<rparr>\<rparr>
      in bind (fold_outcome (face_hanging_child E P ghost_layer n_side)
                 [0..<P4EST_CHILDREN E div 2] s1)
           (\<lambda>s2. Ok (if fl_has_local s2 then face_emit s2
                      else s2\<lparr>fl_la := bump_level_num (fl_la s2)\<rparr>)))"

text \<open>
  The body of the loop of \<^verbatim>\<open>p4est_face_iterate\<close> from its top to the label
  \<^verbatim>\<open>change_search_area\<close>, for the 2D build.  \<open>limit\<close> is the last side (0 at an
  outside face, 1 otherwise).
\<close>

definition face_body ::
  "env \<Rightarrow> p4est \<Rightarrow> p4est_quadrant list \<Rightarrow> bool \<Rightarrow> nat \<Rightarrow> face_loop \<Rightarrow> face_loop outcome" where
  "face_body E P ghost_layer iter_face limit s =
     bind (fold_outcome (load_test P ghost_layer (fl_us s)) [0..<2 * (limit + 1)] (fl_la s))
       (\<lambda>la1.
          let la2 = la1\<lparr>refine := (refine la1)(0 := True, 1 := True)\<rparr>;
              s1 = s\<lparr>fl_la := la2, fl_has_local := False\<rparr>
          in (case face_candidates iter_face
                     (concat (map (\<lambda>side. [(side, 0), (side, 1)]) [0..<limit + 1])) s1 of
                (True, s2) \<Rightarrow> Ok s2
              | (False, s2) \<Rightarrow>
                  bind (fold_outcome
                          (\<lambda>side la.
                             if refine la side then
                               fold_outcome
                                 (\<lambda>type. split_sidetype E P ghost_layer (fl_us s2)
                                            (fl_level_idx2 s2 + int (P4EST_ITER_STRIDE E))
                                            (side * 2 + type))
                                 [0, 1]
                                 (la\<lparr>quad_idx2 := (quad_idx2 la)(side :=
                                        fl_level_idx2 s2 + int (P4EST_ITER_STRIDE E))\<rparr>)
                             else Ok la)
                          [0..<limit + 1] (fl_la s2))
                    (\<lambda>la3.
                       let s3 = s2\<lparr>fl_la := la3\<rparr> in
                       (case filter (\<lambda>side. \<not> refine la3 side) [0..<limit + 1] of
                          side # rest \<Rightarrow> face_hanging E P ghost_layer side s3
                        | [] \<Rightarrow>
                            Ok (s3\<lparr>fl_la := descend la3,
                                   fl_level_idx2 := fl_level_idx2 s3 + int (P4EST_ITER_STRIDE E)\<rparr>)))))"

text \<open>
  The code at the label \<^verbatim>\<open>change_search_area\<close>, once: the search is complete
  (\<^verbatim>\<open>break\<close>), or the label is entered again, or control returns to the top of the
  loop with the search areas of the next branch.
\<close>

datatype jump = Break | To_change | To_top

definition face_no_local :: "nat \<Rightarrow> p4est_iter_loop_args \<Rightarrow> bool" where
  "face_no_local limit la = list_all (\<lambda>side. count la (side * 2) = 0) [0..<limit + 1]"

definition face_change ::
  "env \<Rightarrow> p4est \<Rightarrow> p4est_quadrant list \<Rightarrow> bool \<Rightarrow> int \<Rightarrow> nat \<Rightarrow> face_loop
     \<Rightarrow> (jump \<times> face_loop) outcome" where
  "face_change E P ghost_layer iter_corner start_level limit s =
     (let la = fl_la s; ntc_str = P4EST_CHILDREN E div 2 in
      if level_num la (nat start_level) > 0 then Ok (Break, s)
      else if level_num la (nat (level la)) = int ntc_str then
        bind
          (if iter_corner then
             bind (p4est_corner_iterate E P ghost_layer
                     (fa_corner_args (fl_args s),
                      p4est_iter_copy_indices E (ca_start_idx2 (fa_corner_args (fl_args s)))
                        (limit + 1) (ntc_str * (limit + 1)) la,
                      fl_us s))
               (\<lambda>(cargs, la', us').
                  Ok (s\<lparr>fl_args := (fl_args s)\<lparr>fa_corner_args := cargs\<rparr>,
                        fl_la := la', fl_us := us'\<rparr>))
           else Ok s)
          (\<lambda>s1. Ok (To_change,
                     s1\<lparr>fl_la := ascend (fl_la s1),
                        fl_level_idx2 := fl_level_idx2 s1 - int (P4EST_ITER_STRIDE E)\<rparr>))
      else
        let la1 = fold (\<lambda>side la.
                     la\<lparr>quad_idx2 := (quad_idx2 la)(side :=
                          fl_level_idx2 s
                          + fa_num_to_child (fl_args s)
                              ! (side * ntc_str + nat (level_num la (nat (level la)))))\<rparr>)
                   [0..<limit + 1] la;
            la2 = fold (\<lambda>side la. set_search_area side (quad_idx2 la side) la)
                   [0..<limit + 1] la1
        in if face_no_local limit la2
           then Ok (To_change, s\<lparr>fl_la := bump_level_num la2\<rparr>)
           else Ok (To_top, s\<lparr>fl_la := la2\<rparr>))"

text \<open>
  The loop, with a bound on the number of times control passes the top of the loop
  or the label.
\<close>

fun face_loop_run ::
  "nat \<Rightarrow> env \<Rightarrow> p4est \<Rightarrow> p4est_quadrant list \<Rightarrow> bool \<Rightarrow> bool \<Rightarrow> int \<Rightarrow> nat
     \<Rightarrow> jump \<Rightarrow> face_loop \<Rightarrow> face_loop outcome" where
  "face_loop_run 0 E P ghost_layer iter_face iter_corner start_level limit j s =
     Out_of_fuel (fl_us s)"
| "face_loop_run (Suc n) E P ghost_layer iter_face iter_corner start_level limit j s =
     (case j of
        Break \<Rightarrow> Ok s
      | To_top \<Rightarrow>
          bind (face_body E P ghost_layer iter_face limit s)
            (face_loop_run n E P ghost_layer iter_face iter_corner start_level limit To_change)
      | To_change \<Rightarrow>
          bind (face_change E P ghost_layer iter_corner start_level limit s)
            (\<lambda>(j', s'). face_loop_run n E P ghost_layer iter_face iter_corner start_level limit j' s'))"

text \<open>\<^verbatim>\<open>p4est_face_iterate\<close> (2D build).\<close>

definition p4est_face_iterate ::
  "nat \<Rightarrow> env \<Rightarrow> p4est \<Rightarrow> p4est_quadrant list \<Rightarrow> bool \<Rightarrow> bool
     \<Rightarrow> p4est_iter_face_args \<times> p4est_iter_loop_args \<times> event list
     \<Rightarrow> (p4est_iter_face_args \<times> p4est_iter_loop_args \<times> event list) outcome" where
  "p4est_face_iterate fuel E P ghost_layer iter_face iter_corner = (\<lambda>(args, la, us).
     let start_level = level la;
         limit = (if fa_outside_face args then 0 else 1);
         level_idx2 = start_level * int (P4EST_ITER_STRIDE E);
         la1 = fold (\<lambda>side la.
                  let k = level_idx2 + fa_start_idx2 args ! side
                  in set_search_area side k (la\<lparr>quad_idx2 := (quad_idx2 la)(side := k)\<rparr>))
                [0..<limit + 1] la
     in if face_no_local limit la1 then Ok (args, la1, us)
        else
          bind (face_loop_run fuel E P ghost_layer iter_face iter_corner start_level limit To_top
                  \<lparr>fl_args = args,
                   fl_la = la1\<lparr>level_num := (level_num la1)(nat start_level := 0)\<rparr>,
                   fl_us = us, fl_level_idx2 = level_idx2, fl_has_local = False\<rparr>)
            (\<lambda>s. Ok (fl_args s, fl_la s, fl_us s)))"

section \<open>The volume iterator\<close>

record p4est_iter_volume_args =
  va_start_idx2 :: int
  va_face_args :: "p4est_iter_face_args list list"
  va_corner_args :: p4est_iter_corner_args
  va_info :: p4est_iter_volume_info

definition empty_corner_args :: p4est_iter_corner_args where
  "empty_corner_args = \<lparr>ca_num_sides = 0, ca_start_idx2 = [], ca_info = \<lparr>ci_sides = []\<rparr>\<rparr>"

definition empty_face_args :: "env \<Rightarrow> p4est_iter_face_args" where
  "empty_face_args E =
     \<lparr>fa_start_idx2 = [0, 0], fa_num_to_child = replicate (P4EST_CHILDREN E) 0,
      fa_outside_face = False, fa_corner_args = empty_corner_args,
      fa_info = \<lparr>fi_orientation = 0, fi_sides = []\<rparr>\<rparr>"

text \<open>
  \<^verbatim>\<open>p4est_iter_init_face_from_volume\<close>: the face between two children of a quadrant
  of tree \<open>t\<close>, in direction \<open>dir\<close> at position \<open>pos\<close>.
\<close>

definition p4est_iter_init_face_from_volume ::
  "env \<Rightarrow> bool \<Rightarrow> int \<Rightarrow> nat \<Rightarrow> nat \<Rightarrow> p4est_iter_face_args" where
  "p4est_iter_init_face_from_volume E with_corners t dir pos =
     (let ntc_str = P4EST_CHILDREN E div 2;
          corners_of = (\<lambda>f. p4est_face_corners E (face_lookup_face E (int f)));
          num_to_child = concat (map (\<lambda>i. map (\<lambda>j. corners_of (dir * 2 + (1 - i)) (int j))
                                                [0..<ntc_str]) [0..<2]);
          sides = [new_face_side E t (2 * int dir + 1), new_face_side E t (2 * int dir)]
      in \<lparr>fa_start_idx2 = [corners_of (dir * 2) (int pos), corners_of (dir * 2 + 1) (int pos)],
          fa_num_to_child = num_to_child,
          fa_outside_face = False,
          fa_corner_args =
            (if with_corners
             then p4est_iter_init_corner_from_face E num_to_child False (map fs_treeid sides)
             else empty_corner_args),
          fa_info = \<lparr>fi_orientation = 0, fi_sides = sides\<rparr>\<rparr>)"

text \<open>\<^verbatim>\<open>p4est_iter_init_corner_from_volume\<close>.\<close>

definition p4est_iter_init_corner_from_volume :: "env \<Rightarrow> int \<Rightarrow> p4est_iter_corner_args" where
  "p4est_iter_init_corner_from_volume E t =
     \<lparr>ca_num_sides = int (P4EST_CHILDREN E),
      ca_start_idx2 = map int [0..<P4EST_CHILDREN E],
      ca_info = \<lparr>ci_sides = map (\<lambda>i. new_corner_side t (int (P4EST_CHILDREN E) - 1 - int i))
                                [0..<P4EST_CHILDREN E]\<rparr>\<rparr>"

text \<open>\<^verbatim>\<open>p4est_iter_init_volume\<close> (2D build).\<close>

definition p4est_iter_init_volume ::
  "env \<Rightarrow> p4est \<Rightarrow> nat list \<Rightarrow> p4est_iter_loop_args \<Rightarrow> int
     \<Rightarrow> p4est_iter_volume_args \<times> p4est_iter_loop_args" where
  "p4est_iter_init_volume E P ghost_offsets la t =
     (\<lparr>va_start_idx2 = 0,
       va_face_args = map (\<lambda>i. map (\<lambda>j. p4est_iter_init_face_from_volume E (loop_corner la) t i j)
                                    [0..<P4EST_CHILDREN E div 2]) [0..<P4EST_DIM E],
       va_corner_args = (if loop_corner la then p4est_iter_init_corner_from_volume E t
                         else empty_corner_args),
       va_info = \<lparr>vi_treeid = t, vi_quad = None, vi_quadid = 0\<rparr>\<rparr>,
      p4est_iter_init_loop_volume E P ghost_offsets t la)"

text \<open>
  \<^verbatim>\<open>p4est_volume_iterate_simple\<close>: the loop over the quadrants of one tree and the
  loop over the local trees.
\<close>

definition volume_simple_tree :: "p4est \<Rightarrow> int \<Rightarrow> event list \<Rightarrow> event list outcome" where
  "volume_simple_tree P t us =
     (if 0 \<le> t \<and> nat t < length (trees P) then
        Ok (fold (\<lambda>si us. us @ [Volume_event \<lparr>vi_treeid = t,
                                               vi_quad = Some (Tree_quadrants (nat t), si),
                                               vi_quadid = int si\<rparr>])
                 [0..<length (trees P ! nat t)] us)
      else Abort us)"

definition p4est_volume_iterate_simple :: "p4est \<Rightarrow> event list \<Rightarrow> event list outcome" where
  "p4est_volume_iterate_simple P us =
     fold_outcome (volume_simple_tree P) [first_local_tree P..last_local_tree P] us"

text \<open>The loops of \<^verbatim>\<open>p4est_volume_iterate\<close> (2D build).\<close>

record volume_loop =
  vl_args :: p4est_iter_volume_args
  vl_la :: p4est_iter_loop_args
  vl_us :: "event list"
  vl_level_idx2 :: int

text \<open>
  The first part of the loop body: per type, local first, the first quadrant of the
  search area is fetched; a quadrant at the current level ends the search of this
  branch, and a local one is passed to the volume callback.
\<close>

fun volume_tests ::
  "p4est \<Rightarrow> p4est_quadrant list \<Rightarrow> bool \<Rightarrow> nat list \<Rightarrow> volume_loop \<Rightarrow> (bool \<times> volume_loop) outcome" where
  "volume_tests P ghost_layer iter_volume [] s = Ok (False, s)"
| "volume_tests P ghost_layer iter_volume (type # rest) s =
     bind (load_test P ghost_layer (vl_us s) type (vl_la s))
       (\<lambda>la.
          if count la type \<noteq> 0 \<and> test_level la type = level la then
            (if type = 0 then
               let info = (va_info (vl_args s))\<lparr>vi_quad := test la type,
                                                 vi_quadid := int (first_index la type)\<rparr>
               in Ok (True,
                      s\<lparr>vl_args := (vl_args s)\<lparr>va_info := info\<rparr>,
                        vl_la := bump_level_num la,
                        vl_us := (if iter_volume then vl_us s @ [Volume_event info] else vl_us s)\<rparr>)
             else Ok (True, s\<lparr>vl_la := bump_level_num la\<rparr>))
          else volume_tests P ghost_layer iter_volume rest (s\<lparr>vl_la := la\<rparr>))"

definition volume_body ::
  "env \<Rightarrow> p4est \<Rightarrow> p4est_quadrant list \<Rightarrow> bool \<Rightarrow> volume_loop \<Rightarrow> volume_loop outcome" where
  "volume_body E P ghost_layer iter_volume s =
     bind (volume_tests P ghost_layer iter_volume [0, 1] s)
       (\<lambda>(jumped, s1).
          if jumped then Ok s1
          else
            bind (fold_outcome
                    (split_sidetype E P ghost_layer (vl_us s1)
                       (vl_level_idx2 s1 + int (P4EST_ITER_STRIDE E)))
                    [0, 1] (vl_la s1))
              (\<lambda>la. Ok (s1\<lparr>vl_la := descend la,
                            vl_level_idx2 := vl_level_idx2 s1 + int (P4EST_ITER_STRIDE E)\<rparr>)))"

text \<open>
  After all children of a branch: the face iterator for every direction and
  position, with the bounds of the volume search copied to the second side.
\<close>

definition volume_face ::
  "nat \<Rightarrow> env \<Rightarrow> p4est \<Rightarrow> p4est_quadrant list \<Rightarrow> bool \<Rightarrow> bool \<Rightarrow> nat \<times> nat
     \<Rightarrow> volume_loop \<Rightarrow> volume_loop outcome" where
  "volume_face fuel E P ghost_layer iter_face iter_corner = (\<lambda>(dir, side) s.
     let fargs = va_face_args (vl_args s) ! dir ! side in
     bind (p4est_face_iterate fuel E P ghost_layer iter_face iter_corner
             (fargs, p4est_iter_copy_indices E (fa_start_idx2 fargs) 1 2 (vl_la s), vl_us s))
       (\<lambda>(fargs', la', us').
          Ok (s\<lparr>vl_args := (vl_args s)\<lparr>va_face_args :=
                   (va_face_args (vl_args s))[dir := (va_face_args (vl_args s) ! dir)[side := fargs']]\<rparr>,
                vl_la := la', vl_us := us'\<rparr>)))"

definition volume_change ::
  "nat \<Rightarrow> env \<Rightarrow> p4est \<Rightarrow> p4est_quadrant list \<Rightarrow> bool \<Rightarrow> bool \<Rightarrow> int \<Rightarrow> volume_loop
     \<Rightarrow> (jump \<times> volume_loop) outcome" where
  "volume_change fuel E P ghost_layer iter_face iter_corner start_level s =
     (let la = vl_la s in
      if level_num la (nat start_level) > 0 then Ok (Break, s)
      else if level_num la (nat (level la)) = int (P4EST_CHILDREN E) then
        bind (fold_outcome (volume_face fuel E P ghost_layer iter_face iter_corner)
                (concat (map (\<lambda>dir. map (\<lambda>side. (dir, side)) [0..<P4EST_CHILDREN E div 2])
                             [0..<P4EST_DIM E])) s)
          (\<lambda>s1.
             bind
               (if loop_corner (vl_la s1) then
                  bind (p4est_corner_iterate E P ghost_layer
                          (va_corner_args (vl_args s1),
                           p4est_iter_copy_indices E (ca_start_idx2 (va_corner_args (vl_args s1)))
                             1 (P4EST_CHILDREN E) (vl_la s1),
                           vl_us s1))
                    (\<lambda>(cargs, la', us').
                       Ok (s1\<lparr>vl_args := (vl_args s1)\<lparr>va_corner_args := cargs\<rparr>,
                              vl_la := la', vl_us := us'\<rparr>))
                else Ok s1)
               (\<lambda>s2. Ok (To_change,
                          s2\<lparr>vl_la := ascend (vl_la s2),
                             vl_level_idx2 := vl_level_idx2 s2 - int (P4EST_ITER_STRIDE E)\<rparr>)))
      else
        let la1 = set_search_area 0 (vl_level_idx2 s + level_num la (nat (level la))) la
        in if count la1 0 = 0 then Ok (To_change, s\<lparr>vl_la := bump_level_num la1\<rparr>)
           else Ok (To_top, s\<lparr>vl_la := la1\<rparr>))"

fun volume_loop_run ::
  "nat \<Rightarrow> env \<Rightarrow> p4est \<Rightarrow> p4est_quadrant list \<Rightarrow> bool \<Rightarrow> bool \<Rightarrow> bool \<Rightarrow> int
     \<Rightarrow> jump \<Rightarrow> volume_loop \<Rightarrow> volume_loop outcome" where
  "volume_loop_run 0 E P ghost_layer iter_volume iter_face iter_corner start_level j s =
     Out_of_fuel (vl_us s)"
| "volume_loop_run (Suc n) E P ghost_layer iter_volume iter_face iter_corner start_level j s =
     (case j of
        Break \<Rightarrow> Ok s
      | To_top \<Rightarrow>
          bind (volume_body E P ghost_layer iter_volume s)
            (volume_loop_run n E P ghost_layer iter_volume iter_face iter_corner start_level
               To_change)
      | To_change \<Rightarrow>
          bind (volume_change n E P ghost_layer iter_face iter_corner start_level s)
            (\<lambda>(j', s'). volume_loop_run n E P ghost_layer iter_volume iter_face iter_corner
                           start_level j' s'))"

text \<open>\<^verbatim>\<open>p4est_volume_iterate\<close> (2D build).\<close>

definition p4est_volume_iterate ::
  "nat \<Rightarrow> env \<Rightarrow> p4est \<Rightarrow> p4est_quadrant list \<Rightarrow> bool \<Rightarrow> bool \<Rightarrow> bool
     \<Rightarrow> p4est_iter_volume_args \<times> p4est_iter_loop_args \<times> event list
     \<Rightarrow> (p4est_iter_volume_args \<times> p4est_iter_loop_args \<times> event list) outcome" where
  "p4est_volume_iterate fuel E P ghost_layer iter_volume iter_face iter_corner = (\<lambda>(args, la, us).
     let start_level = level la;
         level_idx2 = start_level * int (P4EST_ITER_STRIDE E);
         la1 = set_search_area 0 (level_idx2 + va_start_idx2 args) la
     in if count la1 0 = 0 then Ok (args, la1, us)
        else
          bind (volume_loop_run fuel E P ghost_layer iter_volume iter_face iter_corner start_level
                  To_top
                  \<lparr>vl_args = args,
                   vl_la = la1\<lparr>level_num := (level_num la1)(nat start_level := 0)\<rparr>,
                   vl_us = us, vl_level_idx2 = level_idx2\<rparr>)
            (\<lambda>s. Ok (vl_args s, vl_la s, vl_us s)))"

section \<open>The top-level driver\<close>

text \<open>
  The faces and the corners of one tree that lie between trees: each is set up by
  its init function, which decides whether this tree runs the iterator for it.
\<close>

definition iterate_tree_face ::
  "nat \<Rightarrow> env \<Rightarrow> p4est \<Rightarrow> p4est_quadrant list \<Rightarrow> nat list \<Rightarrow> bool \<Rightarrow> bool \<Rightarrow> int \<Rightarrow> nat
     \<Rightarrow> p4est_iter_face_args \<times> p4est_iter_loop_args \<times> event list
     \<Rightarrow> (p4est_iter_face_args \<times> p4est_iter_loop_args \<times> event list) outcome" where
  "iterate_tree_face fuel E P ghost_layer ghost_offsets iter_face iter_corner t i =
     (\<lambda>(face_args, la, us).
        case p4est_iter_init_face E P ghost_offsets la face_args t (int i) of
          (run_iter, args, la') \<Rightarrow>
            if run_iter
            then p4est_face_iterate fuel E P ghost_layer iter_face iter_corner (args, la', us)
            else Ok (args, la', us))"

definition iterate_tree_corner ::
  "env \<Rightarrow> p4est \<Rightarrow> p4est_quadrant list \<Rightarrow> nat list \<Rightarrow> int \<Rightarrow> nat
     \<Rightarrow> p4est_iter_face_args \<times> p4est_iter_loop_args \<times> event list
     \<Rightarrow> (p4est_iter_face_args \<times> p4est_iter_loop_args \<times> event list) outcome" where
  "iterate_tree_corner E P ghost_layer ghost_offsets t i =
     (\<lambda>(face_args, la, us).
        case p4est_iter_init_corner E P ghost_offsets la t (int i) of
          (run_iter, args, la') \<Rightarrow>
            if run_iter
            then bind (p4est_corner_iterate E P ghost_layer (args, la', us))
                   (\<lambda>(args', la'', us'). Ok (face_args, la'', us'))
            else Ok (face_args, la', us))"

definition iterate_tree ::
  "nat \<Rightarrow> env \<Rightarrow> p4est \<Rightarrow> p4est_quadrant list \<Rightarrow> nat list \<Rightarrow> bool \<Rightarrow> bool \<Rightarrow> bool \<Rightarrow> nat
     \<Rightarrow> p4est_iter_face_args \<times> p4est_iter_loop_args \<times> event list
     \<Rightarrow> (p4est_iter_face_args \<times> p4est_iter_loop_args \<times> event list) outcome" where
  "iterate_tree fuel E P ghost_layer ghost_offsets iter_volume iter_face iter_corner t =
     (\<lambda>(face_args, la, us).
        case p4est_iter_init_volume E P ghost_offsets la (int t) of
          (args, la1) \<Rightarrow>
            bind (p4est_volume_iterate fuel E P ghost_layer iter_volume iter_face iter_corner
                    (args, la1, us))
              (\<lambda>(args', la2, us2).
                 bind (fold_outcome
                         (iterate_tree_face fuel E P ghost_layer ghost_offsets iter_face iter_corner
                            (int t))
                         [0..<2 * P4EST_DIM E] (face_args, la2, us2))
                   (\<lambda>(face_args', la3, us3).
                      if loop_corner la3 then
                        fold_outcome (iterate_tree_corner E P ghost_layer ghost_offsets (int t))
                          [0..<P4EST_CHILDREN E] (face_args', la3, us3)
                      else Ok (face_args', la3, us3))))"

text \<open>
  \<^verbatim>\<open>p4est_iterate\<close>.  The result is the sequence of callback invocations.  The general
  path is that of the 2D build; \<open>iter_edge\<close> exists in the 3D build only, where it
  takes part in the test for the simple loop.  \<open>fuel\<close> bounds the passes of each
  search loop.
\<close>

definition p4est_iterate ::
  "nat \<Rightarrow> env \<Rightarrow> p4est \<Rightarrow> p4est_quadrant list option \<Rightarrow> bool \<Rightarrow> bool \<Rightarrow> bool \<Rightarrow> bool
     \<Rightarrow> event list outcome" where
  "p4est_iterate fuel E P Ghost_layer iter_volume iter_face iter_edge iter_corner =
     (let ghost_layer = (case Ghost_layer of None \<Rightarrow> [] | Some g \<Rightarrow> g) in
      if first_local_tree P < 0 then Ok []
      else if \<not> iter_face \<and> \<not> iter_corner \<and> (if P4_TO_P8 E then \<not> iter_edge else True) then
        (if \<not> iter_volume then Ok [] else p4est_volume_iterate_simple P [])
      else
        let la = p4est_iter_loop_args_new E (connectivity P) iter_edge iter_corner (mpisize P);
            global_num_trees = length (trees P);
            tree_first_ghost = p4est_split_ghost_layer_by_tree ghost_layer global_num_trees
        in bind (fold_outcome
                   (iterate_tree fuel E P ghost_layer tree_first_ghost
                      iter_volume iter_face iter_corner)
                   [0..<global_num_trees] (empty_face_args E, la, []))
             (\<lambda>(face_args, la', us). Ok us))"

section \<open>The hanging code of p6est\<close>

text \<open>
  \<^verbatim>\<open>p6est_lnodes_decode\<close> (\<^verbatim>\<open>p6est_lnodes.h\<close>).  The code is an \<^verbatim>\<open>int16_t\<close>.  The two
  output arrays are passed in and returned; the first component is the return value.
  \<^verbatim>\<open>p4est_lnodes_decode\<close> (it rewrites the first four faces) and the table
  \<^verbatim>\<open>p8est_face_edges\<close> are defined outside the sources and are parameters.
\<close>

definition p6est_decode_face ::
  "(nat \<Rightarrow> nat \<Rightarrow> nat) \<Rightarrow> int \<Rightarrow> int \<Rightarrow> nat
     \<Rightarrow> int list \<times> int list \<times> 16 word \<Rightarrow> int list \<times> int list \<times> 16 word" where
  "p6est_decode_face p8est_face_edges h h2 f = (\<lambda>(hanging_face, hanging_edge, work).
     let hf = hanging_face ! f;
         hanging_edge1 =
           (if hf \<ge> 0 then
              hanging_edge[p8est_face_edges f 0 := 2 + hf,
                           p8est_face_edges f 1 := 2 + hf,
                           p8est_face_edges f (nat (3 XOR hf)) := 4]
            else hanging_edge);
         hanging_edge2 =
           (if work AND 0x0001 \<noteq> 0 then
              hanging_edge1[p8est_face_edges f (nat (1 XOR h)) := 4,
                            p8est_face_edges f 2 := 2 + h,
                            p8est_face_edges f 3 := 2 + h]
            else hanging_edge1);
         hanging_face2 =
           (if work AND 0x0001 \<noteq> 0 \<and> hanging_face ! f \<ge> 0
            then hanging_face[f := hanging_face ! f + h2] else hanging_face)
     in (hanging_face2, hanging_edge2, signed_drop_bit 1 work))"

definition p6est_decode_edge ::
  "int \<Rightarrow> nat \<Rightarrow> int list \<times> 16 word \<Rightarrow> int list \<times> 16 word" where
  "p6est_decode_edge h e = (\<lambda>(hanging_edge, work).
     ((if work AND 0x0001 \<noteq> 0 \<and> hanging_edge ! (8 + e) < 0
       then hanging_edge[8 + e := h] else hanging_edge),
      signed_drop_bit 1 work))"

definition p6est_lnodes_decode ::
  "(8 word \<Rightarrow> int list \<Rightarrow> int list) \<Rightarrow> (nat \<Rightarrow> nat \<Rightarrow> nat) \<Rightarrow> 16 word
     \<Rightarrow> int list \<Rightarrow> int list \<Rightarrow> int \<times> int list \<times> int list" where
  "p6est_lnodes_decode p4est_lnodes_decode p8est_face_edges face_code hanging_face hanging_edge =
     (if face_code \<noteq> 0 then
        let fc4 = (ucast (face_code AND 0x000f) :: 8 word);
            h = sint (signed_drop_bit 4 (face_code AND 0x0010));
            h2 = 2 * h;
            work = signed_drop_bit 5 face_code;
            hanging_face0 = replicate 6 (- 1);
            hanging_edge0 = replicate 12 (- 1);
            hanging_face1 = p4est_lnodes_decode fc4 (take 4 hanging_face0) @ drop 4 hanging_face0;
            (hanging_face2, hanging_edge2, work2) =
               fold (p6est_decode_face p8est_face_edges h h2) [0..<4]
                    (hanging_face1, hanging_edge0, work);
            (hanging_edge3, work3) = fold (p6est_decode_edge h) [0..<4] (hanging_edge2, work2)
        in (1, hanging_face2, hanging_edge3)
      else (0, hanging_face, hanging_edge))"

text \<open>
  An instance of the parameters for evaluation: the face-to-edge table of a hexahedron
  in z-order and a face decoder that leaves its array as it is.
\<close>

definition face_edges_zorder :: "nat \<Rightarrow> nat \<Rightarrow> nat" where
  "face_edges_zorder f i =
     [[4, 6, 8, 10], [5, 7, 9, 11], [0, 2, 8, 9], [1, 3, 10, 11], [0, 1, 4, 5], [2, 3, 6, 7]] ! f ! i"

section \<open>Notions used in the statements\<close>

text \<open>
  The volume callbacks of a forest in the order of its storage: tree by tree, and
  within a tree quadrant by quadrant.
\<close>

definition tree_visits :: "p4est \<Rightarrow> nat \<Rightarrow> event list" where
  "tree_visits P t =
     map (\<lambda>si. Volume_event \<lparr>vi_treeid = int t, vi_quad = Some (Tree_quadrants t, si),
                              vi_quadid = int si\<rparr>)
         [0..<length (trees P ! t)]"

definition forest_visits :: "p4est \<Rightarrow> event list" where
  "forest_visits P = concat (map (tree_visits P) [0..<length (trees P)])"

text \<open>
  Modelled from the spec: \<^verbatim>\<open>p4est_is_valid\<close>, asserted on entry of \<^verbatim>\<open>p4est_iterate\<close>, is
  not among the sources.  Of a valid forest the statements need that "each process
  owns a contiguous slice of leaf cells": the trees outside the range of local trees
  hold no quadrants, the range lies within the forest, and a process without
  quadrants has a negative first local tree.
\<close>

definition local_trees_ok :: "p4est \<Rightarrow> bool" where
  "local_trees_ok P \<longleftrightarrow>
     (if first_local_tree P < 0 then list_all (\<lambda>tr. tr = []) (trees P)
      else last_local_tree P < int (length (trees P))
           \<and> list_all (\<lambda>t. first_local_tree P \<le> int t \<and> int t \<le> last_local_tree P
                            \<or> trees P ! t = [])
                [0..<length (trees P)])"

text \<open>The callbacks invoked by a run, whatever its outcome.\<close>

definition outcome_events :: "('a \<times> 'b \<times> event list) outcome \<Rightarrow> event list" where
  "outcome_events r = (case r of Ok (a, la, us) \<Rightarrow> us | Abort us \<Rightarrow> us | Out_of_fuel us \<Rightarrow> us)"

text \<open>A run that stops early has invoked no more callbacks than \<open>us\<close>.\<close>

definition stops_with :: "event list \<Rightarrow> 'a outcome \<Rightarrow> bool" where
  "stops_with us r \<longleftrightarrow> (case r of Ok a \<Rightarrow> True | Abort t \<Rightarrow> t = us | Out_of_fuel t \<Rightarrow> t = us)"

text \<open>A side of a corner contributes a locally owned quadrant.\<close>

definition corner_side_local :: "p4est_iter_corner_side \<Rightarrow> bool" where
  "corner_side_local s \<longleftrightarrow> cs_is_local s \<and> cs_quad s \<noteq> None"

text \<open>
  The lexicographic order on pairs (tree id, local entity index), and the pairs of
  the sides that an init function enumerates through the connectivity for the face,
  edge or corner of a tree.
\<close>

definition pair_le :: "int \<times> int \<Rightarrow> int \<times> int \<Rightarrow> bool" where
  "pair_le p q \<longleftrightarrow> fst p < fst q \<or> (fst p = fst q \<and> snd p \<le> snd q)"

definition face_pairs ::
  "env \<Rightarrow> p4est \<Rightarrow> nat list \<Rightarrow> p4est_iter_loop_args \<Rightarrow> p4est_iter_face_args \<Rightarrow> int \<Rightarrow> int
     \<Rightarrow> (int \<times> int) list" where
  "face_pairs E P offs la a0 t f =
     map (\<lambda>s. (fs_treeid s, fs_face s))
       (fi_sides (fa_info (fst (snd (p4est_iter_init_face E P offs la a0 t f)))))"

definition edge_pairs ::
  "env \<Rightarrow> p4est \<Rightarrow> nat list \<Rightarrow> p4est_iter_loop_args \<Rightarrow> p8est_iter_edge_args \<Rightarrow> int \<Rightarrow> int
     \<Rightarrow> (int \<times> int) list" where
  "edge_pairs E P offs la a0 t e =
     map (\<lambda>s. (es_treeid s, es_edge s))
       (ea_sides (fst (snd (p8est_iter_init_edge E P offs la a0 t e))))"

definition corner_pairs ::
  "env \<Rightarrow> p4est \<Rightarrow> nat list \<Rightarrow> p4est_iter_loop_args \<Rightarrow> int \<Rightarrow> int \<Rightarrow> (int \<times> int) list" where
  "corner_pairs E P offs la t c =
     map (\<lambda>s. (cs_treeid s, cs_corner s))
       (ci_sides (ca_info (fst (snd (p4est_iter_init_corner E P offs la t c)))))"

text \<open>
  What a run reports about the ghost layer.  A quadrant pointer handed to a callback
  is local when its \<^verbatim>\<open>is_local\<close> flag is set and it points into the quadrants of a
  tree; \<^verbatim>\<open>NULL\<close> reports no quadrant.  A side of a corner or of a face reports no
  ghost when this holds for its quadrant, for the full part and for every hanging
  slot; the quadrant of a volume callback has no flag.
\<close>

definition local_ptr :: "qptr option \<Rightarrow> bool \<Rightarrow> bool" where
  "local_ptr quad is_local =
     (case quad of None \<Rightarrow> True | Some ptr \<Rightarrow> is_local \<and> fst ptr \<noteq> Ghost_quadrants)"

definition corner_side_not_ghost :: "p4est_iter_corner_side \<Rightarrow> bool" where
  "corner_side_not_ghost s = local_ptr (cs_quad s) (cs_is_local s)"

definition face_side_not_ghost :: "p4est_iter_face_side \<Rightarrow> bool" where
  "face_side_not_ghost s \<longleftrightarrow>
     local_ptr (fs_full_quad s) (fs_full_is_local s)
     \<and> list_all2 local_ptr (fs_hanging_quad s) (fs_hanging_is_local s)"




text \<open>
  The invariants with which this is proved.  In the loop arguments every array of
  odd position is the ghost layer or not set, no ghost candidate is held, and
  every candidate points into a tree; the side records of the arguments of the
  iterators report no ghost; the face arguments of a volume come as a table of
  \<^verbatim>\<open>P4EST_DIM\<close> rows of \<^verbatim>\<open>P4EST_CHILDREN / 2\<close> entries.  \<open>outcome_all\<close> lifts a property
  of the state and a property of the callbacks to an outcome.
\<close>

definition ghost_free_la :: "p4est_iter_loop_args \<Rightarrow> bool" where
  "ghost_free_la la \<longleftrightarrow>
     (\<forall>st. odd st \<longrightarrow> (quadrants la st = None \<or> quadrants la st = Some Ghost_quadrants)
                       \<and> test la st = None)
     \<and> (\<forall>st. local_ptr (test la st) True)"

definition outcome_all :: "('a \<Rightarrow> bool) \<Rightarrow> (event list \<Rightarrow> bool) \<Rightarrow> 'a outcome \<Rightarrow> bool" where
  "outcome_all Q T r = (case r of Ok a \<Rightarrow> Q a | Abort us \<Rightarrow> T us | Out_of_fuel us \<Rightarrow> T us)"

definition corner_args_ok :: "p4est_iter_corner_args \<Rightarrow> bool" where
  "corner_args_ok args = list_all corner_side_not_ghost (ci_sides (ca_info args))"

definition face_args_ok :: "p4est_iter_face_args \<Rightarrow> bool" where
  "face_args_ok args \<longleftrightarrow>
     list_all face_side_not_ghost (fi_sides (fa_info args)) \<and> corner_args_ok (fa_corner_args args)"








text \<open>The rings after a sequence of requests has been served.\<close>

fun tier_rings_after ::
  "env \<Rightarrow> p4est_iter_tier_ring list \<Rightarrow> tier_request list \<Rightarrow> p4est_iter_tier_ring list" where
  "tier_rings_after E rings [] = rings"
| "tier_rings_after E rings ((view, lev, shift, q) # rest) =
     tier_rings_after E (fst (snd (p4est_iter_tier_insert E view lev shift rings q))) rest"

text \<open>
  The words of the contract of the tier cache.  A ring holds a key when one of its
  tiers is stored under it; the memoized offsets of a key are those of the first
  such tier.  Storing a key overwrites the tier at \<^verbatim>\<open>ring->next\<close>, the one written
  longest ago, and advances \<^verbatim>\<open>next\<close> cyclically.
\<close>

definition ring_holds :: "p4est_iter_tier_ring list \<Rightarrow> int \<Rightarrow> qptr \<Rightarrow> bool" where
  "ring_holds rings lev k \<longleftrightarrow>
     lev < int (length rings)
     \<and> Some k \<in> set (map tier_key (ring_tiers (rings ! nat lev)))"

definition ring_memo :: "p4est_iter_tier_ring list \<Rightarrow> int \<Rightarrow> qptr \<Rightarrow> nat list" where
  "ring_memo rings lev k =
     (case find (\<lambda>t. tier_key t = Some k) (ring_tiers (rings ! nat lev)) of
        Some t \<Rightarrow> tier_array t
      | None \<Rightarrow> [])"

definition ring_store ::
  "p4est_iter_tier_ring list \<Rightarrow> int \<Rightarrow> qptr \<Rightarrow> nat list \<Rightarrow> p4est_iter_tier_ring list" where
  "ring_store rings lev k offsets =
     (let ring = rings ! nat lev in
      rings[nat lev := ring
        \<lparr>ring_tiers := (ring_tiers ring)[nat (ring_next ring) :=
                          \<lparr>tier_key = Some k, tier_array = offsets\<rparr>],
         ring_next := (ring_next ring + 1) mod int (length (ring_tiers ring))\<rparr>])"

text \<open>
  The shape of a ring that serves requests from the fresh state: \<^verbatim>\<open>next\<close> lies within
  the ring, no key is stored twice, and either every tier has a key or the tiers
  without a key are exactly those from \<^verbatim>\<open>next\<close> on.
\<close>

definition ring_inv :: "p4est_iter_tier_ring \<Rightarrow> bool" where
  "ring_inv ring \<longleftrightarrow>
     0 \<le> ring_next ring \<and> nat (ring_next ring) < length (ring_tiers ring)
     \<and> (\<forall>i < length (ring_tiers ring). \<forall>j < length (ring_tiers ring).
          tier_key (ring_tiers ring ! i) = tier_key (ring_tiers ring ! j)
          \<and> tier_key (ring_tiers ring ! i) \<noteq> None \<longrightarrow> i = j)
     \<and> ((\<forall>i < length (ring_tiers ring). tier_key (ring_tiers ring ! i) \<noteq> None)
        \<or> (\<forall>i < length (ring_tiers ring).
              tier_key (ring_tiers ring ! i) = None \<longleftrightarrow> nat (ring_next ring) \<le> i))"

text \<open>
  The kinds of entity between trees, and the pairs that touch an entity as the
  connectivity gives them.  Across a face the neighbouring tree and its face are
  entries of \<^verbatim>\<open>tree_to_tree\<close> and \<^verbatim>\<open>tree_to_face\<close>; a tree that is its own neighbour
  across the same face lies on the domain boundary there.  Around an edge and a
  corner the pairs are those found by the lookups of the connectivity: across the
  faces at the entity, across the edges at a corner (3D), and across the entity
  itself.
\<close>

datatype entity_kind = Face_entity | Edge_entity | Corner_entity

definition touching_face :: "env \<Rightarrow> p4est_connectivity \<Rightarrow> int \<times> int \<Rightarrow> (int \<times> int) set" where
  "touching_face E conn = (\<lambda>(t, f).
     let d = int (2 * P4EST_DIM E);
         rf = (if P4_TO_P8 E then f else p4est_zface_to_rface E f);
         nt = tree_to_tree conn ! nat (d * t + rf);
         nrf = tree_to_face conn ! nat (d * t + rf)
     in if nt = t \<and> nrf = rf then {(t, f)}
        else {(t, f),
              (nt, if P4_TO_P8 E then nrf mod d else p4est_rface_to_zface E (nrf mod d))})"

definition touching_edge :: "env \<Rightarrow> p4est_connectivity \<Rightarrow> int \<times> int \<Rightarrow> (int \<times> int) set" where
  "touching_edge E conn = (\<lambda>(t, e).
     let c0 = p8est_edge_corners E e 0;
         c1 = p8est_edge_corners E e 1;
         tempr = p4est_quadrant_sibling E first_child c1;
         orig = p4est_quadrant_sibling E (tempr\<lparr>qlevel := qlevel tempr + 1\<rparr>) c0;
         edge_of = (\<lambda>q. p8est_child_corner_edges E (p4est_quadrant_child_id E q)
                           (p4est_quadrant_child_id E (p4est_quadrant_parent E q)))
     in {(t, e)}
        \<union> (\<Union>i \<in> {0..<2}.
              case p4est_quadrant_face_neighbor_extra E conn orig t (p8est_edge_faces E e (int i)) of
                (nt, q) \<Rightarrow> if nt = - 1 then {} else {(nt, edge_of q)})
        \<union> (\<lambda>(q, nt). (nt, edge_of q)) ` set (p8est_quadrant_edge_neighbor_extra E conn orig t e))"

definition touching_corner :: "env \<Rightarrow> p4est_connectivity \<Rightarrow> int \<times> int \<Rightarrow> (int \<times> int) set" where
  "touching_corner E conn = (\<lambda>(t, c).
     let orig = p4est_quadrant_sibling E first_child c in
     {(t, c)}
     \<union> (\<Union>i \<in> {0..<P4EST_DIM E}.
           case p4est_quadrant_face_neighbor_extra E conn orig t (p4est_corner_faces E c (int i)) of
             (nt, q) \<Rightarrow> if nt = - 1 then {} else {(nt, p4est_quadrant_child_id E q)})
     \<union> (if P4_TO_P8 E then
          (\<Union>i \<in> {0..<3}.
             (\<lambda>(q, nt). (nt, p4est_quadrant_child_id E q))
               ` set (p8est_quadrant_edge_neighbor_extra E conn orig t (p8est_corner_edges E c (int i))))
        else {})
     \<union> (\<lambda>(q, nt). (nt, p4est_quadrant_child_id E q))
         ` set (p4est_quadrant_corner_neighbor_extra E conn orig t c))"

definition touching ::
  "env \<Rightarrow> p4est_connectivity \<Rightarrow> entity_kind \<Rightarrow> int \<times> int \<Rightarrow> (int \<times> int) set" where
  "touching E conn kind p =
     (case kind of
        Face_entity \<Rightarrow> touching_face E conn p
      | Edge_entity \<Rightarrow> touching_edge E conn p
      | Corner_entity \<Rightarrow> touching_corner E conn p)"

text \<open>
  The face lookup \<^verbatim>\<open>p4est_quadrant_face_neighbor_extra\<close> is a parameter.  For the
  quadrants at a face of a tree it is expected to answer with the entry of
  \<^verbatim>\<open>tree_to_tree\<close>, and with \<open>-1\<close> on the domain boundary.
\<close>

definition face_lookup_ok :: "env \<Rightarrow> p4est_connectivity \<Rightarrow> int \<times> int \<Rightarrow> bool" where
  "face_lookup_ok E conn = (\<lambda>(t, f).
     let d = int (2 * P4EST_DIM E);
         rf = (if P4_TO_P8 E then f else p4est_zface_to_rface E f);
         nt = tree_to_tree conn ! nat (d * t + rf);
         nrf = tree_to_face conn ! nat (d * t + rf)
     in nt \<noteq> - 1
        \<and> list_all (\<lambda>i. fst (p4est_quadrant_face_neighbor_extra E conn
                                  (p4est_quadrant_sibling E first_child
                                     (p4est_face_corners E rf (int i))) t rf)
                         = (if nt = t \<and> nrf = rf then - 1 else nt))
             [0..<P4EST_CHILDREN E div 2])"

definition lookup_ok :: "env \<Rightarrow> p4est_connectivity \<Rightarrow> entity_kind \<Rightarrow> int \<times> int \<Rightarrow> bool" where
  "lookup_ok E conn kind p =
     (case kind of Face_entity \<Rightarrow> face_lookup_ok E conn p | Edge_entity \<Rightarrow> True
      | Corner_entity \<Rightarrow> True)"

text \<open>
  An entity is well formed when all the pairs touching it see the same pairs, as in
  a valid connectivity.
\<close>

definition entity_ok :: "env \<Rightarrow> p4est_connectivity \<Rightarrow> entity_kind \<Rightarrow> int \<times> int \<Rightarrow> bool" where
  "entity_ok E conn kind p \<longleftrightarrow>
     (\<forall>q \<in> touching E conn kind p.
        touching E conn kind q = touching E conn kind p \<and> lookup_ok E conn kind q)"

text \<open>
  The decision and the side pairs of the init function of each kind, for the pair
  it is called with.
\<close>

definition init_accepts ::
  "env \<Rightarrow> p4est \<Rightarrow> nat list \<Rightarrow> p4est_iter_loop_args \<Rightarrow> p4est_iter_face_args
     \<Rightarrow> p8est_iter_edge_args \<Rightarrow> entity_kind \<Rightarrow> int \<times> int \<Rightarrow> bool" where
  "init_accepts E P offs la fa0 ea0 kind p =
     (case kind of
        Face_entity \<Rightarrow> fst (p4est_iter_init_face E P offs la fa0 (fst p) (snd p))
      | Edge_entity \<Rightarrow> fst (p8est_iter_init_edge E P offs la ea0 (fst p) (snd p))
      | Corner_entity \<Rightarrow> fst (p4est_iter_init_corner E P offs la (fst p) (snd p)))"

definition init_pairs ::
  "env \<Rightarrow> p4est \<Rightarrow> nat list \<Rightarrow> p4est_iter_loop_args \<Rightarrow> p4est_iter_face_args
     \<Rightarrow> p8est_iter_edge_args \<Rightarrow> entity_kind \<Rightarrow> int \<times> int \<Rightarrow> (int \<times> int) list" where
  "init_pairs E P offs la fa0 ea0 kind p =
     (case kind of
        Face_entity \<Rightarrow> face_pairs E P offs la fa0 (fst p) (snd p)
      | Edge_entity \<Rightarrow> edge_pairs E P offs la ea0 (fst p) (snd p)
      | Corner_entity \<Rightarrow> corner_pairs E P offs la (fst p) (snd p))"

section \<open>An instance of the parameters\<close>

text \<open>
  For evaluation on concrete forests the parameters need values.  The following
  instance is the 2D build with faces and corners in z-order.
  Modelled from the spec: the quadrant functions (\<^verbatim>\<open>p4est_bits.c\<close>),
  \<^verbatim>\<open>p4est_split_array\<close> (\<^verbatim>\<open>p4est_algorithms.c\<close>) and the connectivity lookups are not
  among the sources.  A quadrant is addressed by anchor coordinate and level and
  ordered along the space-filling curve; splitting a range yields the \<open>2^d + 1\<close>
  boundary offsets of its bisection by ancestor-child id at the depth; a face lookup
  gives the neighbouring tree, or \<open>-1\<close> at the domain boundary.  Neighbouring trees
  are joined by translation only, and trees meet across faces only.
\<close>

definition quadrant_len_2d :: "int \<Rightarrow> int" where
  "quadrant_len_2d l = 2 ^ (30 - nat l)"

definition ancestor_id_2d :: "p4est_quadrant \<Rightarrow> int \<Rightarrow> int" where
  "ancestor_id_2d q l =
     (qx q div quadrant_len_2d l) mod 2 + 2 * ((qy q div quadrant_len_2d l) mod 2)"

definition split_array_2d :: "p4est_quadrant list \<Rightarrow> int \<Rightarrow> nat list" where
  "split_array_2d view lev =
     map (\<lambda>i. length (filter (\<lambda>q. ancestor_id_2d q (lev + 1) < int i) view)) [0..<5]"

definition quadrant_sibling_2d :: "p4est_quadrant \<Rightarrow> int \<Rightarrow> p4est_quadrant" where
  "quadrant_sibling_2d q c =
     (let len = quadrant_len_2d (qlevel q) in
      q\<lparr>qx := (qx q div (2 * len)) * (2 * len) + (c mod 2) * len,
        qy := (qy q div (2 * len)) * (2 * len) + ((c div 2) mod 2) * len\<rparr>)"

definition quadrant_parent_2d :: "p4est_quadrant \<Rightarrow> p4est_quadrant" where
  "quadrant_parent_2d q =
     (let len = quadrant_len_2d (qlevel q) in
      q\<lparr>qx := (qx q div (2 * len)) * (2 * len),
        qy := (qy q div (2 * len)) * (2 * len),
        qlevel := qlevel q - 1\<rparr>)"

definition quadrant_child_id_2d :: "p4est_quadrant \<Rightarrow> int" where
  "quadrant_child_id_2d q = ancestor_id_2d q (qlevel q)"

definition face_neighbor_extra_2d ::
  "p4est_connectivity \<Rightarrow> p4est_quadrant \<Rightarrow> int \<Rightarrow> int \<Rightarrow> int \<times> p4est_quadrant" where
  "face_neighbor_extra_2d conn q t f =
     (let len = quadrant_len_2d (qlevel q);
          root = 2 ^ 30;
          r = (if f = 0 then q\<lparr>qx := qx q - len\<rparr>
               else if f = 1 then q\<lparr>qx := qx q + len\<rparr>
               else if f = 2 then q\<lparr>qy := qy q - len\<rparr>
               else q\<lparr>qy := qy q + len\<rparr>)
      in if 0 \<le> qx r \<and> qx r < root \<and> 0 \<le> qy r \<and> qy r < root then (t, r)
         else
           let nt = tree_to_tree conn ! nat (4 * t + f);
               nf = tree_to_face conn ! nat (4 * t + f)
           in if nt = t \<and> nf = f then (- 1, r)
              else (nt, r\<lparr>qx := qx r mod root, qy := qy r mod root\<rparr>))"

definition morton_2d :: "p4est_quadrant \<Rightarrow> int" where
  "morton_2d q = (\<Sum>l\<leftarrow>[1..<31]. ancestor_id_2d q (int l) * 4 ^ (30 - l))"

definition quadrant_compare_2d :: "p4est_quadrant \<Rightarrow> p4est_quadrant \<Rightarrow> int" where
  "quadrant_compare_2d q r =
     (if morton_2d q < morton_2d r then - 1
      else if morton_2d r < morton_2d q then 1
      else qlevel q - qlevel r)"

definition quadrant_is_equal_2d :: "p4est_quadrant \<Rightarrow> p4est_quadrant \<Rightarrow> bool" where
  "quadrant_is_equal_2d q r \<longleftrightarrow> qx q = qx r \<and> qy q = qy r \<and> qlevel q = qlevel r"

definition quadrant_is_ancestor_2d :: "p4est_quadrant \<Rightarrow> p4est_quadrant \<Rightarrow> bool" where
  "quadrant_is_ancestor_2d q r \<longleftrightarrow>
     qlevel q < qlevel r
     \<and> qx q div quadrant_len_2d (qlevel q) = qx r div quadrant_len_2d (qlevel q)
     \<and> qy q div quadrant_len_2d (qlevel q) = qy r div quadrant_len_2d (qlevel q)"

fun bsearch_scan ::
  "p4est_quadrant list \<Rightarrow> p4est_quadrant \<Rightarrow> (p4est_quadrant \<Rightarrow> p4est_quadrant \<Rightarrow> int) \<Rightarrow> int \<Rightarrow> int" where
  "bsearch_scan [] k cmp i = - 1"
| "bsearch_scan (a # rest) k cmp i = (if cmp k a = 0 then i else bsearch_scan rest k cmp (i + 1))"

definition env2d :: env where
  "env2d =
     \<lparr>P4_TO_P8 = False,
      P4EST_MAXLEVEL = 30,
      P4EST_QMAXLEVEL = 29,
      p4est_split_array = split_array_2d,
      p4est_quadrant_sibling = quadrant_sibling_2d,
      p4est_quadrant_parent = quadrant_parent_2d,
      p4est_quadrant_child_id = quadrant_child_id_2d,
      p4est_quadrant_face_neighbor_extra = face_neighbor_extra_2d,
      p8est_quadrant_edge_neighbor_extra = (\<lambda>conn q t e. []),
      p4est_quadrant_corner_neighbor_extra = (\<lambda>conn q t c. []),
      p4est_quadrant_compare = quadrant_compare_2d,
      p4est_quadrant_is_equal = quadrant_is_equal_2d,
      p4est_quadrant_is_ancestor = quadrant_is_ancestor_2d,
      sc_array_bsearch = (\<lambda>view k cmp. bsearch_scan view k cmp 0),
      p4est_corner_faces = (\<lambda>c i. [[0, 2], [1, 2], [0, 3], [1, 3]] ! nat c ! nat i),
      p4est_face_corners = (\<lambda>f i. [[0, 2], [1, 3], [0, 1], [2, 3]] ! nat f ! nat i),
      p4est_zface_to_rface = (\<lambda>f. f),
      p4est_rface_to_zface = (\<lambda>f. f),
      p8est_edge_corners = (\<lambda>e i. 0),
      p8est_edge_faces = (\<lambda>e i. 0),
      p8est_corner_edges = (\<lambda>c i. 0),
      p8est_child_corner_edges = (\<lambda>c d. 0)\<rparr>"

text \<open>A quadrant of a tree given by its coordinates in units of its own length.\<close>

definition quad2d :: "int \<Rightarrow> int \<Rightarrow> int \<Rightarrow> p4est_quadrant" where
  "quad2d l i j =
     \<lparr>qx = i * quadrant_len_2d l, qy = j * quadrant_len_2d l, qz = 0, qlevel = l,
      which_tree = 0\<rparr>"

text \<open>The four children of a root, in the order of the space-filling curve.\<close>

definition tree_refined_once :: "p4est_quadrant list" where
  "tree_refined_once = [quad2d 1 0 0, quad2d 1 1 0, quad2d 1 0 1, quad2d 1 1 1]"

text \<open>
  A connectivity of \<open>n\<close> trees without neighbours in which one vertex is shared by
  \<open>k\<close> trees.
\<close>

definition conn_vertex_of :: "nat \<Rightarrow> int \<Rightarrow> p4est_connectivity" where
  "conn_vertex_of n k =
     \<lparr>num_vertices = 1, vtt_offset = [0, k],
      tree_to_tree = concat (map (\<lambda>t. replicate 4 (int t)) [0..<n]),
      tree_to_face = concat (map (\<lambda>t. [0, 1, 2, 3]) [0..<n]),
      num_corners = 0, ctt_offset = [0], num_edges = 0, ett_offset = [0],
      tree_to_edge = [], edge_to_tree = [], edge_to_edge = []\<rparr>"

text \<open>
  Six requests at depth 0, for the quadrants of trees 0, 1, 2, 3, 4 and again 0.
\<close>

definition req6 :: "tier_request list" where
  "req6 = map (\<lambda>t. (tree_refined_once, 0, 0, Some (Tree_quadrants t, 0))) [0, 1, 2, 3, 4, 0]"

text \<open>
  A forest of one tree refined once, and a forest of two trees joined across face 1
  of tree 0 and face 0 of tree 1, both refined once; all quadrants are local.
\<close>

definition conn_two_trees :: p4est_connectivity where
  "conn_two_trees =
     \<lparr>num_vertices = 0, vtt_offset = [0],
      tree_to_tree = [0, 1, 0, 0, 0, 1, 1, 1],
      tree_to_face = [0, 0, 2, 3, 1, 1, 2, 3],
      num_corners = 0, ctt_offset = [0], num_edges = 0, ett_offset = [0],
      tree_to_edge = [], edge_to_tree = [], edge_to_edge = []\<rparr>"

definition forest1 :: p4est where
  "forest1 = \<lparr>first_local_tree = 0, last_local_tree = 0, trees = [tree_refined_once],
     mpisize = 1, connectivity = conn_vertex_of 1 1\<rparr>"

definition forest2 :: p4est where
  "forest2 = \<lparr>first_local_tree = 0, last_local_tree = 1,
     trees = [tree_refined_once, tree_refined_once],
     mpisize = 1, connectivity = conn_two_trees\<rparr>"

text \<open>
  The arguments and loop arguments with which \<^verbatim>\<open>p4est_iterate\<close> runs the corner
  iterator at corner 0 of the tree of the first forest.
\<close>

definition corner_start :: "p4est_iter_corner_args \<times> p4est_iter_loop_args" where
  "corner_start =
     snd (p4est_iter_init_corner env2d forest1 (p4est_split_ghost_layer_by_tree [] 1)
            (p4est_iter_loop_args_new env2d (connectivity forest1) False True 1) 0 0)"

text \<open>The loop arguments of a top-level call on the forest of two trees.\<close>

definition la_two_trees :: p4est_iter_loop_args where
  "la_two_trees = p4est_iter_loop_args_new env2d conn_two_trees False True 1"

text \<open>Three requests at depth 0, the third repeating the key of the first.\<close>

definition req_hit :: "tier_request list" where
  "req_hit = map (\<lambda>t. (tree_refined_once, 0, 0, Some (Tree_quadrants t, 0))) [0, 1, 0]"

text \<open>
  The 3D build, with the tables of \<^verbatim>\<open>p8est_connectivity.c\<close> in z-order, and two cubes
  joined across face 1 of tree 0 and face 0 of tree 1; no tree lies across an edge or
  a corner.
\<close>

definition quadrant_len_3d :: "int \<Rightarrow> int" where
  "quadrant_len_3d l = 2 ^ (19 - nat l)"

definition ancestor_id_3d :: "p4est_quadrant \<Rightarrow> int \<Rightarrow> int" where
  "ancestor_id_3d q l =
     (qx q div quadrant_len_3d l) mod 2 + 2 * ((qy q div quadrant_len_3d l) mod 2)
     + 4 * ((qz q div quadrant_len_3d l) mod 2)"

definition split_array_3d :: "p4est_quadrant list \<Rightarrow> int \<Rightarrow> nat list" where
  "split_array_3d view lev =
     map (\<lambda>i. length (filter (\<lambda>q. ancestor_id_3d q (lev + 1) < int i) view)) [0..<9]"

definition quadrant_sibling_3d :: "p4est_quadrant \<Rightarrow> int \<Rightarrow> p4est_quadrant" where
  "quadrant_sibling_3d q c =
     (let len = quadrant_len_3d (qlevel q) in
      q\<lparr>qx := (qx q div (2 * len)) * (2 * len) + (c mod 2) * len,
        qy := (qy q div (2 * len)) * (2 * len) + ((c div 2) mod 2) * len,
        qz := (qz q div (2 * len)) * (2 * len) + ((c div 4) mod 2) * len\<rparr>)"

definition quadrant_parent_3d :: "p4est_quadrant \<Rightarrow> p4est_quadrant" where
  "quadrant_parent_3d q =
     (let len = quadrant_len_3d (qlevel q) in
      q\<lparr>qx := (qx q div (2 * len)) * (2 * len),
        qy := (qy q div (2 * len)) * (2 * len),
        qz := (qz q div (2 * len)) * (2 * len),
        qlevel := qlevel q - 1\<rparr>)"

definition quadrant_child_id_3d :: "p4est_quadrant \<Rightarrow> int" where
  "quadrant_child_id_3d q = ancestor_id_3d q (qlevel q)"

definition face_neighbor_extra_3d ::
  "p4est_connectivity \<Rightarrow> p4est_quadrant \<Rightarrow> int \<Rightarrow> int \<Rightarrow> int \<times> p4est_quadrant" where
  "face_neighbor_extra_3d conn q t f =
     (let len = quadrant_len_3d (qlevel q);
          root = 2 ^ 19;
          r = (if f = 0 then q\<lparr>qx := qx q - len\<rparr>
               else if f = 1 then q\<lparr>qx := qx q + len\<rparr>
               else if f = 2 then q\<lparr>qy := qy q - len\<rparr>
               else if f = 3 then q\<lparr>qy := qy q + len\<rparr>
               else if f = 4 then q\<lparr>qz := qz q - len\<rparr>
               else q\<lparr>qz := qz q + len\<rparr>)
      in if 0 \<le> qx r \<and> qx r < root \<and> 0 \<le> qy r \<and> qy r < root \<and> 0 \<le> qz r \<and> qz r < root
         then (t, r)
         else
           let nt = tree_to_tree conn ! nat (6 * t + f);
               nf = tree_to_face conn ! nat (6 * t + f)
           in if nt = t \<and> nf = f then (- 1, r)
              else (nt, r\<lparr>qx := qx r mod root, qy := qy r mod root, qz := qz r mod root\<rparr>))"

definition morton_3d :: "p4est_quadrant \<Rightarrow> int" where
  "morton_3d q = (\<Sum>l\<leftarrow>[1..<20]. ancestor_id_3d q (int l) * 8 ^ (19 - l))"

definition quadrant_compare_3d :: "p4est_quadrant \<Rightarrow> p4est_quadrant \<Rightarrow> int" where
  "quadrant_compare_3d q r =
     (if morton_3d q < morton_3d r then - 1
      else if morton_3d r < morton_3d q then 1
      else qlevel q - qlevel r)"

definition quadrant_is_equal_3d :: "p4est_quadrant \<Rightarrow> p4est_quadrant \<Rightarrow> bool" where
  "quadrant_is_equal_3d q r \<longleftrightarrow>
     qx q = qx r \<and> qy q = qy r \<and> qz q = qz r \<and> qlevel q = qlevel r"

definition quadrant_is_ancestor_3d :: "p4est_quadrant \<Rightarrow> p4est_quadrant \<Rightarrow> bool" where
  "quadrant_is_ancestor_3d q r \<longleftrightarrow>
     qlevel q < qlevel r
     \<and> qx q div quadrant_len_3d (qlevel q) = qx r div quadrant_len_3d (qlevel q)
     \<and> qy q div quadrant_len_3d (qlevel q) = qy r div quadrant_len_3d (qlevel q)
     \<and> qz q div quadrant_len_3d (qlevel q) = qz r div quadrant_len_3d (qlevel q)"

definition child_corner_edges_3d :: "int \<Rightarrow> int \<Rightarrow> int" where
  "child_corner_edges_3d c d =
     (let lo = (if c < d then c else d); hi = (if c < d then d else c) in
      if hi - lo = 1 \<and> lo mod 2 = 0 then lo div 2
      else if hi - lo = 2 \<and> (lo div 2) mod 2 = 0 then 4 + lo mod 2 + 2 * (lo div 4)
      else if hi - lo = 4 \<and> lo < 4 then 8 + lo
      else - 1)"

definition env3d :: env where
  "env3d =
     \<lparr>P4_TO_P8 = True,
      P4EST_MAXLEVEL = 19,
      P4EST_QMAXLEVEL = 18,
      p4est_split_array = split_array_3d,
      p4est_quadrant_sibling = quadrant_sibling_3d,
      p4est_quadrant_parent = quadrant_parent_3d,
      p4est_quadrant_child_id = quadrant_child_id_3d,
      p4est_quadrant_face_neighbor_extra = face_neighbor_extra_3d,
      p8est_quadrant_edge_neighbor_extra = (\<lambda>conn q t e. []),
      p4est_quadrant_corner_neighbor_extra = (\<lambda>conn q t c. []),
      p4est_quadrant_compare = quadrant_compare_3d,
      p4est_quadrant_is_equal = quadrant_is_equal_3d,
      p4est_quadrant_is_ancestor = quadrant_is_ancestor_3d,
      sc_array_bsearch = (\<lambda>view k cmp. bsearch_scan view k cmp 0),
      p4est_corner_faces = (\<lambda>c i. [[0, 2, 4], [1, 2, 4], [0, 3, 4], [1, 3, 4],
                                     [0, 2, 5], [1, 2, 5], [0, 3, 5], [1, 3, 5]] ! nat c ! nat i),
      p4est_face_corners = (\<lambda>f i. [[0, 2, 4, 6], [1, 3, 5, 7], [0, 1, 4, 5], [2, 3, 6, 7],
                                     [0, 1, 2, 3], [4, 5, 6, 7]] ! nat f ! nat i),
      p4est_zface_to_rface = (\<lambda>f. f),
      p4est_rface_to_zface = (\<lambda>f. f),
      p8est_edge_corners = (\<lambda>e i. [[0, 1], [2, 3], [4, 5], [6, 7], [0, 2], [1, 3], [4, 6], [5, 7],
                                     [0, 4], [1, 5], [2, 6], [3, 7]] ! nat e ! nat i),
      p8est_edge_faces = (\<lambda>e i. [[2, 4], [3, 4], [2, 5], [3, 5], [0, 4], [1, 4], [0, 5], [1, 5],
                                   [0, 2], [1, 2], [0, 3], [1, 3]] ! nat e ! nat i),
      p8est_corner_edges = (\<lambda>c i. [[0, 4, 8], [0, 5, 9], [1, 4, 10], [1, 5, 11],
                                     [2, 6, 8], [2, 7, 9], [3, 6, 10], [3, 7, 11]] ! nat c ! nat i),
      p8est_child_corner_edges = child_corner_edges_3d\<rparr>"

definition conn_two_cubes :: p4est_connectivity where
  "conn_two_cubes =
     \<lparr>num_vertices = 0, vtt_offset = [0],
      tree_to_tree = [0, 1, 0, 0, 0, 0, 0, 1, 1, 1, 1, 1],
      tree_to_face = [0, 0, 2, 3, 4, 5, 1, 1, 2, 3, 4, 5],
      num_corners = 0, ctt_offset = [0], num_edges = 0, ett_offset = [0],
      tree_to_edge = replicate 24 (- 1), edge_to_tree = [], edge_to_edge = []\<rparr>"

definition forest_two_cubes :: p4est where
  "forest_two_cubes = \<lparr>first_local_tree = 0, last_local_tree = 1,
     trees = [[\<lparr>qx = 0, qy = 0, qz = 0, qlevel = 0, which_tree = 0\<rparr>],
              [\<lparr>qx = 0, qy = 0, qz = 0, qlevel = 0, which_tree = 1\<rparr>]],
     mpisize = 1, connectivity = conn_two_cubes\<rparr>"

definition la_two_cubes :: p4est_iter_loop_args where
  "la_two_cubes = p4est_iter_loop_args_new env3d conn_two_cubes True True 1"

definition empty_edge_args :: p8est_iter_edge_args where
  "empty_edge_args =
     \<lparr>ea_num_sides = 0, ea_start_idx2 = [], ea_common_corners = ([], []),
      ea_corner_args = empty_corner_args, ea_sides = []\<rparr>"

section \<open>Theorems\<close>

text \<open>
  C7 (as amended).  Decoding the hanging code zero returns 0 and leaves both output
  arrays exactly as the caller passed them: the header documents that they are
  "not touched if there are no hanging faces or edges".
\<close>

theorem p6est_lnodes_decode_zero:
  "p6est_lnodes_decode dec fe 0 hanging_face hanging_edge = (0, hanging_face, hanging_edge)"
  by (simp add: p6est_lnodes_decode_def)

text \<open>
  C7 as stated fails: with output arrays that hold 7 everywhere before the call,
  face 0 is not reported as \<open>-1\<close> after decoding the code zero.
\<close>

theorem p6est_lnodes_decode_zero_counterexample:
  "fst (snd (p6est_lnodes_decode (\<lambda>c a. a) face_edges_zorder 0
               (replicate 6 7) (replicate 12 7))) ! 0 \<noteq> - 1"
  by (simp add: p6est_lnodes_decode_def)


subsection \<open>The tier rings\<close>

lemma rings_new_nth:
  "i < P4EST_QMAXLEVEL E \<Longrightarrow>
   p4est_iter_tier_rings_new E np ! i =
     \<lparr>ring_next = 0,
      ring_tiers = replicate (tier_ring_max E np)
         \<lparr>tier_key = None, tier_array = replicate (P4EST_ITER_STRIDE E) 0\<rparr>\<rparr>"
  by (simp add: p4est_iter_tier_rings_new_def map_replicate_const)

text \<open>
  C9 (as amended).  The loop arguments of a top-level call hold one ring per depth
  below \<^verbatim>\<open>P4EST_QMAXLEVEL\<close>; each ring has \<^verbatim>\<open>P4EST_CHILDREN\<close> tiers when the forest runs
  on one process and twice as many otherwise, whatever the connectivity is and
  whichever callbacks are given.
\<close>

theorem tier_ring_capacity:
  assumes "i < P4EST_QMAXLEVEL E"
  shows "length (tier_rings (p4est_iter_loop_args_new E conn iter_edge iter_corner num_procs))
           = P4EST_QMAXLEVEL E
       \<and> length (ring_tiers
            (tier_rings (p4est_iter_loop_args_new E conn iter_edge iter_corner num_procs) ! i))
           = (if num_procs = 1 then P4EST_CHILDREN E else 2 * P4EST_CHILDREN E)"
  using assms
  by (simp add: p4est_iter_loop_args_new_def Let_def rings_new_nth tier_ring_max_def
      p4est_iter_tier_rings_new_def)

theorem tier_ring_capacity_witness:
  "length (ring_tiers
     (tier_rings (p4est_iter_loop_args_new env2d (conn_vertex_of 5 5) False True 2) ! 3)) = 8"
proof -
  have "3 < P4EST_QMAXLEVEL env2d" by (simp add: env2d_def)
  from tier_ring_capacity [OF this, of "conn_vertex_of 5 5" False True 2]
  show ?thesis by (simp add: P4EST_CHILDREN_def P4EST_DIM_def env2d_def)
qed

text \<open>
  C9 as stated fails: in a 2D forest on one process in which five trees share a
  vertex, the loop arguments are sized for five sides at a corner, yet every ring
  has four tiers.
\<close>

theorem tier_ring_capacity_counterexample:
  "max_corner_size env2d (conn_vertex_of 5 5) False True = 5
   \<and> length (ring_tiers
        (tier_rings (p4est_iter_loop_args_new env2d (conn_vertex_of 5 5) False True 1) ! 0)) = 4"
  by (simp add: max_corner_size_def env2d_def conn_vertex_of_def P4EST_CHILDREN_def P4EST_DIM_def
      p4est_iter_loop_args_new_def Let_def rings_new_nth tier_ring_max_def)

lemma tier_ring_scan_hit:
  "tier_ring_scan ts i0 q = Scan_hit i \<Longrightarrow>
     i0 \<le> i \<and> i - i0 < length ts \<and> tier_key (ts ! (i - i0)) = Some q"
proof (induction ts arbitrary: i0)
  case Nil
  then show ?case by simp
next
  case (Cons t ts)
  show ?case
  proof (cases "tier_key t")
    case None
    with Cons.prems show ?thesis by simp
  next
    case (Some k)
    show ?thesis
    proof (cases "q = k")
      case True
      with Some Cons.prems show ?thesis by simp
    next
      case False
      with Some Cons.prems have "tier_ring_scan ts (Suc i0) q = Scan_hit i" by simp
      from Cons.IH [OF this] show ?thesis
        by (auto simp: nth_Cons' Suc_diff_Suc less_eq_Suc_le)
    qed
  qed
qed

lemma tier_cached_ok_update:
  assumes ok: "tier_cached_ok E area used rings"
    and l: "nat lev < length rings" "0 \<le> lev"
    and a: "area k lev = (view, shift)"
  shows "tier_cached_ok E area (insert (k, lev) used)
           (rings[nat lev := (rings ! nat lev)\<lparr>ring_tiers :=
                (ring_tiers (rings ! nat lev))[j := \<lparr>tier_key = Some k,
                   tier_array = p4est_iter_tier_update E view lev shift\<rparr>],
              ring_next := n\<rparr>])"
  unfolding tier_cached_ok_def
proof (intro allI impI ballI)
  fix l' t k'
  assume l': "l' < length (rings[nat lev := (rings ! nat lev)\<lparr>ring_tiers :=
                (ring_tiers (rings ! nat lev))[j := \<lparr>tier_key = Some k,
                   tier_array = p4est_iter_tier_update E view lev shift\<rparr>],
              ring_next := n\<rparr>])"
    and t: "t \<in> set (ring_tiers (rings[nat lev := (rings ! nat lev)\<lparr>ring_tiers :=
                (ring_tiers (rings ! nat lev))[j := \<lparr>tier_key = Some k,
                   tier_array = p4est_iter_tier_update E view lev shift\<rparr>],
              ring_next := n\<rparr>] ! l'))"
    and k': "tier_key t = Some k'"
  from l' have l'': "l' < length rings" by simp
  show "tier_array t = p4est_iter_tier_update E (fst (area k' (int l'))) (int l') (snd (area k' (int l')))
          \<and> (k', int l') \<in> insert (k, lev) used"
  proof (cases "l' = nat lev")
    case False
    with t l'' have "t \<in> set (ring_tiers (rings ! l'))" by simp
    with ok l'' k' show ?thesis unfolding tier_cached_ok_def by blast
  next
    case True
    with t l'' have "t \<in> set ((ring_tiers (rings ! nat lev))[j := \<lparr>tier_key = Some k,
                   tier_array = p4est_iter_tier_update E view lev shift\<rparr>])" by simp
    then have "t = \<lparr>tier_key = Some k, tier_array = p4est_iter_tier_update E view lev shift\<rparr>
               \<or> t \<in> set (ring_tiers (rings ! nat lev))"
      using set_update_subset_insert by fastforce
    then show ?thesis
    proof
      assume "t = \<lparr>tier_key = Some k, tier_array = p4est_iter_tier_update E view lev shift\<rparr>"
      with k' True l a show ?thesis by auto
    next
      assume "t \<in> set (ring_tiers (rings ! nat lev))"
      with ok l'' k' True show ?thesis unfolding tier_cached_ok_def by blast
    qed
  qed
qed

lemma tier_insert_step:
  assumes ok: "tier_cached_ok E area used rings"
    and req: "tier_request_ok area (view, lev, shift, q)"
    and empty: "\<forall>l s. p4est_iter_tier_update E [] l s = replicate (P4EST_ITER_STRIDE E) s"
    and res: "p4est_iter_tier_insert E view lev shift rings q = (next_tier, rings', searched)"
  shows "next_tier = p4est_iter_tier_update E view lev shift
         \<and> (\<not> searched \<longrightarrow> (case q of None \<Rightarrow> True | Some k \<Rightarrow> (k, lev) \<in> used))
         \<and> tier_cached_ok E area (case q of None \<Rightarrow> used | Some k \<Rightarrow> insert (k, lev) used) rings'"
proof (cases q)
  case None
  with req have "view = []" by (simp add: tier_request_ok_def)
  with None res empty ok show ?thesis
    by (auto simp: p4est_iter_tier_insert_def)
next
  case (Some k)
  with req have a: "area k lev = (view, shift)" and l0: "0 \<le> lev"
    by (simp_all add: tier_request_ok_def)
  have mono: "tier_cached_ok E area (insert (k, lev) used) rings"
    using ok unfolding tier_cached_ok_def by blast
  show ?thesis
  proof (cases "lev \<ge> int (length rings)")
    case True
    with Some res mono show ?thesis by (auto simp: p4est_iter_tier_insert_def)
  next
    case False
    then have l: "nat lev < length rings" using l0 by linarith
    show ?thesis
    proof (cases "tier_ring_scan (ring_tiers (rings ! nat lev)) 0 k")
      case (Scan_null i)
      with Some False res have
        "next_tier = p4est_iter_tier_update E view lev shift" "searched"
        "rings' = rings[nat lev := (rings ! nat lev)\<lparr>ring_tiers :=
                (ring_tiers (rings ! nat lev))[i := \<lparr>tier_key = Some k,
                   tier_array = p4est_iter_tier_update E view lev shift\<rparr>],
              ring_next := (ring_next (rings ! nat lev) + 1) mod int (length (ring_tiers (rings ! nat lev)))\<rparr>]"
        by (auto simp: p4est_iter_tier_insert_def Let_def)
      with Some tier_cached_ok_update [OF ok l l0 a] show ?thesis by simp
    next
      case (Scan_hit i)
      from tier_ring_scan_hit [OF this]
      have i: "i < length (ring_tiers (rings ! nat lev))"
        and ki: "tier_key (ring_tiers (rings ! nat lev) ! i) = Some k" by simp_all
      from i have "ring_tiers (rings ! nat lev) ! i \<in> set (ring_tiers (rings ! nat lev))" by simp
      with ok l ki l0 a have
        "tier_array (ring_tiers (rings ! nat lev) ! i) = p4est_iter_tier_update E view lev shift"
        "(k, lev) \<in> used"
        unfolding tier_cached_ok_def by fastforce+
      moreover from Some False Scan_hit res have
        "next_tier = tier_array (ring_tiers (rings ! nat lev) ! i)" "rings' = rings"
        by (auto simp: p4est_iter_tier_insert_def Let_def)
      ultimately show ?thesis using Some mono by simp
    next
      case Scan_miss
      with Some False res have
        "next_tier = p4est_iter_tier_update E view lev shift" "searched"
        "rings' = rings[nat lev := (rings ! nat lev)\<lparr>ring_tiers :=
                (ring_tiers (rings ! nat lev))[nat (ring_next (rings ! nat lev)) := \<lparr>tier_key = Some k,
                   tier_array = p4est_iter_tier_update E view lev shift\<rparr>],
              ring_next := (ring_next (rings ! nat lev) + 1) mod int (length (ring_tiers (rings ! nat lev)))\<rparr>]"
        by (auto simp: p4est_iter_tier_insert_def Let_def)
      with Some tier_cached_ok_update [OF ok l l0 a] show ?thesis by simp
    qed
  qed
qed


lemma tier_cached_ok_new: "tier_cached_ok E area {} (p4est_iter_tier_rings_new E np)"
  by (auto simp: tier_cached_ok_def p4est_iter_tier_rings_new_def)

lemma env2d_update_empty:
  "p4est_iter_tier_update env2d [] l s = replicate (P4EST_ITER_STRIDE env2d) s"
  by (simp add: p4est_iter_tier_update_def env2d_def split_array_2d_def P4EST_ITER_STRIDE_def
      P4EST_CHILDREN_def P4EST_DIM_def upt_rec numeral_nat)

lemma tier_ring_scan_cases:
  "(case tier_ring_scan ts i0 q of
      Scan_hit i \<Rightarrow> i0 \<le> i \<and> i - i0 < length ts \<and> tier_key (ts ! (i - i0)) = Some q
                   \<and> (\<forall>j < i - i0. tier_key (ts ! j) \<noteq> None \<and> tier_key (ts ! j) \<noteq> Some q)
    | Scan_null i \<Rightarrow> i0 \<le> i \<and> i - i0 < length ts \<and> tier_key (ts ! (i - i0)) = None
                   \<and> (\<forall>j < i - i0. tier_key (ts ! j) \<noteq> None \<and> tier_key (ts ! j) \<noteq> Some q)
    | Scan_miss \<Rightarrow> (\<forall>j < length ts. tier_key (ts ! j) \<noteq> None \<and> tier_key (ts ! j) \<noteq> Some q))"
proof (induction ts arbitrary: i0)
  case Nil
  show ?case by simp
next
  case (Cons t ts)
  show ?case
  proof (cases "tier_key t")
    case None
    then show ?thesis by simp
  next
    case (Some k)
    show ?thesis
    proof (cases "q = k")
      case True
      with Some show ?thesis by simp
    next
      case False
      have step: "tier_ring_scan (t # ts) i0 q = tier_ring_scan ts (Suc i0) q"
        using Some False by simp
      show ?thesis
      proof (cases "tier_ring_scan ts (Suc i0) q")
        case (Scan_hit i)
        with Cons.IH [of "Suc i0"] have
          a: "Suc i0 \<le> i" "i - Suc i0 < length ts" "tier_key (ts ! (i - Suc i0)) = Some q"
          "\<forall>j < i - Suc i0. tier_key (ts ! j) \<noteq> None \<and> tier_key (ts ! j) \<noteq> Some q"
          by simp_all
        from a(1) have e: "i - i0 = Suc (i - Suc i0)" by simp
        have "\<forall>j < i - i0. tier_key ((t # ts) ! j) \<noteq> None \<and> tier_key ((t # ts) ! j) \<noteq> Some q"
        proof (intro allI impI)
          fix j assume "j < i - i0"
          then show "tier_key ((t # ts) ! j) \<noteq> None \<and> tier_key ((t # ts) ! j) \<noteq> Some q"
            using a(4) e Some False by (cases j) auto
        qed
        with a e step Scan_hit show ?thesis by simp
      next
        case (Scan_null i)
        with Cons.IH [of "Suc i0"] have
          a: "Suc i0 \<le> i" "i - Suc i0 < length ts" "tier_key (ts ! (i - Suc i0)) = None"
          "\<forall>j < i - Suc i0. tier_key (ts ! j) \<noteq> None \<and> tier_key (ts ! j) \<noteq> Some q"
          by simp_all
        from a(1) have e: "i - i0 = Suc (i - Suc i0)" by simp
        have "\<forall>j < i - i0. tier_key ((t # ts) ! j) \<noteq> None \<and> tier_key ((t # ts) ! j) \<noteq> Some q"
        proof (intro allI impI)
          fix j assume "j < i - i0"
          then show "tier_key ((t # ts) ! j) \<noteq> None \<and> tier_key ((t # ts) ! j) \<noteq> Some q"
            using a(4) e Some False by (cases j) auto
        qed
        with a e step Scan_null show ?thesis by simp
      next
        case Scan_miss
        with Cons.IH [of "Suc i0"] have
          a: "\<forall>j < length ts. tier_key (ts ! j) \<noteq> None \<and> tier_key (ts ! j) \<noteq> Some q"
          by simp
        have "\<forall>j < length (t # ts). tier_key ((t # ts) ! j) \<noteq> None \<and> tier_key ((t # ts) ! j) \<noteq> Some q"
        proof (intro allI impI)
          fix j assume "j < length (t # ts)"
          then show "tier_key ((t # ts) ! j) \<noteq> None \<and> tier_key ((t # ts) ! j) \<noteq> Some q"
            using a Some False by (cases j) auto
        qed
        with step Scan_miss show ?thesis by simp
      qed
    qed
  qed
qed

lemma find_first:
  "i < length ts \<Longrightarrow> Q (ts ! i) \<Longrightarrow> \<forall>j < i. \<not> Q (ts ! j) \<Longrightarrow> find Q ts = Some (ts ! i)"
proof (induction ts arbitrary: i)
  case Nil
  then show ?case by simp
next
  case (Cons t ts)
  show ?case
  proof (cases i)
    case 0
    with Cons.prems show ?thesis by simp
  next
    case (Suc i')
    with Cons.prems have "\<not> Q t" by auto
    moreover have "find Q ts = Some (ts ! i')"
      using Cons.prems Suc by (intro Cons.IH) auto
    ultimately show ?thesis using Suc by simp
  qed
qed

lemma ring_scan_held:
  assumes inv: "ring_inv ring" and held: "Some k \<in> set (map tier_key (ring_tiers ring))"
  shows "\<exists>i. tier_ring_scan (ring_tiers ring) 0 k = Scan_hit i
            \<and> find (\<lambda>t. tier_key t = Some k) (ring_tiers ring) = Some (ring_tiers ring ! i)"
proof -
  let ?ts = "ring_tiers ring"
  from held obtain m where m: "m < length ?ts" "tier_key (?ts ! m) = Some k"
    by (auto simp: in_set_conv_nth)
  note c = tier_ring_scan_cases [where ts = ?ts and ?i0.0 = 0 and q = k]
  show ?thesis
  proof (cases "tier_ring_scan ?ts 0 k")
    case (Scan_hit i)
    with c have i: "i < length ?ts" "tier_key (?ts ! i) = Some k"
      "\<forall>j < i. tier_key (?ts ! j) \<noteq> Some k" by simp_all
    then have "find (\<lambda>t. tier_key t = Some k) ?ts = Some (?ts ! i)"
      by (intro find_first) simp_all
    with Scan_hit show ?thesis by simp
  next
    case (Scan_null i)
    with c have i: "i < length ?ts" "tier_key (?ts ! i) = None"
      "\<forall>j < i. tier_key (?ts ! j) \<noteq> None \<and> tier_key (?ts ! j) \<noteq> Some k" by simp_all
    from inv i(1,2) have nones: "\<forall>j < length ?ts. tier_key (?ts ! j) = None \<longleftrightarrow> nat (ring_next ring) \<le> j"
      unfolding ring_inv_def by blast
    with i have "nat (ring_next ring) \<le> i" by blast
    from i(3) m have "\<not> m < i" by blast
    then have "nat (ring_next ring) \<le> m" using \<open>nat (ring_next ring) \<le> i\<close> by simp
    with nones m(1) have "tier_key (?ts ! m) = None" by blast
    with m(2) show ?thesis by simp
  next
    case Scan_miss
    with c m show ?thesis by simp
  qed
qed

lemma ring_scan_not_held:
  assumes inv: "ring_inv ring" and nheld: "Some k \<notin> set (map tier_key (ring_tiers ring))"
  shows "tier_ring_scan (ring_tiers ring) 0 k = Scan_null (nat (ring_next ring))
       \<or> tier_ring_scan (ring_tiers ring) 0 k = Scan_miss"
proof -
  let ?ts = "ring_tiers ring"
  note c = tier_ring_scan_cases [where ts = ?ts and ?i0.0 = 0 and q = k]
  show ?thesis
  proof (cases "tier_ring_scan ?ts 0 k")
    case (Scan_hit i)
    with c have "i < length ?ts" "tier_key (?ts ! i) = Some k" by simp_all
    with nheld show ?thesis by (metis image_eqI nth_mem set_map)
  next
    case (Scan_null i)
    with c have i: "i < length ?ts" "tier_key (?ts ! i) = None"
      "\<forall>j < i. tier_key (?ts ! j) \<noteq> None" by simp_all
    from inv i(1,2) have nones: "\<forall>j < length ?ts. tier_key (?ts ! j) = None \<longleftrightarrow> nat (ring_next ring) \<le> j"
      unfolding ring_inv_def by blast
    from inv have n: "nat (ring_next ring) < length ?ts" unfolding ring_inv_def by blast
    with nones have "tier_key (?ts ! nat (ring_next ring)) = None" by simp
    with i(3) have "\<not> nat (ring_next ring) < i" by blast
    moreover from nones i have "nat (ring_next ring) \<le> i" by blast
    ultimately have "i = nat (ring_next ring)" by simp
    with Scan_null show ?thesis by simp
  next
    case Scan_miss
    then show ?thesis by simp
  qed
qed

lemma tier_insert_char:
  assumes inv: "list_all ring_inv rings" and lev: "0 \<le> lev"
  shows "p4est_iter_tier_insert E view lev shift rings q =
     (case q of
        None \<Rightarrow> (replicate (P4EST_ITER_STRIDE E) shift, rings, False)
      | Some k \<Rightarrow>
          if ring_holds rings lev k then (ring_memo rings lev k, rings, False)
          else (p4est_iter_tier_update E view lev shift,
                (if lev < int (length rings)
                 then ring_store rings lev k (p4est_iter_tier_update E view lev shift)
                 else rings),
                True))"
proof (cases q)
  case None
  then show ?thesis by (simp add: p4est_iter_tier_insert_def)
next
  case (Some k)
  show ?thesis
  proof (cases "lev < int (length rings)")
    case False
    with Some show ?thesis by (simp add: p4est_iter_tier_insert_def ring_holds_def)
  next
    case True
    with lev have l: "nat lev < length rings" by simp
    with inv have rinv: "ring_inv (rings ! nat lev)" by (simp add: list_all_length)
    show ?thesis
    proof (cases "Some k \<in> set (map tier_key (ring_tiers (rings ! nat lev)))")
      case held: True
      from ring_scan_held [OF rinv held] obtain i where
        "tier_ring_scan (ring_tiers (rings ! nat lev)) 0 k = Scan_hit i"
        "find (\<lambda>t. tier_key t = Some k) (ring_tiers (rings ! nat lev))
           = Some (ring_tiers (rings ! nat lev) ! i)"
        by blast
      with Some True held show ?thesis
        by (simp add: p4est_iter_tier_insert_def ring_holds_def ring_memo_def Let_def)
    next
      case nheld: False
      from ring_scan_not_held [OF rinv nheld] Some True nheld show ?thesis
        by (auto simp: p4est_iter_tier_insert_def ring_holds_def ring_store_def Let_def)
    qed
  qed
qed

lemma ring_inv_store:
  assumes inv: "ring_inv ring"
    and nheld: "Some k \<notin> set (map tier_key (ring_tiers ring))"
  shows "ring_inv (ring\<lparr>ring_tiers := (ring_tiers ring)[nat (ring_next ring) :=
                          \<lparr>tier_key = Some k, tier_array = offsets\<rparr>],
         ring_next := (ring_next ring + 1) mod int (length (ring_tiers ring))\<rparr>)"
proof -
  let ?ts = "ring_tiers ring" and ?n = "nat (ring_next ring)"
  let ?ts' = "?ts[?n := \<lparr>tier_key = Some k, tier_array = offsets\<rparr>]"
  let ?n' = "(ring_next ring + 1) mod int (length ?ts)"
  from inv have n0: "0 \<le> ring_next ring" and n: "?n < length ?ts"
    and dist: "\<forall>i < length ?ts. \<forall>j < length ?ts.
          tier_key (?ts ! i) = tier_key (?ts ! j) \<and> tier_key (?ts ! i) \<noteq> None \<longrightarrow> i = j"
    and shape: "(\<forall>i < length ?ts. tier_key (?ts ! i) \<noteq> None)
        \<or> (\<forall>i < length ?ts. tier_key (?ts ! i) = None \<longleftrightarrow> ?n \<le> i)"
    unfolding ring_inv_def by blast+
  from nheld have nk: "\<forall>i < length ?ts. tier_key (?ts ! i) \<noteq> Some k"
    by (metis image_eqI nth_mem set_map)
  have key': "tier_key (?ts' ! i) = (if i = ?n then Some k else tier_key (?ts ! i))"
    if "i < length ?ts" for i
    using that by (simp add: nth_list_update)
  have len: "length ?ts' = length ?ts" by simp
  have lenpos: "0 < int (length ?ts)" using n by (cases "ring_tiers ring") simp_all
  then have a0: "0 \<le> ?n'" by simp
  moreover from lenpos have "?n' < int (length ?ts)" by simp
  ultimately have a: "0 \<le> ?n'" "nat ?n' < length ?ts" by linarith+
  have b: "\<forall>i < length ?ts. \<forall>j < length ?ts.
          tier_key (?ts' ! i) = tier_key (?ts' ! j) \<and> tier_key (?ts' ! i) \<noteq> None \<longrightarrow> i = j"
  proof (intro allI impI)
    fix i j assume i: "i < length ?ts" and j: "j < length ?ts"
      and e: "tier_key (?ts' ! i) = tier_key (?ts' ! j) \<and> tier_key (?ts' ! i) \<noteq> None"
    show "i = j"
    proof (cases "i = ?n")
      case True
      with e i j key' nk show ?thesis by (cases "j = ?n") auto
    next
      case False
      show ?thesis
      proof (cases "j = ?n")
        case True
        with e i j key' nk False show ?thesis by auto
      next
        case jn: False
        from False i key' have ei: "tier_key (?ts' ! i) = tier_key (?ts ! i)" by simp
        from jn j key' have ej: "tier_key (?ts' ! j) = tier_key (?ts ! j)" by simp
        from e ei ej
        have "tier_key (?ts ! i) = tier_key (?ts ! j) \<and> tier_key (?ts ! i) \<noteq> None"
          by metis
        with dist i j show ?thesis by blast
      qed
    qed
  qed
  have c: "(\<forall>i < length ?ts. tier_key (?ts' ! i) \<noteq> None)
        \<or> (\<forall>i < length ?ts. tier_key (?ts' ! i) = None \<longleftrightarrow> nat ?n' \<le> i)"
  proof (cases "\<forall>i < length ?ts. tier_key (?ts ! i) \<noteq> None")
    case True
    then have "\<forall>i < length ?ts. tier_key (?ts' ! i) \<noteq> None" using key' by simp
    then show ?thesis ..
  next
    case False
    with shape have sh: "\<forall>i < length ?ts. tier_key (?ts ! i) = None \<longleftrightarrow> ?n \<le> i" by blast
    show ?thesis
    proof (cases "Suc ?n = length ?ts")
      case True
      have "\<forall>i < length ?ts. tier_key (?ts' ! i) \<noteq> None"
      proof (intro allI impI)
        fix i assume i: "i < length ?ts"
        show "tier_key (?ts' ! i) \<noteq> None"
        proof (cases "i = ?n")
          case True
          with i key' show ?thesis by simp
        next
          case False
          with i True have "\<not> ?n \<le> i" by simp
          with sh i False key' show ?thesis by simp
        qed
      qed
      then show ?thesis ..
    next
      case False
      with n have lt: "Suc ?n < length ?ts" by simp
      have "ring_next ring + 1 < int (length ?ts)" using lt n0 by linarith
      then have "?n' = ring_next ring + 1" using n0 by simp
      then have n': "nat ?n' = Suc ?n" using n0 by simp
      have "\<forall>i < length ?ts. tier_key (?ts' ! i) = None \<longleftrightarrow> nat ?n' \<le> i"
      proof (intro allI impI)
        fix i assume i: "i < length ?ts"
        show "tier_key (?ts' ! i) = None \<longleftrightarrow> nat ?n' \<le> i"
        proof (cases "i = ?n")
          case True
          with i key' n' show ?thesis by simp
        next
          case False
          with i key' sh n' show ?thesis by auto
        qed
      qed
      then show ?thesis ..
    qed
  qed
  from a b c show ?thesis by (simp add: ring_inv_def)
qed

lemma rings_inv_insert:
  assumes inv: "list_all ring_inv rings" and lev: "0 \<le> lev"
  shows "list_all ring_inv (fst (snd (p4est_iter_tier_insert E view lev shift rings q)))"
proof (cases q)
  case None
  with inv show ?thesis by (simp add: tier_insert_char [OF inv lev])
next
  case (Some k)
  show ?thesis
  proof (cases "ring_holds rings lev k \<or> \<not> lev < int (length rings)")
    case True
    with Some inv show ?thesis by (auto simp: tier_insert_char [OF inv lev])
  next
    case False
    then have "lev < int (length rings)" by simp
    with lev have l: "nat lev < length rings" by linarith
    with inv have rinv: "ring_inv (rings ! nat lev)" by (simp add: list_all_length)
    from False have "Some k \<notin> set (map tier_key (ring_tiers (rings ! nat lev)))"
      by (simp add: ring_holds_def)
    from ring_inv_store [OF rinv this]
    have st: "ring_inv ((rings ! nat lev)\<lparr>ring_tiers := (ring_tiers (rings ! nat lev))
                          [nat (ring_next (rings ! nat lev)) :=
                             \<lparr>tier_key = Some k,
                              tier_array = p4est_iter_tier_update E view lev shift\<rparr>],
         ring_next := (ring_next (rings ! nat lev) + 1)
                        mod int (length (ring_tiers (rings ! nat lev)))\<rparr>)" .
    have "list_all ring_inv (ring_store rings lev k (p4est_iter_tier_update E view lev shift))"
      unfolding ring_store_def Let_def list_all_length
    proof (intro allI impI)
      fix n assume "n < length (rings[nat lev := (rings ! nat lev)\<lparr>ring_tiers := (ring_tiers (rings ! nat lev))
                          [nat (ring_next (rings ! nat lev)) :=
                             \<lparr>tier_key = Some k,
                              tier_array = p4est_iter_tier_update E view lev shift\<rparr>],
         ring_next := (ring_next (rings ! nat lev) + 1)
                        mod int (length (ring_tiers (rings ! nat lev)))\<rparr>])"
      then have n: "n < length rings" by simp
      show "ring_inv (rings[nat lev := (rings ! nat lev)\<lparr>ring_tiers := (ring_tiers (rings ! nat lev))
                          [nat (ring_next (rings ! nat lev)) :=
                             \<lparr>tier_key = Some k,
                              tier_array = p4est_iter_tier_update E view lev shift\<rparr>],
         ring_next := (ring_next (rings ! nat lev) + 1)
                        mod int (length (ring_tiers (rings ! nat lev)))\<rparr>] ! n)"
      proof (cases "n = nat lev")
        case True
        with n st show ?thesis by simp
      next
        case False
        with n inv show ?thesis by (simp add: list_all_length)
      qed
    qed
    with Some False show ?thesis by (simp add: tier_insert_char [OF inv lev])
  qed
qed

lemma rings_new_inv: "list_all ring_inv (p4est_iter_tier_rings_new E num_procs)"
  by (simp add: p4est_iter_tier_rings_new_def list_all_iff ring_inv_def tier_ring_max_def
        P4EST_CHILDREN_def)

lemma rings_after_inv:
  "list_all ring_inv rings \<Longrightarrow> \<forall>r \<in> set reqs. tier_request_ok area r \<Longrightarrow>
   list_all ring_inv (tier_rings_after E rings reqs)"
proof (induction reqs arbitrary: rings)
  case Nil
  then show ?case by simp
next
  case (Cons r reqs)
  obtain view lev shift q where r: "r = (view, lev, shift, q)" by (cases r) auto
  with Cons.prems have "0 \<le> lev" by (simp add: tier_request_ok_def)
  from rings_inv_insert [OF Cons.prems(1) this]
  have "list_all ring_inv (fst (snd (p4est_iter_tier_insert E view lev shift rings q)))" .
  with Cons.IH Cons.prems r show ?case by simp
qed

lemma rings_after_cached:
  "tier_cached_ok E area used rings \<Longrightarrow> \<forall>r \<in> set reqs. tier_request_ok area r \<Longrightarrow>
   \<forall>l s. p4est_iter_tier_update E [] l s = replicate (P4EST_ITER_STRIDE E) s \<Longrightarrow>
   \<exists>used'. tier_cached_ok E area used' (tier_rings_after E rings reqs)"
proof (induction reqs arbitrary: rings used)
  case Nil
  then show ?case by auto
next
  case (Cons r reqs)
  obtain view lev shift q where r: "r = (view, lev, shift, q)" by (cases r) auto
  obtain next_tier rings' searched where
    res: "p4est_iter_tier_insert E view lev shift rings q = (next_tier, rings', searched)"
    by (cases "p4est_iter_tier_insert E view lev shift rings q") auto
  from Cons.prems r have rok: "tier_request_ok area (view, lev, shift, q)" by simp
  from tier_insert_step [OF Cons.prems(1) rok Cons.prems(3) res]
  have "tier_cached_ok E area (case q of None \<Rightarrow> used | Some k \<Rightarrow> insert (k, lev) used) rings'"
    by simp
  from Cons.IH [OF this] Cons.prems r res show ?case by simp
qed

lemma tier_insert_run_nth:
  "j < length reqs \<Longrightarrow> reqs ! j = (view, lev, shift, q) \<Longrightarrow>
   tier_insert_run E rings reqs ! j =
     (fst (p4est_iter_tier_insert E view lev shift (tier_rings_after E rings (take j reqs)) q),
      snd (snd (p4est_iter_tier_insert E view lev shift (tier_rings_after E rings (take j reqs)) q)))"
proof (induction reqs arbitrary: rings j)
  case Nil
  then show ?case by simp
next
  case (Cons r reqs)
  obtain v l s k where r: "r = (v, l, s, k)" by (cases r) auto
  show ?case
  proof (cases j)
    case 0
    with Cons.prems r show ?thesis by (simp split: prod.splits)
  next
    case (Suc j')
    with Cons.prems have "j' < length reqs" "reqs ! j' = (view, lev, shift, q)" by simp_all
    from Cons.IH [OF this] Suc r show ?thesis by (simp split: prod.splits)
  qed
qed

lemma ring_store_evicts:
  assumes inv: "list_all ring_inv rings" and lev: "0 \<le> lev" "lev < int (length rings)"
    and nheld: "\<not> ring_holds rings lev k"
    and old: "tier_key (ring_tiers (rings ! nat lev) ! nat (ring_next (rings ! nat lev)))
                = Some k'"
  shows "ring_holds (ring_store rings lev k offsets) lev k
       \<and> \<not> ring_holds (ring_store rings lev k offsets) lev k'"
proof -
  let ?ring = "rings ! nat lev"
  let ?ts = "ring_tiers ?ring" and ?n = "nat (ring_next ?ring)"
  from lev have l: "nat lev < length rings" by simp
  with inv have rinv: "ring_inv ?ring" by (simp add: list_all_length)
  then have n: "?n < length ?ts"
    and dist: "\<forall>i < length ?ts. \<forall>j < length ?ts.
          tier_key (?ts ! i) = tier_key (?ts ! j) \<and> tier_key (?ts ! i) \<noteq> None \<longrightarrow> i = j"
    unfolding ring_inv_def by blast+
  have tiers: "ring_tiers (ring_store rings lev k offsets ! nat lev)
                 = ?ts[?n := \<lparr>tier_key = Some k, tier_array = offsets\<rparr>]"
    using l by (simp add: ring_store_def Let_def)
  have len: "lev < int (length (ring_store rings lev k offsets))"
    using lev by (simp add: ring_store_def Let_def)
  have "\<lparr>tier_key = Some k, tier_array = offsets\<rparr>
          \<in> set (?ts[?n := \<lparr>tier_key = Some k, tier_array = offsets\<rparr>])"
    using n by (rule set_update_memI)
  then have "tier_key \<lparr>tier_key = Some k, tier_array = offsets\<rparr>
          \<in> tier_key ` set (?ts[?n := \<lparr>tier_key = Some k, tier_array = offsets\<rparr>])"
    by (rule imageI)
  then have "Some k \<in> set (map tier_key (?ts[?n := \<lparr>tier_key = Some k, tier_array = offsets\<rparr>]))"
    by simp
  then have h: "ring_holds (ring_store rings lev k offsets) lev k"
    using len tiers by (simp add: ring_holds_def)
  have "tier_key (?ts ! ?n) \<in> tier_key ` set ?ts" using n by simp
  with old have "Some k' \<in> set (map tier_key ?ts)" by simp
  with nheld lev have kk: "k \<noteq> k'" by (auto simp: ring_holds_def)
  have "Some k' \<notin> set (map tier_key (?ts[?n := \<lparr>tier_key = Some k, tier_array = offsets\<rparr>]))"
  proof
    assume "Some k' \<in> set (map tier_key (?ts[?n := \<lparr>tier_key = Some k, tier_array = offsets\<rparr>]))"
    then obtain i where i: "i < length ?ts"
      "tier_key (?ts[?n := \<lparr>tier_key = Some k, tier_array = offsets\<rparr>] ! i) = Some k'"
      by (auto simp: in_set_conv_nth)
    show False
    proof (cases "i = ?n")
      case True
      with i kk show False by simp
    next
      case False
      with i have "tier_key (?ts ! i) = Some k'" by simp
      with old dist i(1) n have "i = ?n" by auto
      with False show False by simp
    qed
  qed
  with tiers have "\<not> ring_holds (ring_store rings lev k offsets) lev k'"
    by (simp add: ring_holds_def)
  with h show ?thesis by simp
qed


lemma ring_store_holds:
  assumes inv: "list_all ring_inv rings" and lev: "0 \<le> lev" "lev < int (length rings)"
  shows "ring_holds (ring_store rings lev k offsets) lev k"
proof -
  let ?ring = "rings ! nat lev"
  let ?ts = "ring_tiers ?ring" and ?n = "nat (ring_next ?ring)"
  from lev have l: "nat lev < length rings" by simp
  with inv have rinv: "ring_inv ?ring" by (simp add: list_all_length)
  then have n: "?n < length ?ts" unfolding ring_inv_def by blast
  have tiers: "ring_tiers (ring_store rings lev k offsets ! nat lev)
                 = ?ts[?n := \<lparr>tier_key = Some k, tier_array = offsets\<rparr>]"
    using l by (simp add: ring_store_def Let_def)
  have len: "lev < int (length (ring_store rings lev k offsets))"
    using lev by (simp add: ring_store_def Let_def)
  have "\<lparr>tier_key = Some k, tier_array = offsets\<rparr>
          \<in> set (?ts[?n := \<lparr>tier_key = Some k, tier_array = offsets\<rparr>])"
    using n by (rule set_update_memI)
  then have "tier_key \<lparr>tier_key = Some k, tier_array = offsets\<rparr>
          \<in> tier_key ` set (?ts[?n := \<lparr>tier_key = Some k, tier_array = offsets\<rparr>])"
    by (rule imageI)
  then have "Some k \<in> set (map tier_key (?ts[?n := \<lparr>tier_key = Some k, tier_array = offsets\<rparr>]))"
    by simp
  then show ?thesis using len tiers by (simp add: ring_holds_def)
qed

text \<open>
  C5 (as amended).  Start from the fresh rings of a top-level call and serve any
  sequence of requests in which a key names its range, provided splitting an empty
  view yields zero offsets.  The call for request \<open>j\<close> delivers exactly the offsets
  of \<^verbatim>\<open>p4est_iter_tier_update\<close>.  Without a key (an empty range) nothing is searched or
  stored.  When the ring of the depth holds the key, the memoized offsets are
  delivered, the rings stay as they are and no search runs.  Otherwise the binary
  search runs: at a depth without a ring nothing is stored; at a depth with a ring
  the offsets are stored under the key in the tier at \<^verbatim>\<open>next\<close>, after which the ring
  holds the key and no longer holds the key that tier had.
\<close>

theorem tier_insert_equals_update:
  assumes ok: "\<forall>r \<in> set reqs. tier_request_ok area r"
    and empty: "\<forall>l s. p4est_iter_tier_update E [] l s = replicate (P4EST_ITER_STRIDE E) s"
    and j: "j < length reqs" and r: "reqs ! j = (view, lev, shift, q)"
  shows "let rings = tier_rings_after E (p4est_iter_tier_rings_new E num_procs) (take j reqs);
             offsets = p4est_iter_tier_update E view lev shift
         in p4est_iter_tier_insert E view lev shift rings q =
              (case q of
                 None \<Rightarrow> (offsets, rings, False)
               | Some k \<Rightarrow>
                   if ring_holds rings lev k then (ring_memo rings lev k, rings, False)
                   else (offsets,
                         (if lev < int (length rings) then ring_store rings lev k offsets
                          else rings),
                         True))
            \<and> tier_insert_run E (p4est_iter_tier_rings_new E num_procs) reqs ! j =
                (offsets, \<exists>k. q = Some k \<and> \<not> ring_holds rings lev k)
            \<and> (\<forall>k. q = Some k \<and> ring_holds rings lev k \<longrightarrow> ring_memo rings lev k = offsets)
            \<and> (\<forall>k. q = Some k \<and> \<not> ring_holds rings lev k \<and> lev < int (length rings) \<longrightarrow>
                  ring_holds (ring_store rings lev k offsets) lev k
                  \<and> (\<forall>k'. tier_key (ring_tiers (rings ! nat lev) ! nat (ring_next (rings ! nat lev)))
                             = Some k' \<longrightarrow>
                           \<not> ring_holds (ring_store rings lev k offsets) lev k'))"
proof -
  define rings where "rings = tier_rings_after E (p4est_iter_tier_rings_new E num_procs) (take j reqs)"
  define offsets where "offsets = p4est_iter_tier_update E view lev shift"
  from ok have ok': "\<forall>r \<in> set (take j reqs). tier_request_ok area r"
    by (meson in_set_takeD)
  from j r ok have rok: "tier_request_ok area (view, lev, shift, q)"
    by (metis nth_mem)
  then have lev: "0 \<le> lev" by (simp add: tier_request_ok_def)
  have inv: "list_all ring_inv rings"
    unfolding rings_def using rings_new_inv ok' by (rule rings_after_inv)
  from rings_after_cached [OF tier_cached_ok_new ok' empty, of num_procs]
  obtain used where cached: "tier_cached_ok E area used rings" unfolding rings_def by blast
  obtain next_tier rings' searched where
    res: "p4est_iter_tier_insert E view lev shift rings q = (next_tier, rings', searched)"
    by (cases "p4est_iter_tier_insert E view lev shift rings q") auto
  from tier_insert_step [OF cached rok empty res] have nt: "next_tier = offsets"
    by (simp add: offsets_def)
  note char = tier_insert_char [OF inv lev, of E view shift q]
  have none: "replicate (P4EST_ITER_STRIDE E) shift = offsets" if "q = None"
  proof -
    from that char
    have "p4est_iter_tier_insert E view lev shift rings q
            = (replicate (P4EST_ITER_STRIDE E) shift, rings, False)"
      by simp
    with res have "next_tier = replicate (P4EST_ITER_STRIDE E) shift" by (metis fst_conv)
    with nt show ?thesis by simp
  qed
  have memo: "ring_memo rings lev k = offsets" if "q = Some k" "ring_holds rings lev k" for k
  proof -
    from that char
    have "p4est_iter_tier_insert E view lev shift rings q = (ring_memo rings lev k, rings, False)"
      by simp
    with res have "next_tier = ring_memo rings lev k" by (metis fst_conv)
    with nt show ?thesis by simp
  qed
  have c1: "p4est_iter_tier_insert E view lev shift rings q =
              (case q of
                 None \<Rightarrow> (offsets, rings, False)
               | Some k \<Rightarrow>
                   if ring_holds rings lev k then (ring_memo rings lev k, rings, False)
                   else (offsets,
                         (if lev < int (length rings) then ring_store rings lev k offsets
                          else rings),
                         True))"
    using char none by (cases q) (simp_all add: offsets_def)
  have c2: "tier_insert_run E (p4est_iter_tier_rings_new E num_procs) reqs ! j =
                (offsets, \<exists>k. q = Some k \<and> \<not> ring_holds rings lev k)"
    unfolding tier_insert_run_nth [OF j r] rings_def [symmetric] c1
    using memo by (cases q) auto
  have c4: "\<forall>k. q = Some k \<and> \<not> ring_holds rings lev k \<and> lev < int (length rings) \<longrightarrow>
                  ring_holds (ring_store rings lev k offsets) lev k
                  \<and> (\<forall>k'. tier_key (ring_tiers (rings ! nat lev) ! nat (ring_next (rings ! nat lev)))
                             = Some k' \<longrightarrow>
                           \<not> ring_holds (ring_store rings lev k offsets) lev k')"
    using ring_store_holds [OF inv lev] ring_store_evicts [OF inv lev] by blast
  from c1 c2 memo c4 show ?thesis
    unfolding Let_def rings_def [symmetric] offsets_def [symmetric] by blast
qed

theorem tier_insert_equals_update_witness:
  "tier_insert_run env2d (p4est_iter_tier_rings_new env2d 1) req_hit ! 2
     = (p4est_iter_tier_update env2d tree_refined_once 0 0, False)
   \<and> ring_holds (tier_rings_after env2d (p4est_iter_tier_rings_new env2d 1) (take 2 req_hit)) 0
       (Tree_quadrants 0, 0)
   \<and> ring_memo (tier_rings_after env2d (p4est_iter_tier_rings_new env2d 1) (take 2 req_hit)) 0
       (Tree_quadrants 0, 0) = p4est_iter_tier_update env2d tree_refined_once 0 0"
proof -
  have h1: "\<forall>r \<in> set req_hit. tier_request_ok (\<lambda>k l. (tree_refined_once, 0)) r"
    by (simp add: req_hit_def tier_request_ok_def)
  have h2: "\<forall>l s. p4est_iter_tier_update env2d [] l s = replicate (P4EST_ITER_STRIDE env2d) s"
    by (simp add: env2d_update_empty)
  have h3: "2 < length req_hit" by (simp add: req_hit_def)
  have h4: "req_hit ! 2 = (tree_refined_once, 0, 0, Some (Tree_quadrants 0, 0))"
    by (simp add: req_hit_def)
  have held: "ring_holds (tier_rings_after env2d (p4est_iter_tier_rings_new env2d 1) (take 2 req_hit)) 0
       (Tree_quadrants 0, 0)"
    by code_simp
  from tier_insert_equals_update [OF h1 h2 h3 h4, of 1] held show ?thesis
    by (simp add: Let_def)
qed

text \<open>
  C5 as stated fails: on the rings of a 2D forest on one process (four tiers per
  depth), the sixth request repeats the key and depth of the first, after four other
  keys have been served at that depth, and the binary search runs again.
\<close>

theorem tier_insert_search_counterexample:
  "tier_request_key (req6 ! 5) = tier_request_key (req6 ! 0)
   \<and> snd (tier_insert_run env2d (p4est_iter_tier_rings_new env2d 1) req6 ! 5)"
  by code_simp

subsection \<open>The volume-only traversal\<close>

lemma fold_snoc_map: "fold (\<lambda>i us. us @ [f i]) xs us = us @ map f xs"
  by (induction xs arbitrary: us) simp_all

lemma volume_simple_tree_eq:
  "t < length (trees P) \<Longrightarrow> volume_simple_tree P (int t) us = Ok (us @ tree_visits P t)"
  by (simp add: volume_simple_tree_def tree_visits_def fold_snoc_map)

lemma volume_simple_trees_eq:
  "\<forall>t \<in> set ts. t < length (trees P) \<Longrightarrow>
   fold_outcome (volume_simple_tree P) (map int ts) us = Ok (us @ concat (map (tree_visits P) ts))"
  by (induction ts arbitrary: us) (simp_all add: volume_simple_tree_eq bind_def)

lemma upto_map_int: "0 \<le> i \<Longrightarrow> [i..j] = map int [nat i..<nat (j + 1)]"
proof (induction "nat (j + 1 - i)" arbitrary: i)
  case 0
  then show ?case by simp
next
  case (Suc n)
  then have le: "i \<le> j" by linarith
  from Suc have n: "n = nat (j + 1 - (i + 1))" by linarith
  from Suc have "0 \<le> i + 1" by simp
  from Suc.hyps(1) [OF n this] have ih: "[i + 1..j] = map int [nat (i + 1)..<nat (j + 1)]" .
  have "[i..j] = i # [i + 1..j]" using le by (simp add: upto_rec1)
  moreover have "[nat i..<nat (j + 1)] = nat i # [nat (i + 1)..<nat (j + 1)]"
  proof -
    have "nat i < nat (j + 1)" using le Suc.prems by linarith
    moreover have "nat (i + 1) = Suc (nat i)" using Suc.prems by linarith
    ultimately show ?thesis by (simp add: upt_conv_Cons)
  qed
  ultimately show ?case using ih Suc.prems by simp
qed

lemma concat_empty_visits:
  "\<forall>t \<in> set ts. trees P ! t = [] \<Longrightarrow> concat (map (tree_visits P) ts) = []"
  by (induction ts) (simp_all add: tree_visits_def)

lemma forest_visits_range:
  assumes "a \<le> b" "b \<le> length (trees P)"
    and "\<forall>t < length (trees P). a \<le> t \<and> t < b \<or> trees P ! t = []"
  shows "concat (map (tree_visits P) [a..<b]) = forest_visits P"
proof -
  have "[0..<length (trees P)] = [0..<b] @ [b..<length (trees P)]"
    using assms(2) upt_add_eq_append [of 0 b "length (trees P) - b"] by simp
  moreover have "[0..<b] = [0..<a] @ [a..<b]"
    using assms(1) upt_add_eq_append [of 0 a "b - a"] by simp
  ultimately have sp: "[0..<length (trees P)] = [0..<a] @ [a..<b] @ [b..<length (trees P)]"
    by simp
  have e1: "concat (map (tree_visits P) [0..<a]) = []"
  proof (rule concat_empty_visits, rule ballI)
    fix t assume "t \<in> set [0..<a]"
    then have ta: "t < a" by simp
    with assms(1,2) have "t < length (trees P)" by linarith
    with assms(3) have "a \<le> t \<and> t < b \<or> trees P ! t = []" by blast
    with ta show "trees P ! t = []" by auto
  qed
  have e2: "concat (map (tree_visits P) [b..<length (trees P)]) = []"
  proof (rule concat_empty_visits, rule ballI)
    fix t assume "t \<in> set [b..<length (trees P)]"
    then have tb: "b \<le> t" "t < length (trees P)" by simp_all
    with assms(3) have "a \<le> t \<and> t < b \<or> trees P ! t = []" by blast
    with tb show "trees P ! t = []" by auto
  qed
  have "forest_visits P
          = concat (map (tree_visits P) ([0..<a] @ [a..<b] @ [b..<length (trees P)]))"
    by (simp only: forest_visits_def sp [symmetric])
  also have "\<dots> = concat (map (tree_visits P) [0..<a]) @ concat (map (tree_visits P) [a..<b])
                    @ concat (map (tree_visits P) [b..<length (trees P)])"
    by (simp only: map_append concat_append)
  also have "\<dots> = concat (map (tree_visits P) [a..<b])"
    by (simp only: e1 e2 append_Nil append_Nil2)
  finally show ?thesis by (rule sym)
qed

lemma distinct_concat_map:
  "distinct xs \<Longrightarrow> (\<And>x. x \<in> set xs \<Longrightarrow> distinct (f x)) \<Longrightarrow>
   (\<And>x y. x \<in> set xs \<Longrightarrow> y \<in> set xs \<Longrightarrow> x \<noteq> y \<Longrightarrow> set (f x) \<inter> set (f y) = {}) \<Longrightarrow>
   distinct (concat (map f xs))"
proof (induction xs)
  case Nil
  show ?case by simp
next
  case (Cons a xs)
  have "distinct (concat (map f xs))" using Cons by simp
  moreover have "distinct (f a)" using Cons.prems by simp
  moreover have "set (f a) \<inter> set (f x) = {}" if "x \<in> set xs" for x
  proof -
    from that Cons.prems(1) have "a \<noteq> x" by auto
    with that show ?thesis using Cons.prems(3) [of a x] by simp
  qed
  ultimately show ?case by auto
qed

lemma distinct_forest_visits: "distinct (forest_visits P)"
proof -
  have inj: "inj (\<lambda>(t, si). Volume_event \<lparr>vi_treeid = int t, vi_quad = Some (Tree_quadrants t, si),
                              vi_quadid = int si\<rparr>)"
    by (auto simp: inj_on_def)
  have eq: "forest_visits P =
      map (\<lambda>(t, si). Volume_event \<lparr>vi_treeid = int t, vi_quad = Some (Tree_quadrants t, si),
                              vi_quadid = int si\<rparr>)
        (concat (map (\<lambda>t. map (Pair t) [0..<length (trees P ! t)]) [0..<length (trees P)]))"
    by (simp add: forest_visits_def map_concat comp_def tree_visits_def [abs_def])
  have "distinct (concat (map (\<lambda>t. map (Pair t) [0..<length (trees P ! t)]) [0..<length (trees P)]))"
    by (rule distinct_concat_map) (auto simp: distinct_map inj_on_def)
  then show ?thesis unfolding eq by (simp add: distinct_map inj_on_def)
qed

text \<open>
  C1.  With only a volume callback (no face and no corner callback, and in the 3D
  build no edge callback) \<^verbatim>\<open>p4est_iterate\<close> completes, whatever the bound on the
  search loops, the ghost layer and the connectivity are, and invokes the callback
  for the quadrants stored in the forest, tree by tree in increasing order and
  within a tree in the order of storage; no quadrant is passed twice.  In a valid
  forest the stored quadrants are the local ones.
\<close>

theorem volume_only_visits_each_quadrant_once:
  assumes ok: "local_trees_ok P" and edge: "\<not> (P4_TO_P8 E \<and> iter_edge)"
  shows "p4est_iterate fuel E P Ghost_layer True False iter_edge False = Ok (forest_visits P)
       \<and> distinct (forest_visits P)"
proof (cases "first_local_tree P < 0")
  case True
  with ok have "\<forall>t \<in> set [0..<length (trees P)]. trees P ! t = []"
    by (auto simp: local_trees_ok_def list_all_iff)
  then have "forest_visits P = []"
    unfolding forest_visits_def by (rule concat_empty_visits)
  with True show ?thesis by (simp add: p4est_iterate_def)
next
  case False
  let ?a = "nat (first_local_tree P)" and ?b = "nat (last_local_tree P + 1)"
  from False ok have last: "last_local_tree P < int (length (trees P))"
    and out: "\<forall>t < length (trees P). first_local_tree P \<le> int t \<and> int t \<le> last_local_tree P
                            \<or> trees P ! t = []"
    by (auto simp: local_trees_ok_def list_all_iff)
  have run: "p4est_iterate fuel E P Ghost_layer True False iter_edge False
               = p4est_volume_iterate_simple P []"
    using False edge by (auto simp: p4est_iterate_def)
  have up: "[first_local_tree P..last_local_tree P] = map int [?a..<?b]"
    using False by (simp add: upto_map_int)
  have "\<forall>t \<in> set [?a..<?b]. t < length (trees P)" using last by auto
  from volume_simple_trees_eq [OF this, of "[]"]
  have simple: "p4est_volume_iterate_simple P [] = Ok (concat (map (tree_visits P) [?a..<?b]))"
    by (simp add: p4est_volume_iterate_simple_def up)
  have "concat (map (tree_visits P) [?a..<?b]) = forest_visits P"
  proof (cases "?a \<le> ?b")
    case True
    have "?b \<le> length (trees P)" using last by linarith
    moreover have "\<forall>t < length (trees P). ?a \<le> t \<and> t < ?b \<or> trees P ! t = []"
    proof (intro allI impI)
      fix t assume "t < length (trees P)"
      with out have "first_local_tree P \<le> int t \<and> int t \<le> last_local_tree P
                     \<or> trees P ! t = []" by blast
      then show "?a \<le> t \<and> t < ?b \<or> trees P ! t = []"
      proof
        assume "first_local_tree P \<le> int t \<and> int t \<le> last_local_tree P"
        then have "?a \<le> t" "t < ?b" by linarith+
        then show ?thesis by blast
      next
        assume "trees P ! t = []"
        then show ?thesis by blast
      qed
    qed
    ultimately show ?thesis using True by (intro forest_visits_range) auto
  next
    case F: False
    then have "\<forall>t < length (trees P). \<not> (first_local_tree P \<le> int t \<and> int t \<le> last_local_tree P)"
      by auto
    with out have "\<forall>t \<in> set [0..<length (trees P)]. trees P ! t = []" by auto
    then have "forest_visits P = []"
      unfolding forest_visits_def by (rule concat_empty_visits)
    with F show ?thesis by simp
  qed
  with run simple distinct_forest_visits show ?thesis by simp
qed


theorem volume_only_visits_each_quadrant_once_witness:
  "p4est_iterate 0 env2d forest2 None True False False False = Ok (forest_visits forest2)"
proof -
  have h1: "local_trees_ok forest2"
    by (simp add: local_trees_ok_def forest2_def upt_rec)
  have h2: "\<not> (P4_TO_P8 env2d \<and> False)" by simp
  from volume_only_visits_each_quadrant_once [OF h1 h2, of 0 None] show ?thesis by simp
qed

subsection \<open>The corner iterator\<close>

lemma bind_Ok_iff: "bind r f = Ok b \<longleftrightarrow> (\<exists>a. r = Ok a \<and> f a = Ok b)"
  by (cases r) (simp_all add: bind_def)

lemma corner_probe_cases:
  assumes "corner_probe E P G us side type (sides, la, hl) = Ok (sides', la', hl')"
  shows "(sides' = sides \<and> la' = la \<and> hl' = hl
            \<and> (test la (side * 2) \<noteq> None \<or> count la (side * 2 + type) = 0))
       \<or> (test la (side * 2) = None \<and> sides' = sides \<and> hl' = hl
            \<and> la' = la\<lparr>test := (test la)(side * 2 + type := None)\<rparr>)
       \<or> (test la (side * 2) = None \<and>
            (\<exists>t i. sides' = sides[side := (sides ! side)
                          \<lparr>cs_quad := Some t, cs_is_local := (type = 0), cs_quadid := i\<rparr>]
                  \<and> la' = la\<lparr>test := (test la)(side * 2 + type := Some t)\<rparr>
                  \<and> hl' = (hl \<or> type = 0)))"
proof (cases "test la (side * 2) \<noteq> None \<or> count la (side * 2 + type) = 0")
  case True
  then have "corner_probe E P G us side type (sides, la, hl) = Ok (sides, la, hl)"
    by (auto simp: corner_probe_def Let_def)
  with assms have "sides' = sides \<and> la' = la \<and> hl' = hl" by simp
  with True show ?thesis by blast
next
  case False
  then have "corner_probe E P G us side type (sides, la, hl) =
      bind (corner_candidate E P G us la (side * 2 + type) (cs_corner (sides ! side)))
        (\<lambda>found. case found of
           None \<Rightarrow> Ok (sides, la\<lparr>test := (test la)(side * 2 + type := None)\<rparr>, hl)
         | Some (t, temp_idx) \<Rightarrow>
             Ok (sides[side := (sides ! side)
                    \<lparr>cs_quad := Some t, cs_is_local := (type = 0),
                     cs_quadid := temp_idx + int (first_index la (side * 2 + type))\<rparr>],
                 la\<lparr>test := (test la)(side * 2 + type := Some t)\<rparr>,
                 hl \<or> type = 0))"
    by (simp add: corner_probe_def Let_def)
  with assms obtain found where
    f: "(case found of
           None \<Rightarrow> Ok (sides, la\<lparr>test := (test la)(side * 2 + type := None)\<rparr>, hl)
         | Some (t, temp_idx) \<Rightarrow>
             Ok (sides[side := (sides ! side)
                    \<lparr>cs_quad := Some t, cs_is_local := (type = 0),
                     cs_quadid := temp_idx + int (first_index la (side * 2 + type))\<rparr>],
                 la\<lparr>test := (test la)(side * 2 + type := Some t)\<rparr>,
                 hl \<or> type = 0)) = Ok (sides', la', hl')"
    by (auto simp: bind_Ok_iff)
  from False have tn: "test la (side * 2) = None" by blast
  show ?thesis
  proof (cases found)
    case None
    with f have "sides' = sides \<and> hl' = hl \<and> la' = la\<lparr>test := (test la)(side * 2 + type := None)\<rparr>"
      by simp
    with tn show ?thesis by blast
  next
    case (Some a)
    obtain t i where "a = (t, i)" by (cases a)
    with Some f have "sides' = sides[side := (sides ! side)
                    \<lparr>cs_quad := Some t, cs_is_local := (type = 0),
                     cs_quadid := i + int (first_index la (side * 2 + type))\<rparr>]
       \<and> la' = la\<lparr>test := (test la)(side * 2 + type := Some t)\<rparr> \<and> hl' = (hl \<or> type = 0)"
      by simp
    with tn show ?thesis by blast
  qed
qed

lemma corner_side_effect:
  assumes r: "corner_side E P G us side (sides, la, hl) = Ok (sides', la', hl')"
    and side: "side < length sides"
  shows "length sides' = length sides
       \<and> (\<forall>i. i \<noteq> side \<longrightarrow> sides' ! i = sides ! i)
       \<and> (hl' \<longleftrightarrow> hl \<or> corner_side_local (sides' ! side))"
proof -
  let ?s0 = "sides[side := (sides ! side)\<lparr>cs_quad := None, cs_is_local := False, cs_quadid := - 1\<rparr>]"
  from r obtain s1 la1 h1 where
    p0: "corner_probe E P G us side 0 (?s0, la, hl) = Ok (s1, la1, h1)"
    and p1: "corner_probe E P G us side 1 (s1, la1, h1) = Ok (sides', la', hl')"
    by (auto simp: corner_side_def bind_Ok_iff)
  have l0: "\<not> corner_side_local (?s0 ! side)" using side by (simp add: corner_side_local_def)
  from corner_probe_cases [OF p0]
  have a: "length s1 = length sides
       \<and> (\<forall>i. i \<noteq> side \<longrightarrow> s1 ! i = sides ! i)
       \<and> ((s1 = ?s0 \<and> h1 = hl)
          \<or> (corner_side_local (s1 ! side) \<and> h1 \<and> test la1 (side * 2) \<noteq> None))"
    using side by (auto simp: corner_side_local_def)
  from corner_probe_cases [OF p1]
  have b: "length sides' = length s1
       \<and> (\<forall>i. i \<noteq> side \<longrightarrow> sides' ! i = s1 ! i)
       \<and> ((sides' = s1 \<and> hl' = h1)
          \<or> (test la1 (side * 2) = None \<and> hl' = h1 \<and> \<not> corner_side_local (sides' ! side)))"
    using side a by (auto simp: corner_side_local_def)
  from a b l0 show ?thesis by auto
qed

lemma bind_not_Ok:
  "bind r f = Abort t \<longleftrightarrow> r = Abort t \<or> (\<exists>a. r = Ok a \<and> f a = Abort t)"
  "bind r f = Out_of_fuel t \<longleftrightarrow> r = Out_of_fuel t \<or> (\<exists>a. r = Ok a \<and> f a = Out_of_fuel t)"
  by (cases r; simp add: bind_def)+

lemma stops_with_bind:
  "stops_with us r \<Longrightarrow> (\<And>a. r = Ok a \<Longrightarrow> stops_with us (f a)) \<Longrightarrow> stops_with us (bind r f)"
  by (cases r) (simp_all add: bind_def stops_with_def)

lemma stops_with_fold:
  "(\<And>i a. stops_with us (f i a)) \<Longrightarrow> stops_with us (fold_outcome f xs a)"
proof (induction xs arbitrary: a)
  case Nil
  show ?case by (simp add: stops_with_def)
next
  case (Cons x xs)
  show ?case by (simp add: stops_with_bind Cons)
qed

lemma stops_with_simps [simp]:
  "stops_with us (Ok a)" "stops_with us (Abort us)"
  by (simp_all add: stops_with_def)

lemma corner_candidate_stops: "stops_with us (corner_candidate E P G us la st c)"
  by (simp add: corner_candidate_def Let_def split: option.splits prod.splits)

lemma corner_probe_stops: "stops_with us (corner_probe E P G us side type s)"
  by (cases s) (auto simp: corner_probe_def Let_def intro!: stops_with_bind corner_candidate_stops
      split: option.splits)

lemma corner_side_stops: "stops_with us (corner_side E P G us side s)"
proof (cases s)
  case (fields a b c)
  show ?thesis unfolding corner_side_def fields prod.case
    by (rule stops_with_fold) (rule corner_probe_stops)
qed

lemma corner_sides_effect:
  assumes "fold_outcome (corner_side E P G us) xs (sides, la, hl) = Ok (sides', la', hl')"
    and "distinct xs" "\<forall>side \<in> set xs. side < length sides"
  shows "length sides' = length sides
       \<and> (\<forall>i. i \<notin> set xs \<longrightarrow> sides' ! i = sides ! i)
       \<and> (hl' \<longleftrightarrow> hl \<or> (\<exists>side \<in> set xs. corner_side_local (sides' ! side)))"
  using assms
proof (induction xs arbitrary: sides la hl)
  case Nil
  then show ?case by simp
next
  case (Cons x xs)
  from Cons.prems(1) obtain s1 la1 h1 where
    one: "corner_side E P G us x (sides, la, hl) = Ok (s1, la1, h1)"
    and rest: "fold_outcome (corner_side E P G us) xs (s1, la1, h1) = Ok (sides', la', hl')"
    by (auto simp: bind_Ok_iff)
  from Cons.prems have x: "x < length sides" by simp
  from corner_side_effect [OF one x]
  have e1: "length s1 = length sides"
    "\<forall>i. i \<noteq> x \<longrightarrow> s1 ! i = sides ! i" "h1 \<longleftrightarrow> hl \<or> corner_side_local (s1 ! x)"
    by simp_all
  from Cons.prems e1 have p: "distinct xs"
    "\<forall>side \<in> set xs. side < length s1" by simp_all
  from Cons.IH [OF rest p]
  have e2: "length sides' = length s1"
    "\<forall>i. i \<notin> set xs \<longrightarrow> sides' ! i = s1 ! i"
    "hl' \<longleftrightarrow> h1 \<or> (\<exists>side \<in> set xs. corner_side_local (sides' ! side))"
    by simp_all
  from Cons.prems(2) have "x \<notin> set xs" by simp
  with e2 have "sides' ! x = s1 ! x" by simp
  with e1 e2 show ?case by auto
qed

text \<open>
  C6.  A run of \<^verbatim>\<open>p4est_corner_iterate\<close> on arguments whose side
  records cover its sides either invokes no callback, or completes with exactly one
  invocation of the corner callback, and then some side of the info holds a locally
  owned quadrant.  So when the quadrant found on every side is absent or taken from
  the ghost layer, the callback is skipped.
\<close>

theorem corner_callback_needs_local_side:
  assumes "nat (ca_num_sides args) \<le> length (ci_sides (ca_info args))"
  shows "outcome_events (p4est_corner_iterate E P ghost_layer (args, la, us)) = us
       \<or> (\<exists>args' la'.
            p4est_corner_iterate E P ghost_layer (args, la, us)
              = Ok (args', la', us @ [Corner_event (ca_info args')])
            \<and> (\<exists>side < nat (ca_num_sides args).
                  corner_side_local (ci_sides (ca_info args') ! side)))"
proof -
  let ?n = "nat (ca_num_sides args)"
  let ?la1 = "fold (\<lambda>side l.
                  let k = level la * int (P4EST_ITER_STRIDE E) + ca_start_idx2 args ! side;
                      la' = set_search_area side k
                              (l\<lparr>quad_idx2 := (quad_idx2 l)(side := k)\<rparr>)
                  in la'\<lparr>test := (test la')(side * 2 := None, side * 2 + 1 := None)\<rparr>)
                [0..<?n] la"
  let ?r = "fold_outcome (corner_side E P ghost_layer us) [0..<?n]
                  (ci_sides (ca_info args), ?la1, False)"
  show ?thesis
  proof (cases "list_all (\<lambda>side. count ?la1 (side * 2) = 0) [0..<?n]")
    case True
    then have "p4est_corner_iterate E P ghost_layer (args, la, us) = Ok (args, ?la1, us)"
      by (simp add: p4est_corner_iterate_def Let_def)
    then show ?thesis by (simp add: outcome_events_def)
  next
    case False
    then have eq: "p4est_corner_iterate E P ghost_layer (args, la, us) =
        bind ?r (\<lambda>(sides, la2, has_local).
               let args' = args\<lparr>ca_info := (ca_info args)\<lparr>ci_sides := sides\<rparr>\<rparr>
               in if \<not> has_local then Ok (args', la2, us)
                  else Ok (args', la2, us @ [Corner_event (ca_info args')]))"
      by (simp add: p4est_corner_iterate_def Let_def)
    have st: "stops_with us ?r"
      by (rule stops_with_fold) (rule corner_side_stops)
    show ?thesis
    proof (cases ?r)
      case (Abort t)
      with st have "t = us" by (simp add: stops_with_def)
      with Abort eq show ?thesis by (simp add: bind_def outcome_events_def)
    next
      case (Out_of_fuel t)
      with st have "t = us" by (simp add: stops_with_def)
      with Out_of_fuel eq show ?thesis by (simp add: bind_def outcome_events_def)
    next
      case (Ok res)
      obtain sides' la2 hl' where res: "res = (sides', la2, hl')" by (cases res)
      show ?thesis
      proof (cases hl')
        case False
        with Ok res eq show ?thesis by (simp add: bind_def outcome_events_def)
      next
        case True
        have "\<forall>side \<in> set [0..<?n]. side < length (ci_sides (ca_info args))"
          using assms by auto
        from corner_sides_effect [OF Ok [unfolded res] distinct_upt this] True
        obtain side where "side < ?n" "corner_side_local (sides' ! side)" by auto
        moreover from Ok res eq True have
          "p4est_corner_iterate E P ghost_layer (args, la, us) =
             Ok (args\<lparr>ca_info := (ca_info args)\<lparr>ci_sides := sides'\<rparr>\<rparr>, la2,
                 us @ [Corner_event (ca_info (args\<lparr>ca_info := (ca_info args)\<lparr>ci_sides := sides'\<rparr>\<rparr>))])"
          by (simp add: bind_def)
        ultimately show ?thesis by (intro disjI2 exI conjI) (assumption, auto)
      qed
    qed
  qed
qed

lemma corner_start_sides:
  "nat (ca_num_sides (fst corner_start)) \<le> length (ci_sides (ca_info (fst corner_start)))"
  by code_simp

lemma corner_start_fires:
  "outcome_events (p4est_corner_iterate env2d forest1 []
      (fst corner_start, snd corner_start, [])) \<noteq> []"
  by code_simp

theorem corner_callback_needs_local_side_witness:
  "\<exists>args' la'.
      p4est_corner_iterate env2d forest1 [] (fst corner_start, snd corner_start, [])
        = Ok (args', la', [Corner_event (ca_info args')])
      \<and> (\<exists>side < nat (ca_num_sides (fst corner_start)).
            corner_side_local (ci_sides (ca_info args') ! side))"
  using corner_callback_needs_local_side
          [OF corner_start_sides, of env2d forest1 "[]" "snd corner_start" "[]"]
        corner_start_fires
  by simp

subsection \<open>The owner of an entity between trees\<close>

lemma owner_check_iff: "owner_check t c ps \<longleftrightarrow> list_all (\<lambda>q. pair_le q (t, c)) ps"
proof (induction ps)
  case Nil
  show ?case by simp
next
  case (Cons p ps)
  obtain nt nc where p: "p = (nt, nc)" by (cases p)
  show ?case unfolding p using Cons.IH by (simp add: pair_le_def) linarith
qed

lemma pair_le_refl: "pair_le p p" by (simp add: pair_le_def)

lemma pair_le_antisym: "pair_le p q \<Longrightarrow> pair_le q p \<Longrightarrow> p = q"
  by (cases p, cases q) (auto simp: pair_le_def)

lemma init_face_accepts:
  "fst (p4est_iter_init_face E P offs la a0 t f)
     \<longleftrightarrow> list_all (\<lambda>q. pair_le q (t, f)) (face_pairs E P offs la a0 t f)"
proof -
  obtain nt ntc where c: "init_face_children E (connectivity P) t f (fa_num_to_child a0) = (nt, ntc)"
    by (cases "init_face_children E (connectivity P) t f (fa_num_to_child a0)")
  obtain orient nf where n: "init_face_neighbor_face E (connectivity P) t f = (orient, nf)"
    by (cases "init_face_neighbor_face E (connectivity P) t f")
  show ?thesis
  proof (cases "nt = - 1")
    case True
    with c show ?thesis
      by (simp add: p4est_iter_init_face_def face_pairs_def Let_def new_face_side_def pair_le_def)
  next
    case False
    with c n show ?thesis
      by (auto simp: p4est_iter_init_face_def face_pairs_def Let_def new_face_side_def pair_le_def)
  qed
qed

lemma corner_pairs_eq: "corner_pairs E P offs la t c = corner_touching E (connectivity P) t c"
  by (simp add: corner_pairs_def p4est_iter_init_corner_def Let_def new_corner_side_def
      comp_def case_prod_beta)

lemma corner_touching_Cons: "\<exists>rest. corner_touching E conn t c = (t, c) # rest"
  by (simp add: corner_touching_def Let_def)

lemma init_corner_accepts:
  "fst (p4est_iter_init_corner E P offs la t c)
     \<longleftrightarrow> list_all (\<lambda>q. pair_le q (t, c)) (corner_pairs E P offs la t c)"
proof -
  obtain rest where r: "corner_touching E (connectivity P) t c = (t, c) # rest"
    using corner_touching_Cons by blast
  have "fst (p4est_iter_init_corner E P offs la t c) \<longleftrightarrow> owner_check t c rest"
    using r by (simp add: p4est_iter_init_corner_def Let_def)
  then show ?thesis
    by (simp add: corner_pairs_eq r owner_check_iff pair_le_refl)
qed

lemma init_edge_accepts:
  "fst (p8est_iter_init_edge E P offs la a0 t e)
     \<longleftrightarrow> list_all (\<lambda>q. pair_le q (t, e)) (edge_pairs E P offs la a0 t e)"
  by (simp add: p8est_iter_init_edge_def edge_pairs_def Let_def owner_check_iff pair_le_refl
      comp_def)


lemma init_face_children_fold:
  "fst (fold (\<lambda>i (nt0, ntc).
                 let c = p4est_face_corners E rf (int i);
                     orig = p4est_quadrant_sibling E first_child c;
                     (nt, tempr) = p4est_quadrant_face_neighbor_extra E conn orig t rf;
                     ntc1 = ntc[i := c]
                 in (nt, if nt \<noteq> - 1
                         then ntc1[n + i := p4est_quadrant_child_id E tempr] else ntc1))
              xs (a, b)) =
   (if xs = [] then a
    else fst (p4est_quadrant_face_neighbor_extra E conn
                (p4est_quadrant_sibling E first_child (p4est_face_corners E rf (int (last xs)))) t rf))"
proof (induction xs arbitrary: a b)
  case Nil
  show ?case by simp
next
  case (Cons x xs)
  obtain a' b' where s: "(\<lambda>i (nt0, ntc).
                 let c = p4est_face_corners E rf (int i);
                     orig = p4est_quadrant_sibling E first_child c;
                     (nt, tempr) = p4est_quadrant_face_neighbor_extra E conn orig t rf;
                     ntc1 = ntc[i := c]
                 in (nt, if nt \<noteq> - 1
                         then ntc1[n + i := p4est_quadrant_child_id E tempr] else ntc1)) x (a, b)
       = (a', b')"
    by (cases "(\<lambda>i (nt0, ntc).
                 let c = p4est_face_corners E rf (int i);
                     orig = p4est_quadrant_sibling E first_child c;
                     (nt, tempr) = p4est_quadrant_face_neighbor_extra E conn orig t rf;
                     ntc1 = ntc[i := c]
                 in (nt, if nt \<noteq> - 1
                         then ntc1[n + i := p4est_quadrant_child_id E tempr] else ntc1)) x (a, b)")
  then have a': "a' = fst (p4est_quadrant_face_neighbor_extra E conn
                (p4est_quadrant_sibling E first_child (p4est_face_corners E rf (int x))) t rf)"
    by (auto simp: Let_def split: prod.splits)
  show ?case
    unfolding fold_Cons comp_def s using Cons.IH [of a' b'] a' by simp
qed

lemma half_children_pos: "0 < P4EST_CHILDREN E div 2"
  by (simp add: P4EST_CHILDREN_def P4EST_DIM_def)

lemma init_face_children_nt:
  assumes "face_lookup_ok E conn (t, f)"
  shows "fst (init_face_children E conn t f ntc0) =
     (let d = int (2 * P4EST_DIM E);
          rf = face_lookup_face E f;
          nt = tree_to_tree conn ! nat (d * t + rf);
          nrf = tree_to_face conn ! nat (d * t + rf)
      in if nt = t \<and> nrf = rf then - 1 else nt)"
proof -
  let ?n = "P4EST_CHILDREN E div 2"
  have ne: "[0..<?n] \<noteq> []" using half_children_pos [of E] by simp
  have last: "last [0..<?n] \<in> set [0..<?n]" using ne by (rule last_in_set)
  have "fst (init_face_children E conn t f ntc0) =
      fst (p4est_quadrant_face_neighbor_extra E conn
                (p4est_quadrant_sibling E first_child
                   (p4est_face_corners E (face_lookup_face E f) (int (last [0..<?n])))) t
                (face_lookup_face E f))"
    unfolding init_face_children_def Let_def
    using init_face_children_fold [of E "face_lookup_face E f" conn t ?n "[0..<?n]" "- 1" ntc0] ne
    by (simp add: Let_def)
  also have "\<dots> = (let d = int (2 * P4EST_DIM E);
          rf = face_lookup_face E f;
          nt = tree_to_tree conn ! nat (d * t + rf);
          nrf = tree_to_face conn ! nat (d * t + rf)
      in if nt = t \<and> nrf = rf then - 1 else nt)"
    using assms last
    unfolding face_lookup_ok_def face_lookup_face_def Let_def list_all_iff prod.case
    by blast
  finally show ?thesis .
qed

lemma face_pairs_eq:
  "face_pairs E P offs la fa0 t f =
     (t, f) # (if fst (init_face_children E (connectivity P) t f (fa_num_to_child fa0)) \<noteq> - 1
               then [(fst (init_face_children E (connectivity P) t f (fa_num_to_child fa0)),
                      snd (init_face_neighbor_face E (connectivity P) t f))]
               else [])"
proof -
  obtain nt ntc where c: "init_face_children E (connectivity P) t f (fa_num_to_child fa0) = (nt, ntc)"
    by (cases "init_face_children E (connectivity P) t f (fa_num_to_child fa0)")
  obtain orient nf where n: "init_face_neighbor_face E (connectivity P) t f = (orient, nf)"
    by (cases "init_face_neighbor_face E (connectivity P) t f")
  show ?thesis
  proof (cases "nt = - 1")
    case True
    with c show ?thesis
      by (simp add: p4est_iter_init_face_def face_pairs_def Let_def new_face_side_def)
  next
    case False
    with c n show ?thesis
      by (auto simp: p4est_iter_init_face_def face_pairs_def Let_def new_face_side_def)
  qed
qed

lemma face_pairs_touching:
  assumes "face_lookup_ok E (connectivity P) (t, f)"
  shows "set (face_pairs E P offs la fa0 t f) = touching_face E (connectivity P) (t, f)"
proof -
  define k where "k = nat (int (2 * P4EST_DIM E) * t + face_lookup_face E f)"
  define ntt where "ntt = tree_to_tree (connectivity P) ! k"
  define nrf where "nrf = tree_to_face (connectivity P) ! k"
  define nf where "nf = (if P4_TO_P8 E then nrf mod int (2 * P4EST_DIM E)
                         else p4est_rface_to_zface E (nrf mod int (2 * P4EST_DIM E)))"
  have nt: "fst (init_face_children E (connectivity P) t f (fa_num_to_child fa0))
              = (if ntt = t \<and> nrf = face_lookup_face E f then - 1 else ntt)"
    using init_face_children_nt [OF assms, of "fa_num_to_child fa0"]
    by (simp add: Let_def ntt_def nrf_def k_def)
  from assms have n1: "ntt \<noteq> - 1"
    by (simp add: face_lookup_ok_def Let_def face_lookup_face_def ntt_def k_def)
  have nf': "snd (init_face_neighbor_face E (connectivity P) t f) = nf"
    by (simp add: init_face_neighbor_face_def Let_def nf_def nrf_def k_def)
  have t: "touching_face E (connectivity P) (t, f) =
             (if ntt = t \<and> nrf = face_lookup_face E f then {(t, f)} else {(t, f), (ntt, nf)})"
    by (simp add: touching_face_def Let_def face_lookup_face_def ntt_def nrf_def k_def nf_def)
  show ?thesis
    unfolding face_pairs_eq nt nf' t using n1 by simp
qed

lemma corner_pairs_touching:
  "set (corner_pairs E P offs la t c) = touching_corner E (connectivity P) (t, c)"
  unfolding corner_pairs_eq corner_touching_def touching_corner_def Let_def prod.case
  by (simp add: case_prod_beta if_distrib [where f = set] Un_assoc cong: if_cong)

lemma edge_pairs_touching:
  "set (edge_pairs E P offs la ea0 t e) = touching_edge E (connectivity P) (t, e)"
  unfolding edge_pairs_def p8est_iter_init_edge_def edge_touching_def touching_edge_def Let_def
    prod.case
  by (simp add: case_prod_beta if_distrib [where f = set] image_Un image_UN image_image
        cong: if_cong)


lemma pair_le_total: "pair_le p q \<or> pair_le q p"
  by (cases p, cases q) (auto simp: pair_le_def)

lemma pair_le_trans: "pair_le p q \<Longrightarrow> pair_le q r \<Longrightarrow> pair_le p r"
  by (cases p, cases q, cases r) (auto simp: pair_le_def)

lemma pair_greatest:
  "finite S \<Longrightarrow> S \<noteq> {} \<Longrightarrow> \<exists>m \<in> S. \<forall>q \<in> S. pair_le q m"
proof (induction S rule: finite_ne_induct)
  case (singleton x)
  show ?case by (simp add: pair_le_refl)
next
  case (insert x F)
  then obtain m where m: "m \<in> F" "\<forall>q \<in> F. pair_le q m" by blast
  show ?case
  proof (cases "pair_le x m")
    case True
    with m show ?thesis by blast
  next
    case False
    then have mx: "pair_le m x" using pair_le_total by blast
    have "\<forall>q \<in> insert x F. pair_le q x"
      using m(2) mx pair_le_trans pair_le_refl by blast
    then show ?thesis by blast
  qed
qed

lemma init_pairs_touching:
  assumes "lookup_ok E (connectivity P) kind p"
  shows "set (init_pairs E P offs la fa0 ea0 kind p) = touching E (connectivity P) kind p"
proof (cases kind)
  case Face_entity
  with assms have "face_lookup_ok E (connectivity P) (fst p, snd p)" by (simp add: lookup_ok_def)
  from face_pairs_touching [OF this] Face_entity show ?thesis
    by (simp add: init_pairs_def touching_def)
next
  case Edge_entity
  with edge_pairs_touching [of E P offs la ea0 "fst p" "snd p"] show ?thesis
    by (simp add: init_pairs_def touching_def)
next
  case Corner_entity
  with corner_pairs_touching [of E P offs la "fst p" "snd p"] show ?thesis
    by (simp add: init_pairs_def touching_def)
qed

lemma init_accepts_pairs:
  "init_accepts E P offs la fa0 ea0 kind p
     \<longleftrightarrow> list_all (\<lambda>q. pair_le q p) (init_pairs E P offs la fa0 ea0 kind p)"
  by (cases kind)
     (simp_all add: init_accepts_def init_pairs_def init_face_accepts init_edge_accepts
        init_corner_accepts)

lemma init_accepts_touching:
  assumes "lookup_ok E (connectivity P) kind p"
  shows "init_accepts E P offs la fa0 ea0 kind p
           \<longleftrightarrow> (\<forall>q \<in> touching E (connectivity P) kind p. pair_le q p)"
  unfolding init_accepts_pairs list_all_iff init_pairs_touching [OF assms] ..

lemma touching_self: "p \<in> touching E conn kind p"
  by (cases kind; cases p)
     (simp_all add: touching_def touching_face_def touching_edge_def touching_corner_def Let_def)

lemma touching_finite:
  fixes P :: p4est
  assumes "lookup_ok E (connectivity P) kind p"
  shows "finite (touching E (connectivity P) kind p)"
proof -
  have "finite (set (init_pairs E P [] la fa0 ea0 kind p))" for la fa0 ea0 by simp
  then show ?thesis unfolding init_pairs_touching [OF assms] .
qed

lemma entity_owner:
  fixes P :: p4est
  assumes ok: "entity_ok E (connectivity P) kind p"
  shows "\<exists>m \<in> touching E (connectivity P) kind p.
           (\<forall>q \<in> touching E (connectivity P) kind p. pair_le q m)
           \<and> (\<forall>q \<in> touching E (connectivity P) kind p. \<forall>offs la fa0 ea0.
                 init_accepts E P offs la fa0 ea0 kind q \<longleftrightarrow> q = m)"
proof -
  define S where "S = touching E (connectivity P) kind p"
  have p: "p \<in> S" unfolding S_def by (rule touching_self)
  with ok have lp: "lookup_ok E (connectivity P) kind p" unfolding entity_ok_def S_def by blast
  have fin: "finite S" unfolding S_def using lp by (rule touching_finite)
  from p have ne: "S \<noteq> {}" by auto
  from pair_greatest [OF fin ne] obtain m where m: "m \<in> S" and mx: "\<forall>q \<in> S. pair_le q m"
    by (elim bexE)
  have acc: "init_accepts E P offs la fa0 ea0 kind q \<longleftrightarrow> q = m"
    if q: "q \<in> S" for q offs la fa0 ea0
  proof -
    from ok q have tq: "touching E (connectivity P) kind q = S"
      and lq: "lookup_ok E (connectivity P) kind q"
      unfolding entity_ok_def S_def by blast+
    have a: "init_accepts E P offs la fa0 ea0 kind q \<longleftrightarrow> (\<forall>r \<in> S. pair_le r q)"
      unfolding init_accepts_touching [OF lq] tq ..
    show ?thesis
    proof
      assume "init_accepts E P offs la fa0 ea0 kind q"
      with a have "\<forall>r \<in> S. pair_le r q" by simp
      with m have "pair_le m q" by (rule bspec [rotated])
      moreover from mx q have "pair_le q m" by (rule bspec)
      ultimately show "q = m" by (rule pair_le_antisym [rotated])
    next
      assume "q = m"
      with mx a show "init_accepts E P offs la fa0 ea0 kind q" by simp
    qed
  qed
  show ?thesis
    unfolding S_def [symmetric]
  proof (rule bexI [of _ m])
    show "m \<in> S" by (rule m)
    show "(\<forall>q \<in> S. pair_le q m)
           \<and> (\<forall>q \<in> S. \<forall>offs la fa0 ea0.
                 init_accepts E P offs la fa0 ea0 kind q \<longleftrightarrow> q = m)"
      using mx acc by simp
  qed
qed

lemma pairs_two_trees_face:
  "init_pairs env2d forest2 [0, 0, 0] la_two_trees (empty_face_args env2d) empty_edge_args
     Face_entity (1, 0) = [(1, 0), (0, 1)]
   \<and> init_pairs env2d forest2 [0, 0, 0] la_two_trees (empty_face_args env2d) empty_edge_args
     Face_entity (0, 1) = [(0, 1), (1, 0)]
   \<and> lookup_ok env2d (connectivity forest2) Face_entity (1, 0)
   \<and> lookup_ok env2d (connectivity forest2) Face_entity (0, 1)"
  by code_simp

lemma pairs_two_trees_corner:
  "init_pairs env2d forest2 [0, 0, 0] la_two_trees (empty_face_args env2d) empty_edge_args
     Corner_entity (1, 0) = [(1, 0), (0, 1)]
   \<and> init_pairs env2d forest2 [0, 0, 0] la_two_trees (empty_face_args env2d) empty_edge_args
     Corner_entity (0, 1) = [(0, 1), (1, 0)]"
  by code_simp

lemma pairs_two_cubes_edge:
  "init_pairs env3d forest_two_cubes [0, 0, 0] la_two_cubes (empty_face_args env3d)
     empty_edge_args Edge_entity (1, 4) = [(1, 4), (0, 5)]
   \<and> init_pairs env3d forest_two_cubes [0, 0, 0] la_two_cubes (empty_face_args env3d)
     empty_edge_args Edge_entity (0, 5) = [(0, 5), (1, 4)]"
  by code_simp


text \<open>
  C3 (as amended).  For faces, edges (3D) and corners alike: the sides that the init
  function enumerates are exactly the pairs touching the entity, and the call for a
  pair is accepted exactly when no touching pair is lexicographically greater.  In
  a well-formed entity there is one pair that is the greatest of those touching it,
  and it is the one pair of the entity whose call is accepted.
\<close>

theorem owner_is_greatest_pair:
  fixes P :: p4est
  shows "(lookup_ok E (connectivity P) kind p \<longrightarrow>
            set (init_pairs E P offs la fa0 ea0 kind p) = touching E (connectivity P) kind p
            \<and> (init_accepts E P offs la fa0 ea0 kind p
                 \<longleftrightarrow> (\<forall>q \<in> touching E (connectivity P) kind p. pair_le q p)))
       \<and> (entity_ok E (connectivity P) kind p \<longrightarrow>
            (\<exists>m \<in> touching E (connectivity P) kind p.
               (\<forall>q \<in> touching E (connectivity P) kind p. pair_le q m)
               \<and> (\<forall>q \<in> touching E (connectivity P) kind p.
                     init_accepts E P offs la fa0 ea0 kind q \<longleftrightarrow> q = m)))"
proof (intro conjI impI)
  assume l: "lookup_ok E (connectivity P) kind p"
  show "set (init_pairs E P offs la fa0 ea0 kind p) = touching E (connectivity P) kind p"
    using l by (rule init_pairs_touching)
  show "init_accepts E P offs la fa0 ea0 kind p
                 \<longleftrightarrow> (\<forall>q \<in> touching E (connectivity P) kind p. pair_le q p)"
    using l by (rule init_accepts_touching)
next
  assume "entity_ok E (connectivity P) kind p"
  from entity_owner [OF this] obtain m where
    m: "m \<in> touching E (connectivity P) kind p"
      "\<forall>q \<in> touching E (connectivity P) kind p. pair_le q m"
      "\<forall>q \<in> touching E (connectivity P) kind p. \<forall>offs la fa0 ea0.
                 init_accepts E P offs la fa0 ea0 kind q \<longleftrightarrow> q = m"
    by (elim bexE conjE)
  show "\<exists>m \<in> touching E (connectivity P) kind p.
               (\<forall>q \<in> touching E (connectivity P) kind p. pair_le q m)
               \<and> (\<forall>q \<in> touching E (connectivity P) kind p.
                     init_accepts E P offs la fa0 ea0 kind q \<longleftrightarrow> q = m)"
  proof (rule bexI [of _ m])
    show "m \<in> touching E (connectivity P) kind p" by (rule m(1))
    show "(\<forall>q \<in> touching E (connectivity P) kind p. pair_le q m)
               \<and> (\<forall>q \<in> touching E (connectivity P) kind p.
                     init_accepts E P offs la fa0 ea0 kind q \<longleftrightarrow> q = m)"
      using m(2,3) by simp
  qed
qed

lemma witness_step:
  assumes "set ps = S \<and> (A \<longleftrightarrow> (\<forall>q \<in> S. pair_le q p))"
  shows "A \<longleftrightarrow> list_all (\<lambda>q. pair_le q p) ps"
  using assms by (auto simp: list_all_iff)

theorem owner_is_greatest_pair_witness:
  "(init_accepts env2d forest2 [0, 0, 0] la_two_trees (empty_face_args env2d) empty_edge_args
      Face_entity (1, 0)
    \<and> \<not> init_accepts env2d forest2 [0, 0, 0] la_two_trees (empty_face_args env2d) empty_edge_args
          Face_entity (0, 1))
   \<and> (init_accepts env2d forest2 [0, 0, 0] la_two_trees (empty_face_args env2d) empty_edge_args
        Corner_entity (1, 0)
      \<and> \<not> init_accepts env2d forest2 [0, 0, 0] la_two_trees (empty_face_args env2d)
            empty_edge_args Corner_entity (0, 1))
   \<and> (init_accepts env3d forest_two_cubes [0, 0, 0] la_two_cubes (empty_face_args env3d)
        empty_edge_args Edge_entity (1, 4)
      \<and> \<not> init_accepts env3d forest_two_cubes [0, 0, 0] la_two_cubes (empty_face_args env3d)
            empty_edge_args Edge_entity (0, 5))"
proof -
  note f = pairs_two_trees_face and c = pairs_two_trees_corner and e = pairs_two_cubes_edge
  have lc: "lookup_ok env2d (connectivity forest2) Corner_entity p" for p
    by (simp add: lookup_ok_def)
  have le: "lookup_ok env3d (connectivity forest_two_cubes) Edge_entity p" for p
    by (simp add: lookup_ok_def)
  from owner_is_greatest_pair [of env2d forest2 Face_entity "(1, 0)" "[0, 0, 0]" la_two_trees
      "empty_face_args env2d" empty_edge_args] f
  have "set (init_pairs env2d forest2 [0, 0, 0] la_two_trees (empty_face_args env2d) empty_edge_args
              Face_entity (1, 0))
          = touching env2d (connectivity forest2) Face_entity (1, 0)
        \<and> (init_accepts env2d forest2 [0, 0, 0] la_two_trees (empty_face_args env2d) empty_edge_args
              Face_entity (1, 0)
           \<longleftrightarrow> (\<forall>q \<in> touching env2d (connectivity forest2) Face_entity (1, 0). pair_le q (1, 0)))"
    by blast
  then have "init_accepts env2d forest2 [0, 0, 0] la_two_trees (empty_face_args env2d) empty_edge_args
              Face_entity (1, 0)
           \<longleftrightarrow> list_all (\<lambda>q. pair_le q (1, 0))
                 (init_pairs env2d forest2 [0, 0, 0] la_two_trees (empty_face_args env2d) empty_edge_args
                    Face_entity (1, 0))"
    by (rule witness_step)
  with f have f1: "init_accepts env2d forest2 [0, 0, 0] la_two_trees (empty_face_args env2d)
              empty_edge_args Face_entity (1, 0)"
    by (simp add: pair_le_def)
  from owner_is_greatest_pair [of env2d forest2 Face_entity "(0, 1)" "[0, 0, 0]" la_two_trees
      "empty_face_args env2d" empty_edge_args] f
  have "set (init_pairs env2d forest2 [0, 0, 0] la_two_trees (empty_face_args env2d) empty_edge_args
              Face_entity (0, 1))
          = touching env2d (connectivity forest2) Face_entity (0, 1)
        \<and> (init_accepts env2d forest2 [0, 0, 0] la_two_trees (empty_face_args env2d) empty_edge_args
              Face_entity (0, 1)
           \<longleftrightarrow> (\<forall>q \<in> touching env2d (connectivity forest2) Face_entity (0, 1). pair_le q (0, 1)))"
    by blast
  then have "init_accepts env2d forest2 [0, 0, 0] la_two_trees (empty_face_args env2d) empty_edge_args
              Face_entity (0, 1)
           \<longleftrightarrow> list_all (\<lambda>q. pair_le q (0, 1))
                 (init_pairs env2d forest2 [0, 0, 0] la_two_trees (empty_face_args env2d) empty_edge_args
                    Face_entity (0, 1))"
    by (rule witness_step)
  with f have f2: "\<not> init_accepts env2d forest2 [0, 0, 0] la_two_trees (empty_face_args env2d)
              empty_edge_args Face_entity (0, 1)"
    by (simp add: pair_le_def)
  from owner_is_greatest_pair [of env2d forest2 Corner_entity "(1, 0)" "[0, 0, 0]" la_two_trees
      "empty_face_args env2d" empty_edge_args] c lc
  have "set (init_pairs env2d forest2 [0, 0, 0] la_two_trees (empty_face_args env2d) empty_edge_args
              Corner_entity (1, 0))
          = touching env2d (connectivity forest2) Corner_entity (1, 0)
        \<and> (init_accepts env2d forest2 [0, 0, 0] la_two_trees (empty_face_args env2d) empty_edge_args
              Corner_entity (1, 0)
           \<longleftrightarrow> (\<forall>q \<in> touching env2d (connectivity forest2) Corner_entity (1, 0). pair_le q (1, 0)))"
    by blast
  then have "init_accepts env2d forest2 [0, 0, 0] la_two_trees (empty_face_args env2d) empty_edge_args
              Corner_entity (1, 0)
           \<longleftrightarrow> list_all (\<lambda>q. pair_le q (1, 0))
                 (init_pairs env2d forest2 [0, 0, 0] la_two_trees (empty_face_args env2d) empty_edge_args
                    Corner_entity (1, 0))"
    by (rule witness_step)
  with c have c1: "init_accepts env2d forest2 [0, 0, 0] la_two_trees (empty_face_args env2d)
              empty_edge_args Corner_entity (1, 0)"
    by (simp add: pair_le_def)
  from owner_is_greatest_pair [of env2d forest2 Corner_entity "(0, 1)" "[0, 0, 0]" la_two_trees
      "empty_face_args env2d" empty_edge_args] c lc
  have "set (init_pairs env2d forest2 [0, 0, 0] la_two_trees (empty_face_args env2d) empty_edge_args
              Corner_entity (0, 1))
          = touching env2d (connectivity forest2) Corner_entity (0, 1)
        \<and> (init_accepts env2d forest2 [0, 0, 0] la_two_trees (empty_face_args env2d) empty_edge_args
              Corner_entity (0, 1)
           \<longleftrightarrow> (\<forall>q \<in> touching env2d (connectivity forest2) Corner_entity (0, 1). pair_le q (0, 1)))"
    by blast
  then have "init_accepts env2d forest2 [0, 0, 0] la_two_trees (empty_face_args env2d) empty_edge_args
              Corner_entity (0, 1)
           \<longleftrightarrow> list_all (\<lambda>q. pair_le q (0, 1))
                 (init_pairs env2d forest2 [0, 0, 0] la_two_trees (empty_face_args env2d) empty_edge_args
                    Corner_entity (0, 1))"
    by (rule witness_step)
  with c have c2: "\<not> init_accepts env2d forest2 [0, 0, 0] la_two_trees (empty_face_args env2d)
              empty_edge_args Corner_entity (0, 1)"
    by (simp add: pair_le_def)
  from owner_is_greatest_pair [of env3d forest_two_cubes Edge_entity "(1, 4)" "[0, 0, 0]" la_two_cubes
      "empty_face_args env3d" empty_edge_args] e le
  have "set (init_pairs env3d forest_two_cubes [0, 0, 0] la_two_cubes (empty_face_args env3d) empty_edge_args
              Edge_entity (1, 4))
          = touching env3d (connectivity forest_two_cubes) Edge_entity (1, 4)
        \<and> (init_accepts env3d forest_two_cubes [0, 0, 0] la_two_cubes (empty_face_args env3d) empty_edge_args
              Edge_entity (1, 4)
           \<longleftrightarrow> (\<forall>q \<in> touching env3d (connectivity forest_two_cubes) Edge_entity (1, 4). pair_le q (1, 4)))"
    by blast
  then have "init_accepts env3d forest_two_cubes [0, 0, 0] la_two_cubes (empty_face_args env3d) empty_edge_args
              Edge_entity (1, 4)
           \<longleftrightarrow> list_all (\<lambda>q. pair_le q (1, 4))
                 (init_pairs env3d forest_two_cubes [0, 0, 0] la_two_cubes (empty_face_args env3d) empty_edge_args
                    Edge_entity (1, 4))"
    by (rule witness_step)
  with e have e1: "init_accepts env3d forest_two_cubes [0, 0, 0] la_two_cubes (empty_face_args env3d)
              empty_edge_args Edge_entity (1, 4)"
    by (simp add: pair_le_def)
  from owner_is_greatest_pair [of env3d forest_two_cubes Edge_entity "(0, 5)" "[0, 0, 0]" la_two_cubes
      "empty_face_args env3d" empty_edge_args] e le
  have "set (init_pairs env3d forest_two_cubes [0, 0, 0] la_two_cubes (empty_face_args env3d) empty_edge_args
              Edge_entity (0, 5))
          = touching env3d (connectivity forest_two_cubes) Edge_entity (0, 5)
        \<and> (init_accepts env3d forest_two_cubes [0, 0, 0] la_two_cubes (empty_face_args env3d) empty_edge_args
              Edge_entity (0, 5)
           \<longleftrightarrow> (\<forall>q \<in> touching env3d (connectivity forest_two_cubes) Edge_entity (0, 5). pair_le q (0, 5)))"
    by blast
  then have "init_accepts env3d forest_two_cubes [0, 0, 0] la_two_cubes (empty_face_args env3d) empty_edge_args
              Edge_entity (0, 5)
           \<longleftrightarrow> list_all (\<lambda>q. pair_le q (0, 5))
                 (init_pairs env3d forest_two_cubes [0, 0, 0] la_two_cubes (empty_face_args env3d) empty_edge_args
                    Edge_entity (0, 5))"
    by (rule witness_step)
  with e have e2: "\<not> init_accepts env3d forest_two_cubes [0, 0, 0] la_two_cubes (empty_face_args env3d)
              empty_edge_args Edge_entity (0, 5)"
    by (simp add: pair_le_def)
  from f1 f2 c1 c2 e1 e2 show ?thesis by blast
qed

text \<open>
  C3 as stated fails: between the two trees of the second forest, face 1 of tree 0
  meets face 0 of tree 1.  The pair \<open>(0, 1)\<close> is the smaller one, yet it is rejected
  and \<open>(1, 0)\<close> is accepted.
\<close>

theorem owner_is_smallest_counterexample:
  "touching env2d (connectivity forest2) Face_entity (0, 1) = {(0, 1), (1, 0)}
   \<and> pair_le (0, 1) (1, 0)
   \<and> \<not> init_accepts env2d forest2 [0, 0, 0] la_two_trees (empty_face_args env2d) empty_edge_args
         Face_entity (0, 1)
   \<and> init_accepts env2d forest2 [0, 0, 0] la_two_trees (empty_face_args env2d) empty_edge_args
         Face_entity (1, 0)"
  by code_simp






subsection \<open>A top-level call without a ghost layer\<close>

lemma outcome_all_simps [simp]:
  "outcome_all Q T (Ok a) = Q a" "outcome_all Q T (Abort us) = T us"
  "outcome_all Q T (Out_of_fuel us) = T us"
  by (simp_all add: outcome_all_def)



lemma outcome_all_mono:
  "outcome_all Q T r \<Longrightarrow> (\<And>a. Q a \<Longrightarrow> Q' a) \<Longrightarrow> outcome_all Q' T r"
  by (cases r) simp_all

lemma ghost_free_la_cong:
  "quadrants la' = quadrants la \<Longrightarrow> test la' = test la \<Longrightarrow> ghost_free_la la' = ghost_free_la la"
  by (simp add: ghost_free_la_def)



lemma local_ptr_simps [simp]:
  "local_ptr None b" "local_ptr (Some ptr) b \<longleftrightarrow> b \<and> fst ptr \<noteq> Ghost_quadrants"
  by (simp_all add: local_ptr_def)





lemma set_search_area_frame [simp]:
  "quadrants (set_search_area side k la) = quadrants la"
  "test (set_search_area side k la) = test la"
  "level (set_search_area side k la) = level la"
  by (simp_all add: set_search_area_def Let_def)









lemma ghost_free_la_frame [simp]:
  "ghost_free_la (bump_level_num la) = ghost_free_la la"
  "ghost_free_la (descend la) = ghost_free_la la"
  "ghost_free_la (ascend la) = ghost_free_la la"
  "ghost_free_la (set_search_area side k la) = ghost_free_la la"
  "ghost_free_la (la\<lparr>refine := r\<rparr>) = ghost_free_la la"
  "ghost_free_la (la\<lparr>quad_idx2 := qi\<rparr>) = ghost_free_la la"
  "ghost_free_la (la\<lparr>level_num := ln\<rparr>) = ghost_free_la la"
  "ghost_free_la (la\<lparr>level := l\<rparr>) = ghost_free_la la"
  "ghost_free_la (la\<lparr>first_index := fi\<rparr>) = ghost_free_la la"
  "ghost_free_la (la\<lparr>count := cn\<rparr>) = ghost_free_la la"
  "ghost_free_la (la\<lparr>index := ix\<rparr>) = ghost_free_la la"
  by (simp_all add: ghost_free_la_def bump_level_num_def descend_def ascend_def)

























lemma set_root_bounds_ghost_free [simp]:
  "ghost_free_la (set_root_bounds P offs side t la) = ghost_free_la la"
  by (simp add: set_root_bounds_def set_index_def)








lemma new_corner_side_ok [simp]: "corner_side_not_ghost (new_corner_side t c)"
  by (simp add: corner_side_not_ghost_def new_corner_side_def)

lemma new_face_side_ok [simp]: "face_side_not_ghost (new_face_side E t f)"
  by (simp add: face_side_not_ghost_def new_face_side_def list_all2_conv_all_nth)

lemma empty_corner_args_ok [simp]: "corner_args_ok empty_corner_args"
  by (simp add: corner_args_ok_def empty_corner_args_def)

lemma empty_face_args_ok [simp]: "face_args_ok (empty_face_args E)"
  by (simp add: face_args_ok_def empty_face_args_def)

lemma init_corner_from_face_ok [simp]:
  "corner_args_ok (p4est_iter_init_corner_from_face E num_to_child outside_face treeids)"
  by (simp add: corner_args_ok_def p4est_iter_init_corner_from_face_def Let_def list_all_iff
        split_beta)

lemma init_corner_from_volume_ok [simp]:
  "corner_args_ok (p4est_iter_init_corner_from_volume E t)"
  by (simp add: corner_args_ok_def p4est_iter_init_corner_from_volume_def list_all_iff)

lemma init_face_from_volume_ok [simp]:
  "face_args_ok (p4est_iter_init_face_from_volume E with_corners t dir pos)"
  by (simp add: face_args_ok_def p4est_iter_init_face_from_volume_def Let_def)












end
